theory Spec2Isabelle
  imports Main "HOL-Library.Sublist" "HOL-Library.Char_ord" "HOL-Library.List_Lexorder"
    "HOL-Library.FSet"
begin

section \<open>Strings\<close>

text \<open>
  Names (file names, slugs, track names) are Python \<^verbatim>\<open>str\<close> values. They are modelled as
  \<^typ>\<open>string\<close>, a character being a code point below 256; on these the library
  functions used by the scripts are written out in full. Comparison of strings is
  Python's: lexicographic by code point.
\<close>

text \<open>\<^verbatim>\<open>str.lower\<close> on code points below 256: the letters A-Z and the Latin-1 capitals
  (192-222 except the multiplication sign 215) move up by 32, everything else stays.\<close>

definition py_lower_char :: "char \<Rightarrow> char" where
  "py_lower_char c =
     (let n = (of_char c :: nat) in
      if (65 \<le> n \<and> n \<le> 90) \<or> (192 \<le> n \<and> n \<le> 222 \<and> n \<noteq> 215)
      then char_of (n + 32) else c)"

definition py_lower :: "string \<Rightarrow> string" where
  "py_lower s = map py_lower_char s"

text \<open>\<^verbatim>\<open>str.replace(old, new)\<close>: non-overlapping occurrences, left to right; an empty
  \<^verbatim>\<open>old\<close> matches before every character and at the end.\<close>

fun py_replace :: "string \<Rightarrow> string \<Rightarrow> string \<Rightarrow> string" where
  "py_replace old new [] = (if old = [] then new else [])"
| "py_replace old new (c # cs) =
     (if old = [] then new @ c # py_replace old new cs
      else if prefix old (c # cs) then new @ py_replace old new (drop (length old) (c # cs))
      else c # py_replace old new cs)"

text \<open>\<^verbatim>\<open>sub in s\<close>: \<^verbatim>\<open>sub\<close> occurs in \<^verbatim>\<open>s\<close> as a contiguous substring.\<close>

fun py_in :: "string \<Rightarrow> string \<Rightarrow> bool" where
  "py_in sub [] = (sub = [])"
| "py_in sub (c # cs) = (prefix sub (c # cs) \<or> py_in sub cs)"

text \<open>\<^verbatim>\<open>s.endswith(suf)\<close>.\<close>

definition py_endswith :: "string \<Rightarrow> string \<Rightarrow> bool" where
  "py_endswith s suf = suffix suf s"

section \<open>The file system\<close>

text \<open>
  All three scripts work on one directory tree through \<^verbatim>\<open>pathlib\<close> and \<^verbatim>\<open>shutil\<close>.
  A path is the list of its components below the root, an entry is a directory or a
  regular file holding bytes, and the file system is a finite table from paths to
  entries (the first binding of a path counts). Symbolic links, permissions and time
  stamps are not part of the model; the platform is POSIX. The root \<open>[]\<close> is always a
  directory. In a file system that comes from a real tree every entry's parent is a
  directory (\<open>wf_fs\<close>).
\<close>

type_synonym path = "string list"

datatype node = Dir | File string

type_synonym filesystem = "(path \<times> node) list"

datatype error =
    FileNotFoundError
  | NotADirectoryError
  | IsADirectoryError
  | FileExistsError
  | UnicodeDecodeError
  | SameFileError
  | ValueError

definition lookup :: "filesystem \<Rightarrow> path \<Rightarrow> node option" where
  "lookup fs p = map_of fs p"

definition fs_update :: "path \<Rightarrow> node \<Rightarrow> filesystem \<Rightarrow> filesystem" where
  "fs_update p n fs = (p, n) # filter (\<lambda>e. fst e \<noteq> p) fs"

definition path_exists :: "filesystem \<Rightarrow> path \<Rightarrow> bool" where
  "path_exists fs p = (p = [] \<or> lookup fs p \<noteq> None)"

definition is_dir :: "filesystem \<Rightarrow> path \<Rightarrow> bool" where
  "is_dir fs p = (p = [] \<or> lookup fs p = Some Dir)"

definition wf_fs :: "filesystem \<Rightarrow> bool" where
  "wf_fs fs = (\<forall>p \<in> set (map fst fs). p \<noteq> [] \<and> is_dir fs (butlast p))"

text \<open>Resolving the directory part of a path, component by component from the root:
  a missing component gives \<^verbatim>\<open>ENOENT\<close>, a regular file in the way \<^verbatim>\<open>ENOTDIR\<close>.\<close>

fun walk :: "filesystem \<Rightarrow> path \<Rightarrow> path \<Rightarrow> error option" where
  "walk fs pre [] = None"
| "walk fs pre (n # ns) =
     (case lookup fs (pre @ [n]) of
        None \<Rightarrow> Some FileNotFoundError
      | Some (File b) \<Rightarrow> Some NotADirectoryError
      | Some Dir \<Rightarrow> walk fs (pre @ [n]) ns)"

definition dir_error :: "filesystem \<Rightarrow> path \<Rightarrow> error option" where
  "dir_error fs d = walk fs [] d"

text \<open>\<^verbatim>\<open>os.mkdir\<close>.\<close>

definition os_mkdir :: "filesystem \<Rightarrow> path \<Rightarrow> error + filesystem" where
  "os_mkdir fs p =
     (if p = [] then Inl FileExistsError
      else case dir_error fs (butlast p) of
        Some e \<Rightarrow> Inl e
      | None \<Rightarrow> if lookup fs p \<noteq> None then Inl FileExistsError else Inr (fs_update p Dir fs))"

text \<open>
  \<^verbatim>\<open>Path.mkdir(parents=..., exist_ok=True)\<close>, as pathlib writes it: try \<^verbatim>\<open>os.mkdir\<close>; on
  \<^verbatim>\<open>FileNotFoundError\<close> (with \<^verbatim>\<open>parents\<close>) make the parent the same way and then the
  directory itself without \<^verbatim>\<open>parents\<close>; any other error is swallowed when the path is a
  directory. The result is the error raised, if any, and the file system as it then is.
\<close>

definition mkdir_exist_ok :: "filesystem \<Rightarrow> path \<Rightarrow> error option \<times> filesystem" where
  "mkdir_exist_ok fs p =
     (case os_mkdir fs p of
        Inr fs' \<Rightarrow> (None, fs')
      | Inl e \<Rightarrow> if e \<noteq> FileNotFoundError \<and> is_dir fs p then (None, fs) else (Some e, fs))"

fun mkdir_p :: "filesystem \<Rightarrow> path \<Rightarrow> error option \<times> filesystem" where
  "mkdir_p fs p =
     (case os_mkdir fs p of
        Inr fs' \<Rightarrow> (None, fs')
      | Inl e \<Rightarrow>
          if e = FileNotFoundError then
            (case p of
               [] \<Rightarrow> (Some e, fs)
             | n # ns \<Rightarrow>
                 (case mkdir_p fs (butlast (n # ns)) of
                    (Some e', fs1) \<Rightarrow> (Some e', fs1)
                  | (None, fs1) \<Rightarrow> mkdir_exist_ok fs1 p))
          else if is_dir fs p then (None, fs) else (Some e, fs))"

declare mkdir_p.simps [simp del]

text \<open>Opening a file for reading and for writing (binary).\<close>

definition read_bytes :: "filesystem \<Rightarrow> path \<Rightarrow> error + string" where
  "read_bytes fs p =
     (if p = [] then Inl IsADirectoryError
      else case dir_error fs (butlast p) of
        Some e \<Rightarrow> Inl e
      | None \<Rightarrow>
          (case lookup fs p of
             None \<Rightarrow> Inl FileNotFoundError
           | Some Dir \<Rightarrow> Inl IsADirectoryError
           | Some (File b) \<Rightarrow> Inr b))"

definition write_bytes :: "filesystem \<Rightarrow> path \<Rightarrow> string \<Rightarrow> error + filesystem" where
  "write_bytes fs p b =
     (if p = [] then Inl IsADirectoryError
      else case dir_error fs (butlast p) of
        Some e \<Rightarrow> Inl e
      | None \<Rightarrow>
          (case lookup fs p of
             Some Dir \<Rightarrow> Inl IsADirectoryError
           | _ \<Rightarrow> Inr (fs_update p (File b) fs)))"

text \<open>
  \<^verbatim>\<open>shutil.copy2(src, dst)\<close>: a destination that is a directory stands for the entry
  of the source's name inside it; copying a file onto itself is refused; the source is
  opened before the destination.
\<close>

definition copy2 :: "filesystem \<Rightarrow> path \<Rightarrow> path \<Rightarrow> error + filesystem" where
  "copy2 fs src dst =
     (let dst' = (if is_dir fs dst then (case src of [] \<Rightarrow> dst | n # ns \<Rightarrow> dst @ [last src]) else dst)
      in if src = dst' \<and> path_exists fs src then Inl SameFileError
         else case read_bytes fs src of
           Inl e \<Rightarrow> Inl e
         | Inr b \<Rightarrow> write_bytes fs dst' b)"

subsection \<open>Text files\<close>

text \<open>
  \<^verbatim>\<open>read_text(encoding="utf-8")\<close> decodes the bytes as UTF-8 and, the file being opened
  in text mode with universal newlines, turns every CR LF and every lone CR into LF.
  \<^verbatim>\<open>write_text(..., encoding="utf-8")\<close> encodes; on POSIX a line feed is written as it
  is. A text value is represented by its UTF-8 encoding, so that encoding is the
  identity and decoding is the check that the bytes are well-formed UTF-8.
\<close>

definition byte_in :: "char \<Rightarrow> nat \<Rightarrow> nat \<Rightarrow> bool" where
  "byte_in c lo hi = (lo \<le> (of_char c :: nat) \<and> (of_char c :: nat) \<le> hi)"

text \<open>The number of continuation bytes of the well-formed UTF-8 sequence at the head
  of the bytes, if there is one (Unicode, table 3-7).\<close>

definition utf8_head :: "string \<Rightarrow> nat option" where
  "utf8_head bs =
     (case bs of
        [] \<Rightarrow> None
      | b0 # r \<Rightarrow>
          if byte_in b0 0 0x7F then Some 0
          else if byte_in b0 0xC2 0xDF then
            (case r of b1 # r1 \<Rightarrow> if byte_in b1 0x80 0xBF then Some 1 else None | _ \<Rightarrow> None)
          else if byte_in b0 0xE0 0xEF then
            (case r of
               b1 # b2 # r2 \<Rightarrow>
                 if byte_in b1 (if b0 = CHR 0xE0 then 0xA0 else 0x80) (if b0 = CHR 0xED then 0x9F else 0xBF)
                    \<and> byte_in b2 0x80 0xBF
                 then Some 2 else None
             | _ \<Rightarrow> None)
          else if byte_in b0 0xF0 0xF4 then
            (case r of
               b1 # b2 # b3 # r3 \<Rightarrow>
                 if byte_in b1 (if b0 = CHR 0xF0 then 0x90 else 0x80) (if b0 = CHR 0xF4 then 0x8F else 0xBF)
                    \<and> byte_in b2 0x80 0xBF \<and> byte_in b3 0x80 0xBF
                 then Some 3 else None
             | _ \<Rightarrow> None)
          else None)"

text \<open>Decoding with \<^verbatim>\<open>errors="strict"\<close> (the default), which fails on the first byte that
  does not start a well-formed sequence, and with \<^verbatim>\<open>errors="ignore"\<close>, which drops such
  bytes (a byte dropped after a lead byte is a continuation byte or starts the next
  sequence, so dropping one byte at a time gives what dropping the ill-formed run
  gives).\<close>

fun utf8_decode :: "bool \<Rightarrow> string \<Rightarrow> string option" where
  "utf8_decode ignore [] = Some []"
| "utf8_decode ignore (b # r) =
     (case utf8_head (b # r) of
        Some m \<Rightarrow> map_option (\<lambda>t. b # take m r @ t) (utf8_decode ignore (drop m r))
      | None \<Rightarrow> if ignore then utf8_decode ignore r else None)"

fun universal_newlines :: "string \<Rightarrow> string" where
  "universal_newlines [] = []"
| "universal_newlines (c # cs) =
     (if c = CHR 0x0D then
        (case cs of
           [] \<Rightarrow> [CHR 0x0A]
         | d # ds \<Rightarrow> if d = CHR 0x0A then CHR 0x0A # universal_newlines ds
                     else CHR 0x0A # universal_newlines cs)
      else c # universal_newlines cs)"

definition read_text :: "bool \<Rightarrow> filesystem \<Rightarrow> path \<Rightarrow> error + string" where
  "read_text ignore fs p =
     (case read_bytes fs p of
        Inl e \<Rightarrow> Inl e
      | Inr b \<Rightarrow>
          (case utf8_decode ignore b of
             None \<Rightarrow> Inl UnicodeDecodeError
           | Some t \<Rightarrow> Inr (universal_newlines t)))"

definition write_text :: "filesystem \<Rightarrow> path \<Rightarrow> string \<Rightarrow> error + filesystem" where
  "write_text fs p t = write_bytes fs p t"

subsection \<open>Listing directories\<close>

text \<open>
  \<^verbatim>\<open>fnmatch\<close> patterns, as \<^verbatim>\<open>fnmatch.translate\<close> reads them: \<^verbatim>\<open>*\<close> matches any string,
  \<^verbatim>\<open>?\<close> any one character, \<^verbatim>\<open>[...]\<close> one character of a set (a leading \<^verbatim>\<open>!\<close> negates,
  a \<^verbatim>\<open>]\<close> right after the opening is a member, \<^verbatim>\<open>a-b\<close> is a range unless the hyphen is
  the first or the last character, a range whose ends are in the wrong order is empty);
  a \<^verbatim>\<open>[\<close> that is never closed stands for itself.
\<close>

datatype glob_token =
    Star
  | AnyChar
  | Lit char
  | CharSet bool "(char \<times> char) list"

fun set_items :: "string \<Rightarrow> (char \<times> char) list" where
  "set_items [] = []"
| "set_items [a] = [(a, a)]"
| "set_items [a, b] = [(a, a), (b, b)]"
| "set_items (a # h # b # r) =
     (if h = CHR ''-'' then (a, b) # set_items r else (a, a) # set_items (h # b # r))"

text \<open>The position of the closing bracket, counted from the character after the
  opening one.\<close>

definition closing_bracket :: "string \<Rightarrow> nat option" where
  "closing_bracket cs =
     (let j0 = (if cs \<noteq> [] \<and> hd cs = CHR ''!'' then 1 else 0);
          j1 = (if j0 < length cs \<and> cs ! j0 = CHR '']'' then j0 + 1 else j0);
          k = length (takeWhile (\<lambda>c. c \<noteq> CHR '']'') (drop j1 cs))
      in if j1 + k < length cs then Some (j1 + k) else None)"

fun glob_tokens :: "string \<Rightarrow> glob_token list" where
  "glob_tokens [] = []"
| "glob_tokens (c # cs) =
     (if c = CHR ''*'' then Star # glob_tokens cs
      else if c = CHR ''?'' then AnyChar # glob_tokens cs
      else if c = CHR ''['' then
        (case closing_bracket cs of
           None \<Rightarrow> Lit c # glob_tokens cs
         | Some j \<Rightarrow>
             (let stuff = take j cs;
                  neg = (stuff \<noteq> [] \<and> hd stuff = CHR ''!'');
                  body = (if neg then tl stuff else stuff)
              in CharSet neg (set_items body) # glob_tokens (drop (Suc j) cs)))
      else Lit c # glob_tokens cs)"

definition in_items :: "char \<Rightarrow> (char \<times> char) list \<Rightarrow> bool" where
  "in_items c items = list_ex (\<lambda>r. fst r \<le> c \<and> c \<le> snd r) items"

fun match_tokens :: "glob_token list \<Rightarrow> string \<Rightarrow> bool" where
  "match_tokens [] s = (s = [])"
| "match_tokens (Star # ts) [] = match_tokens ts []"
| "match_tokens (Star # ts) (c # cs) = (match_tokens ts (c # cs) \<or> match_tokens (Star # ts) cs)"
| "match_tokens (AnyChar # ts) [] = False"
| "match_tokens (AnyChar # ts) (c # cs) = match_tokens ts cs"
| "match_tokens (Lit a # ts) [] = False"
| "match_tokens (Lit a # ts) (c # cs) = (a = c \<and> match_tokens ts cs)"
| "match_tokens (CharSet neg items # ts) [] = False"
| "match_tokens (CharSet neg items # ts) (c # cs) = (in_items c items \<noteq> neg \<and> match_tokens ts cs)"

definition fnmatch :: "string \<Rightarrow> string \<Rightarrow> bool" where
  "fnmatch pat name = match_tokens (glob_tokens pat) name"

text \<open>
  The entries of a directory, and the entries anywhere below it, in the order of
  \<^verbatim>\<open>sorted(...)\<close> on paths (component by component). What is not a directory has no
  entries.
\<close>

definition all_paths :: "filesystem \<Rightarrow> path list" where
  "all_paths fs = sort (remdups (map fst fs))"

definition children :: "filesystem \<Rightarrow> path \<Rightarrow> path list" where
  "children fs d = (if is_dir fs d then filter (\<lambda>p. p \<noteq> [] \<and> butlast p = d) (all_paths fs) else [])"

definition descendants :: "filesystem \<Rightarrow> path \<Rightarrow> path list" where
  "descendants fs d = (if is_dir fs d then filter (\<lambda>p. strict_prefix d p) (all_paths fs) else [])"

text \<open>\<^verbatim>\<open>sorted(d.glob(pat))\<close> and \<^verbatim>\<open>sorted(d.rglob(pat))\<close> for a pattern of one component.\<close>

definition glob_sorted :: "filesystem \<Rightarrow> path \<Rightarrow> string \<Rightarrow> path list" where
  "glob_sorted fs d pat = filter (\<lambda>p. fnmatch pat (last p)) (children fs d)"

definition rglob_sorted :: "filesystem \<Rightarrow> path \<Rightarrow> string \<Rightarrow> path list" where
  "rglob_sorted fs d pat = filter (\<lambda>p. fnmatch pat (last p)) (descendants fs d)"

text \<open>\<^verbatim>\<open>sorted(d.iterdir())\<close>, which raises when \<^verbatim>\<open>d\<close> is not a directory.\<close>

definition iterdir_sorted :: "filesystem \<Rightarrow> path \<Rightarrow> error + path list" where
  "iterdir_sorted fs d =
     (if is_dir fs d then Inr (children fs d)
      else if path_exists fs d then Inl NotADirectoryError
      else Inl FileNotFoundError)"

text \<open>\<^verbatim>\<open>PurePath.stem\<close> and \<^verbatim>\<open>PurePath.suffix\<close>: the name is cut at its last dot, unless
  that dot is the first or the last character or there is none.\<close>

definition last_dot :: "string \<Rightarrow> nat option" where
  "last_dot name =
     (if CHR ''.'' \<in> set name
      then Some (length name - Suc (length (takeWhile (\<lambda>c. c \<noteq> CHR ''.'') (rev name))))
      else None)"

definition stem :: "string \<Rightarrow> string" where
  "stem name =
     (case last_dot name of
        Some i \<Rightarrow> if 0 < i \<and> i < length name - 1 then take i name else name
      | None \<Rightarrow> name)"

definition suffix_of :: "string \<Rightarrow> string" where
  "suffix_of name =
     (case last_dot name of
        Some i \<Rightarrow> if 0 < i \<and> i < length name - 1 then drop i name else []
      | None \<Rightarrow> [])"

subsection \<open>Programs\<close>

text \<open>
  A script is a function from the world (the file system and what has been printed so
  far) to a result and the world it leaves. An exception ends the run with the world as
  it was when it was raised.
\<close>

record 'l world =
  files :: filesystem
  out :: "'l list"

type_synonym ('l, 'a) io = "'l world \<Rightarrow> (error + 'a) \<times> 'l world"

definition ret :: "'a \<Rightarrow> ('l, 'a) io" where
  "ret a w = (Inr a, w)"

definition bind_io :: "('l, 'a) io \<Rightarrow> ('a \<Rightarrow> ('l, 'b) io) \<Rightarrow> ('l, 'b) io" where
  "bind_io m f w = (case m w of (Inl e, w') \<Rightarrow> (Inl e, w') | (Inr a, w') \<Rightarrow> f a w')"

definition print :: "'l \<Rightarrow> ('l, unit) io" where
  "print l w = (Inr (), w\<lparr>out := out w @ [l]\<rparr>)"

definition io_mkdir_p :: "path \<Rightarrow> ('l, unit) io" where
  "io_mkdir_p p w =
     (case mkdir_p (files w) p of
        (None, fs') \<Rightarrow> (Inr (), w\<lparr>files := fs'\<rparr>)
      | (Some e, fs') \<Rightarrow> (Inl e, w\<lparr>files := fs'\<rparr>))"

definition io_update :: "(filesystem \<Rightarrow> error + filesystem) \<Rightarrow> ('l, unit) io" where
  "io_update f w = (case f (files w) of Inl e \<Rightarrow> (Inl e, w) | Inr fs' \<Rightarrow> (Inr (), w\<lparr>files := fs'\<rparr>))"

definition io_read :: "(filesystem \<Rightarrow> error + 'a) \<Rightarrow> ('l, 'a) io" where
  "io_read f w = (f (files w), w)"

definition io_test :: "(filesystem \<Rightarrow> bool) \<Rightarrow> ('l, bool) io" where
  "io_test f w = (Inr (f (files w)), w)"

section \<open>The master builder: \<^verbatim>\<open>build_master_from_imports.py\<close>\<close>

subsection \<open>\<^verbatim>\<open>canonicalize_slug\<close>\<close>

definition canonicalize_slug :: "string \<Rightarrow> string" where
  "canonicalize_slug raw_slug = py_replace ''_'' ''-'' (py_lower raw_slug)"

subsection \<open>\<^verbatim>\<open>TRACK_FILE_RE\<close>\<close>

text \<open>
  \<^verbatim>\<open>re.compile(r"^(\d{2})[_-](.+)\.md$", re.IGNORECASE)\<close>, used through \<^verbatim>\<open>.match\<close>.
  The matcher below follows the pattern from left to right: two digits, one separator,
  then the greedy group \<^verbatim>\<open>(.+)\<close>, which first takes as many characters as it can and
  gives them back one at a time until the rest matches \<^verbatim>\<open>\.md$\<close>. A dot does not match
  a line feed; \<^verbatim>\<open>$\<close> matches at the end of the string and just before a line feed that
  ends the string; under \<^verbatim>\<open>IGNORECASE\<close> the letters m and d match in either case.
\<close>

definition is_digit :: "char \<Rightarrow> bool" where
  "is_digit c = (48 \<le> (of_char c :: nat) \<and> (of_char c :: nat) \<le> 57)"

definition line_feed :: char where
  "line_feed = CHR 0x0A"

definition md_tail :: "string \<Rightarrow> bool" where
  "md_tail r =
     (case r of
        [p, m, d] \<Rightarrow> p = CHR ''.'' \<and> (m = CHR ''m'' \<or> m = CHR ''M'') \<and> (d = CHR ''d'' \<or> d = CHR ''D'')
      | [p, m, d, e] \<Rightarrow> p = CHR ''.'' \<and> (m = CHR ''m'' \<or> m = CHR ''M'') \<and> (d = CHR ''d'' \<or> d = CHR ''D'')
                         \<and> e = line_feed
      | _ \<Rightarrow> False)"

fun greedy_group :: "nat \<Rightarrow> string \<Rightarrow> string option" where
  "greedy_group 0 r = None"
| "greedy_group (Suc n) r =
     (if line_feed \<notin> set (take (Suc n) r) \<and> md_tail (drop (Suc n) r)
      then Some (take (Suc n) r) else greedy_group n r)"

definition TRACK_FILE_RE_match :: "string \<Rightarrow> (string \<times> string) option" where
  "TRACK_FILE_RE_match name =
     (case name of
        d1 # d2 # sep # r \<Rightarrow>
          if is_digit d1 \<and> is_digit d2 \<and> (sep = CHR ''_'' \<or> sep = CHR ''-'')
          then map_option (\<lambda>g. ([d1, d2], g)) (greedy_group (length r) r)
          else None
      | _ \<Rightarrow> None)"

text \<open>
  The text of the metadata files comes from \<^verbatim>\<open>json.dumps\<close> and \<^verbatim>\<open>str.title\<close> of the
  Python library. No property below depends on it, so the model takes the two as
  parameters: \<open>json_dumps\<close> stands for \<^verbatim>\<open>json.dumps(d, indent=2)\<close>, \<open>json_dumps_raw\<close> for
  \<^verbatim>\<open>json.dumps(d, indent=2, ensure_ascii=False)\<close> followed by the UTF-8 encoding.
\<close>

datatype json = JStr string | JInt int

record pylib =
  str_title :: "string \<Rightarrow> string"
  json_dumps :: "(string \<times> json) list \<Rightarrow> string"
  json_dumps_raw :: "(string \<times> json) list \<Rightarrow> string"

text \<open>\<^verbatim>\<open>int(s)\<close> on a string: white space around, an optional sign, decimal digits with
  single underscores between them.\<close>

definition is_space :: "char \<Rightarrow> bool" where
  "is_space c =
     (let n = (of_char c :: nat)
      in (9 \<le> n \<and> n \<le> 13) \<or> (28 \<le> n \<and> n \<le> 32) \<or> n = 133 \<or> n = 160)"

definition py_strip :: "string \<Rightarrow> string" where
  "py_strip s = rev (dropWhile is_space (rev (dropWhile is_space s)))"

fun digits_value :: "nat \<Rightarrow> bool \<Rightarrow> string \<Rightarrow> nat option" where
  "digits_value acc after_digit [] = (if after_digit then Some acc else None)"
| "digits_value acc after_digit (c # cs) =
     (if is_digit c then digits_value (acc * 10 + ((of_char c :: nat) - 48)) True cs
      else if c = CHR ''_'' \<and> after_digit then digits_value acc False cs
      else None)"

definition py_int :: "string \<Rightarrow> int option" where
  "py_int s =
     (case py_strip s of
        [] \<Rightarrow> None
      | c # cs \<Rightarrow>
          if c = CHR ''-'' then map_option (\<lambda>n. - int n) (digits_value 0 False cs)
          else if c = CHR ''+'' then map_option int (digits_value 0 False cs)
          else map_option int (digits_value 0 False (c # cs)))"

text \<open>\<^verbatim>\<open>str(path)\<close> for an absolute path.\<close>

definition path_str :: "path \<Rightarrow> string" where
  "path_str p = (if p = [] then ''/'' else concat (map (\<lambda>c. ''/'' @ c) p))"

text \<open>\<^verbatim>\<open>path.with_suffix(suffix)\<close>.\<close>

definition with_suffix :: "path \<Rightarrow> string \<Rightarrow> path" where
  "with_suffix p suf =
     (let name = last p
      in butlast p @ [take (length name - length (suffix_of name)) name @ suf])"

text \<open>
  An entry of \<^verbatim>\<open>ALBUM_SPECS\<close>. The keys \<^verbatim>\<open>sku\<close>, \<^verbatim>\<open>workspace_album\<close> and \<^verbatim>\<open>pull_album\<close>
  name one path component each; \<^verbatim>\<open>import_dir\<close> is a relative path, kept as its
  components.
\<close>

record album_spec =
  sku :: string
  album_code :: string
  import_dir :: path
  workspace_album :: string
  pull_album :: string

definition ALBUM_SPECS :: "album_spec list" where
  "ALBUM_SPECS =
    [\<lparr>sku = ''HAWK-ARS-01'', album_code = ''01_Singles'',
      import_dir = [''_imports'', ''HAWK-ARS-00'', ''01_singles''],
      workspace_album = ''01_Singles'', pull_album = ''01_Singles''\<rparr>,
     \<lparr>sku = ''HAWK-ARS-02'', album_code = ''01_Full_Disclosure'',
      import_dir = [''_imports'', ''HAWK-ARS-00'', ''02_mixtape_sessions'', ''01_full_disclosure''],
      workspace_album = ''01_Full_Disclosure'', pull_album = ''01_Full_Disclosure''\<rparr>,
     \<lparr>sku = ''HAWK-ARS-02'', album_code = ''02_Behold_A_Pale_Horse'',
      import_dir = [''_imports'', ''HAWK-ARS-00'', ''02_mixtape_sessions'', ''02_behold_a_pale_horse''],
      workspace_album = ''02_Behold_A_Pale_Horse'', pull_album = ''02_Behold_A_Pale_Horse''\<rparr>,
     \<lparr>sku = ''HAWK-ARS-02'', album_code = ''03_MiLabs'',
      import_dir = [''_imports'', ''HAWK-ARS-00'', ''02_mixtape_sessions'', ''03_milabs''],
      workspace_album = ''03_MiLabs'', pull_album = ''03_MiLabs''\<rparr>,
     \<lparr>sku = ''HAWK-ARS-03'', album_code = ''01_Malicious_EP'',
      import_dir = [''_imports'', ''HAWK-ARS-00'', ''03_phase2'', ''04_malicious''],
      workspace_album = ''01_Malicious_EP'', pull_album = ''01_Malicious_EP''\<rparr>,
     \<lparr>sku = ''HAWK-ARS-03'', album_code = ''02_Shadow_Banned'',
      import_dir = [''_imports'', ''HAWK-ARS-00'', ''03_phase2'', ''05_shadow_banned''],
      workspace_album = ''02_Shadow_Banned'', pull_album = ''02_Shadow_Banned''\<rparr>,
     \<lparr>sku = ''HAWK-ARS-04'', album_code = ''01_Sun_Tzu_Secretz_To_War'',
      import_dir = [''_imports'', ''HAWK-ARS-00'', ''04_reckoning''],
      workspace_album = ''01_Sun_Tzu_Secretz_To_War'', pull_album = ''01_Sun_Tzu_Secretz_To_War''\<rparr>]"

definition SUN_TZU_NOTEBOOK :: path where
  "SUN_TZU_NOTEBOOK = [''_imports'', ''HAWK-ARS-00'', ''04_reckoning'', ''Sun_Tzu.ipynb'']"

definition SUN_TZU_DEST :: path where
  "SUN_TZU_DEST = [''HAWK-ARS-04'', ''_workspace'', ''01_Sun_Tzu_Secretz_To_War'', ''Sun_Tzu.ipynb'']"

text \<open>What the builder prints, line by line.\<close>

datatype build_line =
    AlbumLine string string
  | WarnImportDir path
  | TrackLine string
  | WarnNotebook path
  | SpecialLine path

record track =
  track_number :: string
  raw_slug :: string
  canonical_slug :: string
  workspace_dir :: path
  lyrics_path :: path

text \<open>A \<^verbatim>\<open>for\<close> loop whose body returns nothing.\<close>

fun for_each :: "('a \<Rightarrow> ('l, unit) io) \<Rightarrow> 'a list \<Rightarrow> ('l, unit) io" where
  "for_each body [] w = (Inr (), w)"
| "for_each body (x # xs) w =
     (case body x w of
        (Inl e, w') \<Rightarrow> (Inl e, w')
      | (Inr u, w') \<Rightarrow> for_each body xs w')"

subsection \<open>\<^verbatim>\<open>apply_track_template\<close>\<close>

text \<open>The body of the loop, for one entry of the template; \<^verbatim>\<open>relative_to\<close> raises
  \<^verbatim>\<open>ValueError\<close> for a path that is not below the template root.\<close>

definition apply_template_entry :: "path \<Rightarrow> path \<Rightarrow> path \<Rightarrow> ('l, unit) io" where
  "apply_template_entry track_dir template_root template_path =
     (if \<not> prefix template_root template_path then (\<lambda>w. (Inl ValueError, w))
      else
        (let relative = drop (length template_root) template_path;
             target_path = track_dir @ relative
         in bind_io (io_test (\<lambda>fs. is_dir fs template_path)) (\<lambda>d.
              if d then io_mkdir_p target_path
              else bind_io (io_test (\<lambda>fs. path_exists fs target_path)) (\<lambda>e.
                if \<not> e then
                  bind_io (io_mkdir_p (butlast target_path)) (\<lambda>u.
                    io_update (\<lambda>fs. copy2 fs template_path target_path))
                else ret ()))))"

definition apply_track_template :: "path \<Rightarrow> path \<Rightarrow> ('l, unit) io" where
  "apply_track_template track_dir template_root =
     bind_io (io_read (\<lambda>fs. Inr (rglob_sorted fs template_root ''*''))) (\<lambda>template_paths.
       for_each (apply_template_entry track_dir template_root) template_paths)"

subsection \<open>\<^verbatim>\<open>build_workspaces_for_album\<close>\<close>

definition workspace_album_dir :: "album_spec \<Rightarrow> path \<Rightarrow> path" where
  "workspace_album_dir spec base_dir = base_dir @ [sku spec, ''_workspace'', workspace_album spec]"

definition pull_album_dir :: "album_spec \<Rightarrow> path \<Rightarrow> path" where
  "pull_album_dir spec base_dir = base_dir @ [sku spec, ''_pull-bucket'', pull_album spec]"

text \<open>The body of the loop over the import files: \<open>None\<close> is \<^verbatim>\<open>continue\<close>, \<open>Some\<close> the
  record appended to \<^verbatim>\<open>tracks\<close>.\<close>

definition build_track ::
  "pylib \<Rightarrow> album_spec \<Rightarrow> path \<Rightarrow> path \<Rightarrow> path \<Rightarrow> (build_line, track option) io" where
  "build_track lib spec base_dir template_root md_path =
     (if py_in ''-checkpoint'' (last md_path) then ret None
      else case TRACK_FILE_RE_match (last md_path) of
        None \<Rightarrow> ret None
      | Some (track_num, raw) \<Rightarrow>
          (let canonical = canonicalize_slug raw;
               folder_name = track_num @ ''_'' @ canonical;
               workspace_track_dir = workspace_album_dir spec base_dir @ [folder_name];
               lyrics_dest = workspace_track_dir @ [''data'', ''lyrics.md''];
               ipynb_source = with_suffix md_path ''.ipynb'';
               ipynb_dest = workspace_track_dir @ [track_num @ ''_'' @ canonical @ ''.ipynb''];
               metadata_path = workspace_track_dir @ [''data'', ''metadata.json'']
           in
           bind_io (io_mkdir_p workspace_track_dir) (\<lambda>u.
           bind_io (apply_track_template workspace_track_dir template_root) (\<lambda>u.
           bind_io (io_read (\<lambda>fs. read_text False fs md_path)) (\<lambda>lyrics_text.
           bind_io (io_mkdir_p (butlast lyrics_dest)) (\<lambda>u.
           bind_io (io_update (\<lambda>fs. write_text fs lyrics_dest lyrics_text)) (\<lambda>u.
           bind_io (io_test (\<lambda>fs. path_exists fs ipynb_source)) (\<lambda>e.
           bind_io (if e then io_update (\<lambda>fs. copy2 fs ipynb_source ipynb_dest) else ret ()) (\<lambda>u.
           case py_int track_num of
             None \<Rightarrow> (\<lambda>w. (Inl ValueError, w))
           | Some n \<Rightarrow>
               (let metadata =
                      [(''sku'', JStr (sku spec)),
                       (''album'', JStr (workspace_album spec)),
                       (''track_number'', JInt n),
                       (''slug'', JStr canonical),
                       (''raw_slug'', JStr raw),
                       (''title'', JStr (str_title lib (py_replace ''_'' '' '' raw)))]
                in
                bind_io (io_update (\<lambda>fs. write_text fs metadata_path (json_dumps lib metadata))) (\<lambda>u.
                ret (Some \<lparr>track_number = track_num, raw_slug = raw, canonical_slug = canonical,
                           workspace_dir = workspace_track_dir, lyrics_path = lyrics_dest\<rparr>))))))))))))"

fun build_loop ::
  "(path \<Rightarrow> (build_line, track option) io) \<Rightarrow> path list \<Rightarrow> track list \<Rightarrow> (build_line, track list) io" where
  "build_loop body [] tracks w = (Inr tracks, w)"
| "build_loop body (md_path # rest) tracks w =
     (case body md_path w of
        (Inl e, w') \<Rightarrow> (Inl e, w')
      | (Inr None, w') \<Rightarrow> build_loop body rest tracks w'
      | (Inr (Some t), w') \<Rightarrow> build_loop body rest (tracks @ [t]) w')"

definition build_workspaces_for_album ::
  "pylib \<Rightarrow> album_spec \<Rightarrow> path \<Rightarrow> path \<Rightarrow> (build_line, track list) io" where
  "build_workspaces_for_album lib spec base_dir template_root =
     bind_io (io_mkdir_p (workspace_album_dir spec base_dir)) (\<lambda>u.
     bind_io (io_mkdir_p (pull_album_dir spec base_dir)) (\<lambda>u.
     bind_io (io_test (\<lambda>fs. path_exists fs (base_dir @ import_dir spec))) (\<lambda>e.
       if \<not> e then
         bind_io (print (WarnImportDir (base_dir @ import_dir spec))) (\<lambda>u. ret [])
       else
         bind_io (io_read (\<lambda>fs. Inr (rglob_sorted fs (base_dir @ import_dir spec) ''*.md''))) (\<lambda>md_paths.
           build_loop (build_track lib spec base_dir template_root) md_paths []))))"

subsection \<open>\<^verbatim>\<open>build_pull_bucket_for_album\<close>\<close>

definition pull_metadata :: "pylib \<Rightarrow> album_spec \<Rightarrow> path \<Rightarrow> track \<Rightarrow> int \<Rightarrow> (string \<times> json) list" where
  "pull_metadata lib spec base_dir t n =
     [(''sku'', JStr (sku spec)),
      (''album'', JStr (workspace_album spec)),
      (''album_code'', JStr (album_code spec)),
      (''track_number'', JInt n),
      (''slug'', JStr (canonical_slug t)),
      (''raw_slug'', JStr (raw_slug t)),
      (''title'', JStr (str_title lib (py_replace ''_'' '' '' (raw_slug t)))),
      (''source_import'', JStr (path_str (base_dir @ import_dir spec))),
      (''workspace_track_dir'', JStr (path_str (workspace_dir t)))]"

text \<open>The body of the loop over the tracks; \<open>pull_metadata\<close> is the dictionary it builds,
  for the value \<open>n\<close> of \<^verbatim>\<open>int(track_num)\<close>, which raises \<^verbatim>\<open>ValueError\<close> when the track
  number is not a number.\<close>

definition pull_track :: "pylib \<Rightarrow> album_spec \<Rightarrow> path \<Rightarrow> track \<Rightarrow> (build_line, unit) io" where
  "pull_track lib spec base_dir t =
     (let track_num = track_number t;
          file_root = track_num @ ''_'' @ canonical_slug t;
          pull_md_path = pull_album_dir spec base_dir @ [file_root @ ''.md''];
          pull_json_path = pull_album_dir spec base_dir @ [file_root @ ''.json'']
      in
      bind_io (io_read (\<lambda>fs. read_text False fs (lyrics_path t))) (\<lambda>lyrics_text.
      bind_io (io_update (\<lambda>fs. write_text fs pull_md_path lyrics_text)) (\<lambda>u.
      case py_int track_num of
        None \<Rightarrow> (\<lambda>w. (Inl ValueError, w))
      | Some n \<Rightarrow>
          bind_io (io_update (\<lambda>fs. write_text fs pull_json_path
                                     (json_dumps lib (pull_metadata lib spec base_dir t n)))) (\<lambda>u.
            print (TrackLine file_root)))))"

definition build_pull_bucket_for_album ::
  "pylib \<Rightarrow> album_spec \<Rightarrow> path \<Rightarrow> track list \<Rightarrow> (build_line, unit) io" where
  "build_pull_bucket_for_album lib spec base_dir tracks =
     bind_io (io_mkdir_p (pull_album_dir spec base_dir)) (\<lambda>u.
       for_each (pull_track lib spec base_dir) tracks)"

subsection \<open>\<^verbatim>\<open>copy_sun_tzu_notebook\<close> and \<^verbatim>\<open>main\<close>\<close>

definition copy_sun_tzu_notebook :: "path \<Rightarrow> (build_line, unit) io" where
  "copy_sun_tzu_notebook base_dir =
     (let source = base_dir @ SUN_TZU_NOTEBOOK;
          destination = base_dir @ SUN_TZU_DEST
      in
      bind_io (io_mkdir_p (butlast destination)) (\<lambda>u.
      bind_io (io_test (\<lambda>fs. path_exists fs source)) (\<lambda>e.
        if \<not> e then print (WarnNotebook source)
        else
          bind_io (io_update (\<lambda>fs. copy2 fs source destination)) (\<lambda>u.
            print (SpecialLine destination)))))"

text \<open>The body of the loop of \<^verbatim>\<open>main\<close>, for one album, and \<^verbatim>\<open>main\<close> itself; the base
  directory is where the script is installed.\<close>

definition main_album :: "pylib \<Rightarrow> path \<Rightarrow> album_spec \<Rightarrow> (build_line, unit) io" where
  "main_album lib base_dir spec =
     bind_io (print (AlbumLine (sku spec) (workspace_album spec))) (\<lambda>u.
     bind_io (build_workspaces_for_album lib spec base_dir (base_dir @ [''_templates'', ''track''])) (\<lambda>tracks.
       build_pull_bucket_for_album lib spec base_dir tracks))"

definition main_builder :: "pylib \<Rightarrow> path \<Rightarrow> (build_line, unit) io" where
  "main_builder lib base_dir =
     bind_io (for_each (main_album lib base_dir) ALBUM_SPECS) (\<lambda>u.
       copy_sun_tzu_notebook base_dir)"

section \<open>The tree diff reporter: \<^verbatim>\<open>diff_album.py\<close>\<close>

text \<open>
  A Python set of strings is a finite set, \<^verbatim>\<open>sorted(s)\<close> its sorted list; the dictionary
  of the workspace scan is kept as the list of its items in insertion order. The report
  holds symbols outside Latin-1, so in this script a string is read as its UTF-8 bytes;
  every operation the script applies to names (cutting at a dot, removing
  \<^verbatim>\<open>-checkpoint\<close>, comparing, concatenating) gives the same on the bytes as on the code
  points.
\<close>

definition cross_mark :: string where
  "cross_mark = [CHR 0xE2, CHR 0x9D, CHR 0x8C]"

definition warning_sign :: string where
  "warning_sign = [CHR 0xE2, CHR 0x9A, CHR 0xA0, CHR 0xEF, CHR 0xB8, CHR 0x8F]"

definition check_mark :: string where
  "check_mark = [CHR 0xE2, CHR 0x9C, CHR 0x85]"

definition em_dash :: string where
  "em_dash = [CHR 0xE2, CHR 0x80, CHR 0x94]"

text \<open>\<^verbatim>\<open>sep.join(xs)\<close>.\<close>

definition py_join :: "string \<Rightarrow> string list \<Rightarrow> string" where
  "py_join sep xs = (case xs of [] \<Rightarrow> [] | x # r \<Rightarrow> x @ concat (map (\<lambda>y. sep @ y) r))"

definition list_tracks :: "filesystem \<Rightarrow> path \<Rightarrow> error + (string \<times> path) list" where
  "list_tracks fs base =
     (if \<not> path_exists fs base then Inr []
      else case iterdir_sorted fs base of
        Inl e \<Rightarrow> Inl e
      | Inr items \<Rightarrow>
          Inr (map (\<lambda>item. (last item, item))
                 (filter (\<lambda>item. is_dir fs item \<and> path_exists fs (item @ [''data'', ''lyrics.md''])) items)))"

definition load_import_tracks :: "filesystem \<Rightarrow> path \<Rightarrow> error + string fset" where
  "load_import_tracks fs import_root =
     (if \<not> path_exists fs import_root then Inr {||}
      else case iterdir_sorted fs import_root of
        Inl e \<Rightarrow> Inl e
      | Inr items \<Rightarrow>
          Inr (fset_of_list
                 (map (\<lambda>f. py_replace ''-checkpoint'' [] (stem (last f)))
                    (filter (\<lambda>f. suffix_of (last f) \<in> set [''.ipynb'', ''.md'']) items))))"

definition list_pullbucket_tracks :: "filesystem \<Rightarrow> path \<Rightarrow> error + string fset" where
  "list_pullbucket_tracks fs pb_base =
     (if \<not> path_exists fs pb_base then Inr {||}
      else case iterdir_sorted fs pb_base of
        Inl e \<Rightarrow> Inl e
      | Inr items \<Rightarrow>
          Inr (fset_of_list
                 (map (\<lambda>f. py_replace ''-checkpoint'' [] (stem (last f)))
                    (filter (\<lambda>f. suffix_of (last f) \<in> set [''.json'', ''.md'']) items))))"

text \<open>One of the four blocks of \<^verbatim>\<open>diff\<close> that list a set of tracks: nothing for the empty
  set, else the header, one line for each track in sorted order, and an empty line, all
  appended to the report.\<close>

definition append_section :: "string list \<Rightarrow> string \<Rightarrow> string fset \<Rightarrow> string list" where
  "append_section report header ts =
     (if ts \<noteq> {||}
      then foldl (\<lambda>r t. r @ [''   - '' @ t]) (report @ [header]) (sorted_list_of_fset ts) @ [[]]
      else report)"

text \<open>The body of the loop of the per-track file check.\<close>

definition append_track_check ::
  "filesystem \<Rightarrow> (string \<times> path) list \<Rightarrow> string list \<Rightarrow> string \<Rightarrow> string list" where
  "append_track_check fs workspace_dict report t =
     (case map_of workspace_dict t of
        None \<Rightarrow> report
      | Some ws \<Rightarrow>
          (let lyr = ws @ [''data'', ''lyrics.md''];
               meta = ws @ [''data'', ''metadata.json''];
               ipynb = ws @ [t @ ''.ipynb'']
           in if \<not> path_exists fs lyr \<or> \<not> path_exists fs meta \<or> \<not> path_exists fs ipynb then
                (let r1 = report @ [warning_sign @ '' Incomplete WORKSPACE for '' @ t @ '':''];
                     r2 = (if \<not> path_exists fs lyr then r1 @ [''   - missing lyrics.md''] else r1);
                     r3 = (if \<not> path_exists fs meta then r2 @ [''   - missing metadata.json''] else r2);
                     r4 = (if \<not> path_exists fs ipynb then r3 @ [''   - missing '' @ t @ ''.ipynb''] else r3)
                 in r4 @ [[]])
              else report))"

definition diff_report ::
  "filesystem \<Rightarrow> string fset \<Rightarrow> (string \<times> path) list \<Rightarrow> string fset \<Rightarrow> string list" where
  "diff_report fs import_set workspace_dict pullbucket_set =
     (let work_set = fset_of_list (map fst workspace_dict);
          r0 = [];
          missing_ws = import_set |-| work_set;
          r1 = append_section r0 (cross_mark @ '' Missing in WORKSPACE:'') missing_ws;
          missing_pb = import_set |-| pullbucket_set;
          r2 = append_section r1 (cross_mark @ '' Missing in PULL-BUCKET:'') missing_pb;
          extra_ws = work_set |-| import_set;
          r3 = append_section r2 (warning_sign @ '' Extra tracks in WORKSPACE (not in imports):'') extra_ws;
          extra_pb = pullbucket_set |-| import_set;
          r4 = append_section r3 (warning_sign @ '' Extra tracks in PULL-BUCKET (not in imports):'') extra_pb;
          r5 = foldl (append_track_check fs workspace_dict) r4 (sorted_list_of_fset import_set)
      in if r5 = []
         then [check_mark @ '' No differences found '' @ em_dash @ '' album is clean.'' @ [CHR 0x0A]]
         else r5)"

definition diff :: "filesystem \<Rightarrow> string fset \<Rightarrow> (string \<times> path) list \<Rightarrow> string fset \<Rightarrow> string" where
  "diff fs import_set workspace_dict pullbucket_set =
     py_join [CHR 0x0A] (diff_report fs import_set workspace_dict pullbucket_set)"

text \<open>\<^verbatim>\<open>main\<close>, for the working directory \<open>root\<close> and the two arguments: the lines it
  prints, or the exception of a scan.\<close>

definition diff_main :: "filesystem \<Rightarrow> path \<Rightarrow> string \<Rightarrow> string \<Rightarrow> error + string list" where
  "diff_main fs root sku_arg album_arg =
     (let import_root = root @ [''_imports'', sku_arg, album_arg];
          workspace_root = root @ [sku_arg, ''_workspace'', album_arg];
          pullbucket_root = root @ [sku_arg, ''_pull-bucket'', album_arg];
          header = [''[IMPORT ROOT] '' @ path_str import_root,
                    ''[WORKSPACE]   '' @ path_str workspace_root,
                    ''[PULL-BUCKET] '' @ path_str pullbucket_root @ [CHR 0x0A, CHR 0x0A]]
      in case load_import_tracks fs import_root of
           Inl e \<Rightarrow> Inl e
         | Inr import_tracks \<Rightarrow>
             (case list_tracks fs workspace_root of
                Inl e \<Rightarrow> Inl e
              | Inr workspace_tracks \<Rightarrow>
                  (case list_pullbucket_tracks fs pullbucket_root of
                     Inl e \<Rightarrow> Inl e
                   | Inr pullbucket_tracks \<Rightarrow>
                       Inr (header @ [diff fs import_tracks workspace_tracks pullbucket_tracks]))))"

section \<open>The lyrics sync tool: \<^verbatim>\<open>sync_lyrics_from_imports.py\<close>\<close>

text \<open>An entry of \<^verbatim>\<open>ALBUMS\<close>; \<^verbatim>\<open>sku\<close> and \<^verbatim>\<open>ws_album\<close> name one path component each,
  \<^verbatim>\<open>import_subdir\<close> is kept as its components. \<open>base\<close> stands for \<^verbatim>\<open>BASE\<close>, the directory
  above the one of the script.\<close>

record album_def =
  def_name :: string
  def_sku :: string
  ws_album :: string
  import_subdir :: path

definition ALBUMS :: "album_def list" where
  "ALBUMS =
    [\<lparr>def_name = ''Singles'', def_sku = ''HAWK-ARS-01'', ws_album = ''01_Singles'',
      import_subdir = [''01_singles'']\<rparr>,
     \<lparr>def_name = ''Full Disclosure'', def_sku = ''HAWK-ARS-02'', ws_album = ''01_Full_Disclosure'',
      import_subdir = [''02_mixtape_sessions'', ''01_full_disclosure'']\<rparr>,
     \<lparr>def_name = ''Behold A Pale Horse'', def_sku = ''HAWK-ARS-02'', ws_album = ''02_Behold_A_Pale_Horse'',
      import_subdir = [''02_mixtape_sessions'', ''02_behold_a_pale_horse'']\<rparr>,
     \<lparr>def_name = ''MiLabs'', def_sku = ''HAWK-ARS-02'', ws_album = ''03_MiLabs'',
      import_subdir = [''02_mixtape_sessions'', ''03_milabs'']\<rparr>,
     \<lparr>def_name = ''Malicious EP'', def_sku = ''HAWK-ARS-03'', ws_album = ''01_Malicious_EP'',
      import_subdir = [''03_phase2'', ''04_malicious'']\<rparr>,
     \<lparr>def_name = ''Shadow Banned'', def_sku = ''HAWK-ARS-03'', ws_album = ''02_Shadow_Banned'',
      import_subdir = [''03_phase2'', ''05_shadow_banned'']\<rparr>]"

definition IMPORT_ROOT :: "path \<Rightarrow> path" where
  "IMPORT_ROOT base = base @ [''_imports'', ''HAWK-ARS-00'']"

text \<open>\<^verbatim>\<open>sorted(d.glob(pat))\<close> as the script calls it: pathlib (up to Python 3.12) refuses a
  pattern component that contains \<^verbatim>\<open>**\<close> without being \<^verbatim>\<open>**\<close>.\<close>

definition py_glob :: "filesystem \<Rightarrow> path \<Rightarrow> string \<Rightarrow> error + path list" where
  "py_glob fs d pat = (if py_in ''**'' pat then Inl ValueError else Inr (glob_sorted fs d pat))"

definition choose_import_md :: "filesystem \<Rightarrow> path \<Rightarrow> string \<Rightarrow> error + path option" where
  "choose_import_md fs import_dir' track_folder_name =
     (let prefix = takeWhile (\<lambda>c. c \<noteq> CHR ''_'') track_folder_name
      in case py_glob fs import_dir' (prefix @ ''_*.md'') of
           Inl e \<Rightarrow> Inl e
         | Inr first \<Rightarrow>
             (case (if first = [] then py_glob fs import_dir' (prefix @ ''*.md'') else Inr first) of
                Inl e \<Rightarrow> Inl e
              | Inr candidates \<Rightarrow>
                  if candidates = [] then Inr None
                  else
                    (let non_web = filter (\<lambda>c. \<not> py_endswith (stem (last c)) ''_web'') candidates
                     in if non_web \<noteq> [] then Inr (Some (hd non_web))
                        else Inr (Some (hd candidates)))))"

text \<open>What the tool prints; the lines printed for one track are kept as one entry.\<close>

datatype sync_line =
    AlbumHeader string string
  | WorkspaceLine path
  | ImportsLine path
  | WarnWorkspaceMissing
  | WarnImportMissing
  | SkipLine string
  | MissLine string
  | DryLine string path path path path
  | OkLine string string path path

text \<open>\<^verbatim>\<open>str(p.relative_to(base))\<close> for a path below \<open>base\<close>.\<close>

definition rel_str :: "path \<Rightarrow> path \<Rightarrow> string" where
  "rel_str base p = py_join ''/'' (drop (length base) p)"

text \<open>The body of the loop over the entries of the workspace album; \<open>sync_write\<close> is its
  last part, what a run that is not a dry run does once the import file is chosen and
  read and the \<^verbatim>\<open>data\<close> directory is made.\<close>

definition sync_write ::
  "pylib \<Rightarrow> path \<Rightarrow> album_def \<Rightarrow> path \<Rightarrow> path \<Rightarrow> string \<Rightarrow> (sync_line, unit) io" where
  "sync_write lib base album track_dir import_md lyrics =
     (let pb_album = base @ [def_sku album, ''_pull-bucket'', ws_album album];
          name = last track_dir;
          data_dir = track_dir @ [''data''];
          ws_lyrics = data_dir @ [''lyrics.md''];
          pb_lyrics = pb_album @ [name @ ''.md''];
          pb_meta = pb_album @ [name @ ''.json'']
      in
      bind_io (io_update (\<lambda>fs. write_text fs ws_lyrics lyrics)) (\<lambda>u.
      bind_io (io_update (\<lambda>fs. write_text fs pb_lyrics lyrics)) (\<lambda>u.
        (let meta =
               [(''sku'', JStr (def_sku album)),
                (''album'', JStr (def_name album)),
                (''album_dir'', JStr (ws_album album)),
                (''track_folder'', JStr name),
                (''source_import_md'', JStr (rel_str base import_md))]
         in
         bind_io (io_update (\<lambda>fs. write_text fs pb_meta (json_dumps_raw lib meta))) (\<lambda>u.
           print (OkLine name (last import_md) (drop (length base) ws_lyrics)
                    (drop (length base) pb_lyrics)))))))"

definition sync_track ::
  "pylib \<Rightarrow> path \<Rightarrow> album_def \<Rightarrow> bool \<Rightarrow> path \<Rightarrow> (sync_line, unit) io" where
  "sync_track lib base album dry_run track_dir =
     (let pb_album = base @ [def_sku album, ''_pull-bucket'', ws_album album];
          import_dir' = IMPORT_ROOT base @ import_subdir album;
          name = last track_dir
      in
      bind_io (io_test (\<lambda>fs. is_dir fs track_dir)) (\<lambda>d.
        if \<not> d then ret ()
        else if py_in ''checkpoint'' name then print (SkipLine name)
        else
          bind_io (io_read (\<lambda>fs. choose_import_md fs import_dir' name)) (\<lambda>chosen.
            case chosen of
              None \<Rightarrow> print (MissLine name)
            | Some import_md \<Rightarrow>
                bind_io (io_read (\<lambda>fs. read_text True fs import_md)) (\<lambda>lyrics.
                  (let data_dir = track_dir @ [''data''];
                       ws_lyrics = data_dir @ [''lyrics.md''];
                       pb_lyrics = pb_album @ [name @ ''.md''];
                       pb_meta = pb_album @ [name @ ''.json'']
                   in
                   bind_io (io_mkdir_p data_dir) (\<lambda>u.
                     if dry_run then print (DryLine name import_md ws_lyrics pb_lyrics pb_meta)
                     else sync_write lib base album track_dir import_md lyrics))))))"

definition sync_album :: "pylib \<Rightarrow> path \<Rightarrow> album_def \<Rightarrow> bool \<Rightarrow> (sync_line, unit) io" where
  "sync_album lib base album dry_run =
     (let ws_dir = base @ [def_sku album, ''_workspace'', ws_album album];
          pb_album = base @ [def_sku album, ''_pull-bucket'', ws_album album];
          import_dir' = IMPORT_ROOT base @ import_subdir album
      in
      bind_io (print (AlbumHeader (def_sku album) (def_name album))) (\<lambda>u.
      bind_io (print (WorkspaceLine ws_dir)) (\<lambda>u.
      bind_io (print (ImportsLine import_dir')) (\<lambda>u.
      bind_io (io_test (\<lambda>fs. path_exists fs ws_dir)) (\<lambda>e.
        if \<not> e then print WarnWorkspaceMissing
        else
          bind_io (io_test (\<lambda>fs. path_exists fs import_dir')) (\<lambda>e.
            if \<not> e then print WarnImportMissing
            else
              bind_io (io_mkdir_p pb_album) (\<lambda>u.
              bind_io (io_read (\<lambda>fs. iterdir_sorted fs ws_dir)) (\<lambda>track_dirs.
                for_each (sync_track lib base album dry_run) track_dirs))))))))"

definition sync_main :: "pylib \<Rightarrow> path \<Rightarrow> bool \<Rightarrow> (sync_line, unit) io" where
  "sync_main lib base dry_run = for_each (\<lambda>album. sync_album lib base album dry_run) ALBUMS"

section \<open>Auxiliary notions for the proofs\<close>

text \<open>Between two file systems only directories were added, all of them on the way to
  the path \<open>p\<close>.\<close>

definition adds_dirs :: "path \<Rightarrow> filesystem \<Rightarrow> filesystem \<Rightarrow> bool" where
  "adds_dirs p fs fs' = (\<forall>q. lookup fs' q \<noteq> lookup fs q \<longrightarrow>
      lookup fs q = None \<and> lookup fs' q = Some Dir \<and> prefix q p \<and> q \<noteq> [])"

text \<open>Between two file systems nothing that existed was touched, and every new entry is
  a directory or a regular file below \<open>track_dir\<close> holding what the file at the same
  relative path below \<open>template_root\<close> held at the start.\<close>

definition template_only :: "path \<Rightarrow> path \<Rightarrow> filesystem \<Rightarrow> filesystem \<Rightarrow> bool" where
  "template_only track_dir template_root fs0 fs =
     (\<forall>q. lookup fs q \<noteq> lookup fs0 q \<longrightarrow>
        lookup fs0 q = None \<and>
        (lookup fs q = Some Dir \<or>
         (\<exists>rel c. q = track_dir @ rel \<and> lookup fs q = Some (File c)
                  \<and> lookup fs0 (template_root @ rel) = Some (File c))))"

text \<open>The files the album builder is to work on: the name has no \<^verbatim>\<open>-checkpoint\<close> in it and
  matches the pattern. \<open>selected_tracks\<close> lists, for the paths of a listing, the two groups
  of the match of each such file, in order.\<close>

definition is_track_file :: "string \<Rightarrow> bool" where
  "is_track_file name = (\<not> py_in ''-checkpoint'' name \<and> TRACK_FILE_RE_match name \<noteq> None)"

definition track_key :: "track \<Rightarrow> string \<times> string" where
  "track_key t = (track_number t, raw_slug t)"

definition selected_tracks :: "path list \<Rightarrow> (string \<times> string) list" where
  "selected_tracks md_paths =
     map (\<lambda>p. the (TRACK_FILE_RE_match (last p))) (filter (\<lambda>p. is_track_file (last p)) md_paths)"

text \<open>What one block of the report lists for a set of tracks, and what the file check
  reports for one track, as lists of lines.\<close>

definition listing :: "string \<Rightarrow> string fset \<Rightarrow> string list" where
  "listing header ts =
     (if ts = {||} then [] else header # map (\<lambda>t. ''   - '' @ t) (sorted_list_of_fset ts) @ [[]])"

definition track_findings :: "filesystem \<Rightarrow> (string \<times> path) list \<Rightarrow> string \<Rightarrow> string list" where
  "track_findings fs workspace_dict t =
     (case map_of workspace_dict t of
        None \<Rightarrow> []
      | Some ws \<Rightarrow>
          if path_exists fs (ws @ [''data'', ''lyrics.md''])
             \<and> path_exists fs (ws @ [''data'', ''metadata.json''])
             \<and> path_exists fs (ws @ [t @ ''.ipynb''])
          then []
          else [warning_sign @ '' Incomplete WORKSPACE for '' @ t @ '':'']
               @ (if path_exists fs (ws @ [''data'', ''lyrics.md'']) then [] else [''   - missing lyrics.md''])
               @ (if path_exists fs (ws @ [''data'', ''metadata.json'']) then [] else [''   - missing metadata.json''])
               @ (if path_exists fs (ws @ [t @ ''.ipynb'']) then [] else [''   - missing '' @ t @ ''.ipynb''])
               @ [[]])"



text \<open>No regular file stands at the path or at one of its ancestors, so that the
  directory can be made.\<close>

definition no_file_on :: "filesystem \<Rightarrow> path \<Rightarrow> bool" where
  "no_file_on fs p =
     list_all (\<lambda>q. case lookup fs q of Some (File b) \<Rightarrow> False | _ \<Rightarrow> True) (prefixes p)"

text \<open>Between two file systems nothing differs but directories that were added.\<close>

definition only_dirs_added :: "filesystem \<Rightarrow> filesystem \<Rightarrow> bool" where
  "only_dirs_added fs fs' =
     (\<forall>q. lookup fs' q \<noteq> lookup fs q \<longrightarrow> lookup fs q = None \<and> lookup fs' q = Some Dir)"

text \<open>The two files the pull-bucket builder writes for a track, and the shape of the
  records the album builder returns: the workspace directory is named after the track
  number and the canonical slug, the lyrics are at \<^verbatim>\<open>data/lyrics.md\<close> in it, and the track
  number is a number.\<close>

definition pull_md_path :: "album_spec \<Rightarrow> path \<Rightarrow> track \<Rightarrow> path" where
  "pull_md_path spec base_dir t =
     pull_album_dir spec base_dir @ [track_number t @ ''_'' @ canonical_slug t @ ''.md'']"

definition pull_json_path :: "album_spec \<Rightarrow> path \<Rightarrow> track \<Rightarrow> path" where
  "pull_json_path spec base_dir t =
     pull_album_dir spec base_dir @ [track_number t @ ''_'' @ canonical_slug t @ ''.json'']"

definition builder_record :: "album_spec \<Rightarrow> path \<Rightarrow> track \<Rightarrow> bool" where
  "builder_record spec base_dir t =
     (workspace_dir t = workspace_album_dir spec base_dir @ [track_number t @ ''_'' @ canonical_slug t]
      \<and> lyrics_path t = workspace_dir t @ [''data'', ''lyrics.md'']
      \<and> py_int (track_number t) \<noteq> None)"

section \<open>Example trees\<close>

text \<open>A stand-in for the library functions that render the metadata, and an import tree
  with one track file, one autosave copy of a track file and two other files.\<close>

definition example_lib :: pylib where
  "example_lib = \<lparr>str_title = (\<lambda>s. s), json_dumps = (\<lambda>d. ''{}''), json_dumps_raw = (\<lambda>d. ''{}'')\<rparr>"

definition example_imports :: filesystem where
  "example_imports =
    [([''_imports''], Dir),
     ([''_imports'', ''HAWK-ARS-00''], Dir),
     ([''_imports'', ''HAWK-ARS-00'', ''01_singles''], Dir),
     ([''_imports'', ''HAWK-ARS-00'', ''01_singles'', ''05_return_of_kings.md''], File ''lyrics of kings''),
     ([''_imports'', ''HAWK-ARS-00'', ''01_singles'', ''05_foo-checkpoint.md''], File ''autosave''),
     ([''_imports'', ''HAWK-ARS-00'', ''01_singles'', ''checkpoint.md''], File ''x''),
     ([''_imports'', ''HAWK-ARS-00'', ''01_singles'', ''notes.txt''], File ''y'')]"

text \<open>A tree for the diff reporter with the import, workspace and pull-bucket sets of the
  specification's example, where the workspace of \<^verbatim>\<open>01_a\<close> has its lyrics only; and the
  same tree with the metadata and the notebook added.\<close>

definition diff_tree_incomplete :: filesystem where
  "diff_tree_incomplete =
    [([''_imports''], Dir), ([''_imports'', ''S''], Dir), ([''_imports'', ''S'', ''A''], Dir),
     ([''_imports'', ''S'', ''A'', ''01_a.md''], File ''la''),
     ([''_imports'', ''S'', ''A'', ''02_b.md''], File ''lb''),
     ([''S''], Dir), ([''S'', ''_workspace''], Dir), ([''S'', ''_workspace'', ''A''], Dir),
     ([''S'', ''_workspace'', ''A'', ''01_a''], Dir),
     ([''S'', ''_workspace'', ''A'', ''01_a'', ''data''], Dir),
     ([''S'', ''_workspace'', ''A'', ''01_a'', ''data'', ''lyrics.md''], File ''la''),
     ([''S'', ''_pull-bucket''], Dir), ([''S'', ''_pull-bucket'', ''A''], Dir),
     ([''S'', ''_pull-bucket'', ''A'', ''01_a.md''], File ''la''),
     ([''S'', ''_pull-bucket'', ''A'', ''02_b.md''], File ''lb''),
     ([''S'', ''_pull-bucket'', ''A'', ''03_c.md''], File ''lc'')]"

definition diff_tree_complete :: filesystem where
  "diff_tree_complete =
     ([''S'', ''_workspace'', ''A'', ''01_a'', ''data'', ''metadata.json''], File ''{}'')
     # ([''S'', ''_workspace'', ''A'', ''01_a'', ''01_a.ipynb''], File ''nb'')
     # diff_tree_incomplete"


text \<open>A checkout without the notebook of the special case, and one with the notebook
  and an older copy at its destination.\<close>

definition notebook_tree_absent :: filesystem where
  "notebook_tree_absent = [([''repo''], Dir)]"


text \<open>An import tree whose only file has its extension in capitals.\<close>

definition upper_case_imports :: filesystem where
  "upper_case_imports =
    [([''_imports''], Dir),
     ([''_imports'', ''HAWK-ARS-00''], Dir),
     ([''_imports'', ''HAWK-ARS-00'', ''01_singles''], Dir),
     ([''_imports'', ''HAWK-ARS-00'', ''01_singles'', ''05_SONG.MD''], File ''lyrics of a song'')]"

text \<open>The record of the track of the import tree above, the tree the album builder leaves
  for it, and that tree after the lyrics of the track were replaced on disk: by a text
  with a Windows line end, and by a byte that is not UTF-8.\<close>

definition kings_track :: track where
  "kings_track =
     \<lparr>track_number = ''05'', raw_slug = ''return_of_kings'', canonical_slug = ''return-of-kings'',
      workspace_dir = [''HAWK-ARS-01'', ''_workspace'', ''01_Singles'', ''05_return-of-kings''],
      lyrics_path = [''HAWK-ARS-01'', ''_workspace'', ''01_Singles'', ''05_return-of-kings'',
                     ''data'', ''lyrics.md'']\<rparr>"

definition built_workspace :: filesystem where
  "built_workspace =
     files (snd (build_workspaces_for_album example_lib (hd ALBUM_SPECS) [] [''_templates'', ''track'']
                   \<lparr>files = example_imports, out = []\<rparr>))"

definition edited_workspace :: filesystem where
  "edited_workspace =
     fs_update (lyrics_path kings_track) (File [CHR ''a'', CHR 0x0D, CHR 0x0A, CHR ''b'']) built_workspace"

definition damaged_workspace :: filesystem where
  "damaged_workspace = fs_update (lyrics_path kings_track) (File [CHR 0xFF]) built_workspace"

section \<open>Properties\<close>

subsection \<open>Slug canonicalisation\<close>

lemma py_replace_char:
  "py_replace [a] [b] s = map (\<lambda>c. if c = a then b else c) s"
  by (induction s) auto

lemma py_lower_char_idem: "py_lower_char (py_lower_char c) = py_lower_char c"
  by (auto simp: py_lower_char_def Let_def)

lemma py_lower_char_underscore: "py_lower_char c = CHR ''_'' \<longleftrightarrow> c = CHR ''_''"
proof
  assume h: "py_lower_char c = CHR ''_''"
  show "c = CHR ''_''"
  proof (rule ccontr)
    assume n: "c \<noteq> CHR ''_''"
    with h have u: "(65 \<le> (of_char c :: nat) \<and> (of_char c :: nat) \<le> 90) \<or>
        (192 \<le> (of_char c :: nat) \<and> (of_char c :: nat) \<le> 222 \<and> (of_char c :: nat) \<noteq> 215)"
      and e: "char_of ((of_char c :: nat) + 32) = CHR ''_''"
      by (auto simp: py_lower_char_def Let_def split: if_splits)
    from e have "(of_char (char_of ((of_char c :: nat) + 32)) :: nat) = of_char CHR ''_''"
      by simp
    with u show False by auto
  qed
next
  assume "c = CHR ''_''"
  then show "py_lower_char c = CHR ''_''" by (simp add: py_lower_char_def)
qed

lemma canonicalize_slug_map:
  "canonicalize_slug s = map (\<lambda>c. if c = CHR ''_'' then CHR ''-'' else py_lower_char c) s"
  by (simp add: canonicalize_slug_def py_lower_def py_replace_char py_lower_char_underscore)

lemma py_lower_char_hyphen: "py_lower_char CHR ''-'' = CHR ''-''"
  by (simp add: py_lower_char_def)

text \<open>
  C3. \<^verbatim>\<open>canonicalize_slug\<close> lowercases every character and turns every underscore into
  a hyphen, position by position and changing nothing else (the result has the length of
  the input; a character that is neither an underscore nor changed by lowercasing is
  kept); applying it twice gives the same as applying it once; and
  \<^verbatim>\<open>canonicalize_slug("My_Song") = "my-song"\<close>. Being a HOL function of its argument
  alone it is pure and deterministic.
\<close>

theorem canonicalize_slug_spec:
  "canonicalize_slug (canonicalize_slug s) = canonicalize_slug s
   \<and> length (canonicalize_slug s) = length s
   \<and> (\<forall>i < length s. canonicalize_slug s ! i =
         (if s ! i = CHR ''_'' then CHR ''-'' else py_lower_char (s ! i)))
   \<and> (\<forall>i < length s. s ! i \<noteq> CHR ''_'' \<and> py_lower_char (s ! i) = s ! i
         \<longrightarrow> canonicalize_slug s ! i = s ! i)
   \<and> canonicalize_slug ''My_Song'' = ''my-song''"
proof -
  have pt: "\<And>c. (if (if c = CHR ''_'' then CHR ''-'' else py_lower_char c) = CHR ''_'' then CHR ''-''
                else py_lower_char (if c = CHR ''_'' then CHR ''-'' else py_lower_char c))
              = (if c = CHR ''_'' then CHR ''-'' else py_lower_char c)"
    by (simp add: py_lower_char_idem py_lower_char_hyphen py_lower_char_underscore)
  have idem: "canonicalize_slug (canonicalize_slug s) = canonicalize_slug s"
    by (simp add: canonicalize_slug_map pt)
  have ex: "canonicalize_slug ''My_Song'' = ''my-song''"
    by code_simp
  show ?thesis
    using idem ex by (simp add: canonicalize_slug_map)
qed

theorem canonicalize_slug_spec_witness:
  "canonicalize_slug (canonicalize_slug ''Return_Of_Kings'') = ''return-of-kings''
   \<and> canonicalize_slug ''Return_Of_Kings'' ! 6 = CHR ''-''
   \<and> canonicalize_slug ''Return_Of_Kings'' ! 1 = CHR ''e''"
proof -
  have v: "canonicalize_slug ''Return_Of_Kings'' = ''return-of-kings''"
    by code_simp
  have l: "(6::nat) < length ''Return_Of_Kings''" "(1::nat) < length ''Return_Of_Kings''"
    by simp_all
  from canonicalize_slug_spec [of "''Return_Of_Kings''"] v l show ?thesis
    by simp
qed

subsection \<open>Directories and the template\<close>

lemma lookup_fs_update: "lookup (fs_update p n fs) q = (if q = p then Some n else lookup fs q)"
  by (induction fs) (auto simp: lookup_def fs_update_def)

lemma adds_dirs_refl: "adds_dirs p fs fs" by (simp add: adds_dirs_def)

lemma adds_dirs_trans:
  assumes "adds_dirs p a b" and "adds_dirs p b c"
  shows "adds_dirs p a c"
  unfolding adds_dirs_def
proof (intro allI impI)
  fix q
  assume d: "lookup c q \<noteq> lookup a q"
  show "lookup a q = None \<and> lookup c q = Some Dir \<and> prefix q p \<and> q \<noteq> []"
  proof (cases "lookup b q = lookup a q")
    case True
    with d have n: "lookup c q \<noteq> lookup b q" by simp
    from assms(2) have "lookup c q \<noteq> lookup b q \<longrightarrow>
        lookup b q = None \<and> lookup c q = Some Dir \<and> prefix q p \<and> q \<noteq> []"
      unfolding adds_dirs_def by (rule spec)
    with n True show ?thesis by simp
  next
    case False
    moreover from assms(1) have "lookup b q \<noteq> lookup a q \<longrightarrow>
        lookup a q = None \<and> lookup b q = Some Dir \<and> prefix q p \<and> q \<noteq> []"
      unfolding adds_dirs_def by (rule spec)
    ultimately have ab: "lookup a q = None" "lookup b q = Some Dir" "prefix q p" "q \<noteq> []"
      by simp_all
    show ?thesis
    proof (cases "lookup c q = lookup b q")
      case True
      with ab show ?thesis by simp
    next
      case False
      moreover from assms(2) have "lookup c q \<noteq> lookup b q \<longrightarrow>
          lookup b q = None \<and> lookup c q = Some Dir \<and> prefix q p \<and> q \<noteq> []"
        unfolding adds_dirs_def by (rule spec)
      ultimately have "lookup b q = None" by simp
      with ab show ?thesis by simp
    qed
  qed
qed

lemma adds_dirs_mono: "adds_dirs p a b \<Longrightarrow> prefix p p' \<Longrightarrow> adds_dirs p' a b"
  unfolding adds_dirs_def by (blast intro: prefix_order.trans)

lemma os_mkdir_adds: "os_mkdir fs p = Inr fs' \<Longrightarrow> adds_dirs p fs fs'"
  by (auto simp: os_mkdir_def adds_dirs_def lookup_fs_update split: if_splits option.splits)

lemma mkdir_exist_ok_adds: "adds_dirs p fs (snd (mkdir_exist_ok fs p))"
  by (auto simp: mkdir_exist_ok_def adds_dirs_refl os_mkdir_adds split: sum.splits)

lemma mkdir_p_adds: "adds_dirs p fs (snd (mkdir_p fs p))"
proof (induction fs p rule: mkdir_p.induct)
  case (1 fs p)
  show ?case
  proof (cases "os_mkdir fs p")
    case (Inr fs')
    then show ?thesis by (simp add: mkdir_p.simps [of fs p] os_mkdir_adds)
  next
    case (Inl e)
    show ?thesis
    proof (cases "e = FileNotFoundError")
      case False
      with Inl show ?thesis by (simp add: mkdir_p.simps [of fs p] adds_dirs_refl)
    next
      case True
      show ?thesis
      proof (cases p)
        case Nil
        with Inl True show ?thesis by (simp add: mkdir_p.simps [of fs "[]"] adds_dirs_refl)
      next
        case (Cons n ns)
        obtain r fs1 where m: "mkdir_p fs (butlast (n # ns)) = (r, fs1)" by force
        from "1.IH" [OF Inl True Cons] m have a: "adds_dirs (butlast p) fs fs1"
          using Cons by simp
        have pp: "prefix (butlast p) p" by (simp add: prefixeq_butlast)
        from a pp have a': "adds_dirs p fs fs1" by (rule adds_dirs_mono)
        have e: "mkdir_p fs p = (case r of Some e' \<Rightarrow> (Some e', fs1) | None \<Rightarrow> mkdir_exist_ok fs1 p)"
          using Inl True m unfolding Cons by (simp add: mkdir_p.simps [of fs "n # ns"])
        show ?thesis
        proof (cases r)
          case (Some e')
          with e a' show ?thesis by simp
        next
          case None
          have "adds_dirs p fs1 (snd (mkdir_exist_ok fs1 p))" by (rule mkdir_exist_ok_adds)
          with a' have "adds_dirs p fs (snd (mkdir_exist_ok fs1 p))"
            by (rule adds_dirs_trans)
          with e None show ?thesis by simp
        qed
      qed
    qed
  qed
qed

lemma template_only_refl: "template_only td tr fs fs"
  by (simp add: template_only_def)

lemma template_only_keeps:
  assumes "template_only td tr fs0 fs" and "lookup fs0 q \<noteq> None"
  shows "lookup fs q = lookup fs0 q"
proof (rule ccontr)
  assume "lookup fs q \<noteq> lookup fs0 q"
  moreover from assms(1) have "lookup fs q \<noteq> lookup fs0 q \<longrightarrow> lookup fs0 q = None \<and>
        (lookup fs q = Some Dir \<or>
         (\<exists>rel c. q = td @ rel \<and> lookup fs q = Some (File c)
                  \<and> lookup fs0 (tr @ rel) = Some (File c)))"
    unfolding template_only_def by (rule spec)
  ultimately show False using assms(2) by simp
qed

lemma adds_dirs_at:
  "adds_dirs p fs fs' \<Longrightarrow> lookup fs' q \<noteq> lookup fs q \<Longrightarrow>
     lookup fs q = None \<and> lookup fs' q = Some Dir \<and> prefix q p \<and> q \<noteq> []"
  unfolding adds_dirs_def by (drule spec [of _ q]) simp

lemma adds_dirs_keeps:
  "adds_dirs p fs fs' \<Longrightarrow> lookup fs q \<noteq> None \<Longrightarrow> lookup fs' q = lookup fs q"
  using adds_dirs_at [of p fs fs' q] by (cases "lookup fs' q = lookup fs q") simp_all

lemma template_only_adds_dirs:
  assumes i: "template_only td tr fs0 fs" and a: "adds_dirs p fs fs'"
  shows "template_only td tr fs0 fs'"
  unfolding template_only_def
proof (intro allI impI)
  fix q
  assume d: "lookup fs' q \<noteq> lookup fs0 q"
  show "lookup fs0 q = None \<and>
        (lookup fs' q = Some Dir \<or>
         (\<exists>rel c. q = td @ rel \<and> lookup fs' q = Some (File c)
                  \<and> lookup fs0 (tr @ rel) = Some (File c)))"
  proof (cases "lookup fs' q = lookup fs q")
    case True
    with d have "lookup fs q \<noteq> lookup fs0 q" by simp
    moreover from i have "lookup fs q \<noteq> lookup fs0 q \<longrightarrow> lookup fs0 q = None \<and>
        (lookup fs q = Some Dir \<or>
         (\<exists>rel c. q = td @ rel \<and> lookup fs q = Some (File c)
                  \<and> lookup fs0 (tr @ rel) = Some (File c)))"
      unfolding template_only_def by (rule spec)
    ultimately show ?thesis using True by simp
  next
    case False
    with a have n: "lookup fs q = None" and m: "lookup fs' q = Some Dir"
      using adds_dirs_at [of p fs fs' q] by simp_all
    have "lookup fs0 q = None"
    proof (rule ccontr)
      assume "lookup fs0 q \<noteq> None"
      with i have "lookup fs q = lookup fs0 q" by (rule template_only_keeps)
      with n \<open>lookup fs0 q \<noteq> None\<close> show False by simp
    qed
    with m show ?thesis by simp
  qed
qed

lemma read_bytes_File: "read_bytes fs p = Inr b \<Longrightarrow> lookup fs p = Some (File b)"
  by (auto simp: read_bytes_def split: if_splits option.splits node.splits)

lemma copy2_fresh:
  assumes c: "copy2 fs src dst = Inr fs'" and n: "lookup fs dst = None" and ne: "dst \<noteq> []"
  shows "\<exists>b. lookup fs src = Some (File b) \<and> (\<forall>q. lookup fs' q = (if q = dst then Some (File b) else lookup fs q))"
proof -
  from n ne have nd: "\<not> is_dir fs dst" by (simp add: is_dir_def)
  from c nd obtain b where r: "read_bytes fs src = Inr b" and w: "write_bytes fs dst b = Inr fs'"
    by (auto simp: copy2_def Let_def split: if_splits sum.splits)
  from w n have "fs' = fs_update dst (File b) fs"
    by (auto simp: write_bytes_def split: if_splits option.splits)
  with r show ?thesis by (auto simp: lookup_fs_update dest: read_bytes_File)
qed

lemma apply_template_entry_inv:
  assumes i: "template_only td tr fs0 (files w)" and ex: "lookup fs0 tp \<noteq> None"
  shows "template_only td tr fs0 (files (snd (apply_template_entry td tr tp w)))"
proof (cases "prefix tr tp")
  case False
  with i show ?thesis by (simp add: apply_template_entry_def)
next
  case True
  define rel where "rel = drop (length tr) tp"
  define target where "target = td @ rel"
  from True have tp: "tp = tr @ rel" by (auto simp: rel_def prefix_def)
  show ?thesis
  proof (cases "is_dir (files w) tp")
    case d: True
    obtain r fs' where m: "mkdir_p (files w) target = (r, fs')" by force
    have "adds_dirs target (files w) (snd (mkdir_p (files w) target))" by (rule mkdir_p_adds)
    with m i have "template_only td tr fs0 fs'" by (simp add: template_only_adds_dirs)
    with m d True show ?thesis
      by (simp add: apply_template_entry_def bind_io_def io_test_def io_mkdir_p_def Let_def
            rel_def target_def split: option.splits)
  next
    case nd: False
    show ?thesis
    proof (cases "path_exists (files w) target")
      case e: True
      with nd True i show ?thesis
        by (simp add: apply_template_entry_def bind_io_def io_test_def ret_def Let_def rel_def target_def)
    next
      case ne: False
      then have t0: "target \<noteq> []" and tn: "lookup (files w) target = None"
        by (simp_all add: path_exists_def)
      obtain r fs1 where m: "mkdir_p (files w) (butlast target) = (r, fs1)" by force
      have a: "adds_dirs (butlast target) (files w) fs1"
        using mkdir_p_adds [of "butlast target" "files w"] m by simp
      with i have i1: "template_only td tr fs0 fs1" by (rule template_only_adds_dirs)
      have np: "\<not> prefix target (butlast target)"
      proof -
        from t0 obtain ys y where "target = ys @ [y]" by (cases target rule: rev_cases) auto
        then show ?thesis by (auto dest: prefix_length_le)
      qed
      have tn1: "lookup fs1 target = None"
      proof (rule ccontr)
        assume "lookup fs1 target \<noteq> None"
        with tn have "lookup fs1 target \<noteq> lookup (files w) target" by simp
        moreover from a have "lookup fs1 target \<noteq> lookup (files w) target \<longrightarrow>
            lookup (files w) target = None \<and> lookup fs1 target = Some Dir
            \<and> prefix target (butlast target) \<and> target \<noteq> []"
          unfolding adds_dirs_def by (rule spec)
        ultimately show False using np by simp
      qed
      show ?thesis
      proof (cases r)
        case (Some e)
        with m nd ne True i1 show ?thesis
          by (simp add: apply_template_entry_def bind_io_def io_test_def io_mkdir_p_def Let_def
                rel_def target_def)
      next
        case None
        show ?thesis
        proof (cases "copy2 fs1 tp target")
          case (Inl e)
          with None m nd ne True i1 show ?thesis
            by (simp add: apply_template_entry_def bind_io_def io_test_def io_mkdir_p_def
                  io_update_def Let_def rel_def target_def)
        next
          case (Inr fs2)
          from copy2_fresh [OF Inr tn1 t0] obtain b where
            b: "lookup fs1 tp = Some (File b)" and
            u: "\<And>q. lookup fs2 q = (if q = target then Some (File b) else lookup fs1 q)"
            by blast
          from i1 ex have "lookup fs1 tp = lookup fs0 tp" by (rule template_only_keeps)
          with b have b0: "lookup fs0 tp = Some (File b)" by simp
          have t00: "lookup fs0 target = None"
          proof (rule ccontr)
            assume h: "lookup fs0 target \<noteq> None"
            with i1 have "lookup fs1 target = lookup fs0 target" by (rule template_only_keeps)
            with tn1 h show False by simp
          qed
          have "template_only td tr fs0 fs2"
            unfolding template_only_def
          proof (intro allI impI)
            fix q
            assume d: "lookup fs2 q \<noteq> lookup fs0 q"
            show "lookup fs0 q = None \<and>
                  (lookup fs2 q = Some Dir \<or>
                   (\<exists>rel c. q = td @ rel \<and> lookup fs2 q = Some (File c)
                      \<and> lookup fs0 (tr @ rel) = Some (File c)))"
            proof (cases "q = target")
              case True
              with u t00 b0 tp show ?thesis by (auto simp: target_def)
            next
              case False
              with u d have "lookup fs1 q \<noteq> lookup fs0 q" by simp
              with i1 False u show ?thesis unfolding template_only_def by simp
            qed
          qed
          with Inr None m nd ne True show ?thesis
            by (simp add: apply_template_entry_def bind_io_def io_test_def io_mkdir_p_def
                  io_update_def Let_def rel_def target_def)
        qed
      qed
    qed
  qed
qed

lemma for_each_template_inv:
  "template_only td tr fs0 (files w) \<Longrightarrow> \<forall>tp \<in> set tps. lookup fs0 tp \<noteq> None \<Longrightarrow>
   template_only td tr fs0 (files (snd (for_each (apply_template_entry td tr) tps w)))"
proof (induction tps arbitrary: w)
  case Nil
  then show ?case by simp
next
  case (Cons tp tps)
  obtain r w' where s: "apply_template_entry td tr tp w = (r, w')" by force
  from Cons.prems have "template_only td tr fs0 (files (snd (apply_template_entry td tr tp w)))"
    by (intro apply_template_entry_inv) simp_all
  with s have i': "template_only td tr fs0 (files w')" by simp
  show ?case
  proof (cases r)
    case (Inl e)
    with s i' show ?thesis by simp
  next
    case (Inr u)
    from Cons.IH [OF i'] Cons.prems(2) have
      "template_only td tr fs0 (files (snd (for_each (apply_template_entry td tr) tps w')))" by simp
    with s Inr show ?thesis by simp
  qed
qed

lemma all_paths_set: "set (all_paths fs) = fst ` set fs"
  by (simp add: all_paths_def)

lemma lookup_in_keys: "p \<in> fst ` set fs \<Longrightarrow> lookup fs p \<noteq> None"
  by (simp add: lookup_def map_of_eq_None_iff)

lemma rglob_sorted_exists: "p \<in> set (rglob_sorted fs d pat) \<Longrightarrow> lookup fs p \<noteq> None"
  by (auto simp: rglob_sorted_def descendants_def all_paths_set lookup_in_keys split: if_splits)

lemma apply_track_template_inv:
  "template_only td tr (files w) (files (snd (apply_track_template td tr w)))"
proof -
  have "\<forall>tp \<in> set (rglob_sorted (files w) tr ''*''). lookup (files w) tp \<noteq> None"
    using rglob_sorted_exists by blast
  with template_only_refl have
    "template_only td tr (files w)
       (files (snd (for_each (apply_template_entry td tr) (rglob_sorted (files w) tr ''*'') w)))"
    by (rule for_each_template_inv)
  then show ?thesis
    by (simp add: apply_track_template_def bind_io_def io_read_def)
qed

text \<open>
  C1. Applying the template touches nothing that exists: whatever the template root and
  the track directory, and whether or not the run ends with an exception, every regular
  file present before holds the same content afterwards, every entry that differs
  afterwards was absent before, and such a new entry is a directory or a copy of the
  template file at the same relative path.
\<close>

theorem apply_track_template_nondestructive:
  "(\<forall>p c. lookup (files w) p = Some (File c) \<longrightarrow>
       lookup (files (snd (apply_track_template track_dir template_root w))) p = Some (File c))
   \<and> (\<forall>p. lookup (files (snd (apply_track_template track_dir template_root w))) p \<noteq> lookup (files w) p \<longrightarrow>
         lookup (files w) p = None \<and>
         (lookup (files (snd (apply_track_template track_dir template_root w))) p = Some Dir \<or>
          (\<exists>rel c. p = track_dir @ rel
             \<and> lookup (files (snd (apply_track_template track_dir template_root w))) p = Some (File c)
             \<and> lookup (files w) (template_root @ rel) = Some (File c))))"
proof -
  have i: "template_only track_dir template_root (files w)
             (files (snd (apply_track_template track_dir template_root w)))"
    by (rule apply_track_template_inv)
  have a: "\<forall>p c. lookup (files w) p = Some (File c) \<longrightarrow>
       lookup (files (snd (apply_track_template track_dir template_root w))) p = Some (File c)"
  proof (intro allI impI)
    fix p c
    assume h: "lookup (files w) p = Some (File c)"
    then have "lookup (files w) p \<noteq> None" by simp
    with i have "lookup (files (snd (apply_track_template track_dir template_root w))) p = lookup (files w) p"
      by (rule template_only_keeps)
    with h show "lookup (files (snd (apply_track_template track_dir template_root w))) p = Some (File c)"
      by simp
  qed
  from i have b: "\<forall>p. lookup (files (snd (apply_track_template track_dir template_root w))) p \<noteq> lookup (files w) p \<longrightarrow>
         lookup (files w) p = None \<and>
         (lookup (files (snd (apply_track_template track_dir template_root w))) p = Some Dir \<or>
          (\<exists>rel c. p = track_dir @ rel
             \<and> lookup (files (snd (apply_track_template track_dir template_root w))) p = Some (File c)
             \<and> lookup (files w) (template_root @ rel) = Some (File c)))"
    unfolding template_only_def .
  from a b show ?thesis by (rule conjI)
qed

theorem apply_track_template_nondestructive_witness:
  "lookup [([''t''], Dir), ([''t'', ''README.md''], File ''T''), ([''t'', ''data''], Dir),
           ([''t'', ''data'', ''lyrics.md''], File ''template''), ([''w''], Dir), ([''w'', ''data''], Dir),
           ([''w'', ''data'', ''lyrics.md''], File ''edited by hand'')]
      [''w'', ''data'', ''lyrics.md''] = Some (File ''edited by hand'')
   \<and> lookup (files (snd (apply_track_template [''w''] [''t'']
         \<lparr>files = [([''t''], Dir), ([''t'', ''README.md''], File ''T''), ([''t'', ''data''], Dir),
           ([''t'', ''data'', ''lyrics.md''], File ''template''), ([''w''], Dir), ([''w'', ''data''], Dir),
           ([''w'', ''data'', ''lyrics.md''], File ''edited by hand'')], out = ([] :: build_line list)\<rparr>)))
      [''w'', ''data'', ''lyrics.md''] = Some (File ''edited by hand'')
   \<and> lookup (files (snd (apply_track_template [''w''] [''t'']
         \<lparr>files = [([''t''], Dir), ([''t'', ''README.md''], File ''T''), ([''t'', ''data''], Dir),
           ([''t'', ''data'', ''lyrics.md''], File ''template''), ([''w''], Dir), ([''w'', ''data''], Dir),
           ([''w'', ''data'', ''lyrics.md''], File ''edited by hand'')], out = ([] :: build_line list)\<rparr>)))
      [''w'', ''README.md''] = Some (File ''T'')"
proof -
  have h: "lookup (files \<lparr>files = [([''t''], Dir), ([''t'', ''README.md''], File ''T''), ([''t'', ''data''], Dir),
           ([''t'', ''data'', ''lyrics.md''], File ''template''), ([''w''], Dir), ([''w'', ''data''], Dir),
           ([''w'', ''data'', ''lyrics.md''], File ''edited by hand'')], out = ([] :: build_line list)\<rparr>)
      [''w'', ''data'', ''lyrics.md''] = Some (File ''edited by hand'')"
    by (simp add: lookup_def)
  have c: "lookup (files (snd (apply_track_template [''w''] [''t'']
         \<lparr>files = [([''t''], Dir), ([''t'', ''README.md''], File ''T''), ([''t'', ''data''], Dir),
           ([''t'', ''data'', ''lyrics.md''], File ''template''), ([''w''], Dir), ([''w'', ''data''], Dir),
           ([''w'', ''data'', ''lyrics.md''], File ''edited by hand'')], out = ([] :: build_line list)\<rparr>)))
      [''w'', ''README.md''] = Some (File ''T'')"
    by code_simp
  from apply_track_template_nondestructive
    [of "\<lparr>files = [([''t''], Dir), ([''t'', ''README.md''], File ''T''), ([''t'', ''data''], Dir),
           ([''t'', ''data'', ''lyrics.md''], File ''template''), ([''w''], Dir), ([''w'', ''data''], Dir),
           ([''w'', ''data'', ''lyrics.md''], File ''edited by hand'')], out = ([] :: build_line list)\<rparr>"
        "[''w'']" "[''t'']"] h
  have k: "lookup (files (snd (apply_track_template [''w''] [''t'']
         \<lparr>files = [([''t''], Dir), ([''t'', ''README.md''], File ''T''), ([''t'', ''data''], Dir),
           ([''t'', ''data'', ''lyrics.md''], File ''template''), ([''w''], Dir), ([''w'', ''data''], Dir),
           ([''w'', ''data'', ''lyrics.md''], File ''edited by hand'')], out = ([] :: build_line list)\<rparr>)))
      [''w'', ''data'', ''lyrics.md''] = Some (File ''edited by hand'')"
    by blast
  from h k c show ?thesis by simp
qed

subsection \<open>The files the album builder works on\<close>

lemma bind_io_Inr:
  "bind_io m f w = (Inr x, w') \<Longrightarrow> \<exists>a w1. m w = (Inr a, w1) \<and> f a w1 = (Inr x, w')"
  by (auto simp: bind_io_def split: prod.splits sum.splits)

lemma bind_io_InrE:
  assumes "bind_io m f w = (Inr x, w')"
  obtains a w1 where "m w = (Inr a, w1)" and "f a w1 = (Inr x, w')"
proof -
  from bind_io_Inr [OF assms] obtain a w1 where "m w = (Inr a, w1)" and "f a w1 = (Inr x, w')"
    by (elim exE conjE)
  then show thesis by (rule that)
qed

lemma build_track_skip:
  "\<not> is_track_file (last md_path) \<Longrightarrow> build_track lib spec base_dir template_root md_path w = (Inr None, w)"
  by (cases "TRACK_FILE_RE_match (last md_path)") (auto simp: is_track_file_def build_track_def ret_def)

lemma build_track_process:
  assumes m: "TRACK_FILE_RE_match (last md_path) = Some (g1, g2)"
    and c: "\<not> py_in ''-checkpoint'' (last md_path)"
    and r: "build_track lib spec base_dir template_root md_path w = (Inr res, w')"
  shows "\<exists>t. res = Some t \<and> track_number t = g1 \<and> raw_slug t = g2
            \<and> canonical_slug t = canonicalize_slug g2"
proof -
  from r m c show ?thesis
    unfolding build_track_def Let_def
    apply simp
    apply (elim bind_io_InrE)
    apply (cases "py_int g1")
     apply simp
    apply simp
    apply (elim bind_io_InrE)
    apply (simp add: ret_def)
    apply auto
    done
qed


lemma build_loop_tracks:
  "build_loop (build_track lib spec base_dir template_root) mds acc w = (Inr tracks, w') \<Longrightarrow>
   map track_key tracks =
     map track_key acc @ map (\<lambda>p. the (TRACK_FILE_RE_match (last p))) (filter (\<lambda>p. is_track_file (last p)) mds)"
proof (induction mds arbitrary: acc w)
  case Nil
  then show ?case by simp
next
  case (Cons md mds)
  obtain r w1 where b: "build_track lib spec base_dir template_root md w = (r, w1)" by force
  show ?case
  proof (cases "is_track_file (last md)")
    case False
    with b have "r = Inr None" "w1 = w" by (simp_all add: build_track_skip)
    with Cons.prems b have "build_loop (build_track lib spec base_dir template_root) mds acc w = (Inr tracks, w')"
      by simp
    from Cons.IH [OF this] False show ?thesis by simp
  next
    case True
    then obtain g1 g2 where m: "TRACK_FILE_RE_match (last md) = Some (g1, g2)"
      and c: "\<not> py_in ''-checkpoint'' (last md)"
      by (auto simp: is_track_file_def)
    show ?thesis
    proof (cases r)
      case (Inl e)
      with Cons.prems b show ?thesis by simp
    next
      case (Inr res)
      with b build_track_process [OF m c] obtain t where
        t: "res = Some t" "track_number t = g1" "raw_slug t = g2" by blast
      with Cons.prems b Inr have
        "build_loop (build_track lib spec base_dir template_root) mds (acc @ [t]) w1 = (Inr tracks, w')"
        by simp
      from Cons.IH [OF this] True m t show ?thesis by (simp add: track_key_def)
    qed
  qed
qed

lemma build_workspaces_tracks:
  assumes m1: "io_mkdir_p (workspace_album_dir spec base_dir) w = (Inr u1, w1)"
    and m2: "io_mkdir_p (pull_album_dir spec base_dir) w1 = (Inr u2, w2)"
    and e: "path_exists (files w2) (base_dir @ import_dir spec)"
    and r: "build_workspaces_for_album lib spec base_dir template_root w = (Inr tracks, w')"
  shows "map track_key tracks =
     map (\<lambda>p. the (TRACK_FILE_RE_match (last p)))
       (filter (\<lambda>p. is_track_file (last p)) (rglob_sorted (files w2) (base_dir @ import_dir spec) ''*.md''))"
proof -
  from r m1 m2 e have
    "build_loop (build_track lib spec base_dir template_root)
       (rglob_sorted (files w2) (base_dir @ import_dir spec) ''*.md'') [] w2 = (Inr tracks, w')"
    by (simp add: build_workspaces_for_album_def bind_io_def io_test_def io_read_def)
  from build_loop_tracks [OF this] show ?thesis by simp
qed


lemma md_tail_iff:
  "md_tail e \<longleftrightarrow> (\<exists>m d. (m = CHR ''m'' \<or> m = CHR ''M'') \<and> (d = CHR ''d'' \<or> d = CHR ''D'')
       \<and> (e = [CHR ''.'', m, d] \<or> e = [CHR ''.'', m, d, line_feed]))"
  by (auto simp: md_tail_def split: list.splits)

lemma md_tail_length: "md_tail e \<Longrightarrow> length e = 3 \<or> length e = 4"
  by (auto simp: md_tail_iff)

lemma md_tail_last: "md_tail e \<Longrightarrow> (length e = 4 \<longleftrightarrow> last e = line_feed)"
  by (auto simp: md_tail_iff line_feed_def)

lemma md_split_unique:
  assumes eq: "g @ e = g' @ e'" and t: "md_tail e" and t': "md_tail e'"
  shows "g = g'"
proof -
  from t t' have ne: "e \<noteq> []" "e' \<noteq> []" by (auto simp: md_tail_iff)
  from eq have "last (g @ e) = last (g' @ e')" by simp
  with ne have "last e = last e'" by simp
  with md_tail_last [OF t] md_tail_last [OF t'] md_tail_length [OF t] md_tail_length [OF t']
  have "length e = length e'" by auto
  with eq show ?thesis by simp
qed

lemma greedy_group_sound:
  "greedy_group n r = Some g \<Longrightarrow> g \<noteq> [] \<and> line_feed \<notin> set g \<and> (\<exists>e. r = g @ e \<and> md_tail e)"
proof (induction n)
  case 0
  then show ?case by simp
next
  case (Suc n)
  show ?case
  proof (cases "line_feed \<notin> set (take (Suc n) r) \<and> md_tail (drop (Suc n) r)")
    case True
    with Suc.prems have g: "g = take (Suc n) r" by simp
    from True have "drop (Suc n) r \<noteq> []" by (auto simp: md_tail_iff)
    then have "r \<noteq> []" by auto
    with g have "g \<noteq> []" by simp
    moreover have "r = g @ drop (Suc n) r" using g by simp
    ultimately show ?thesis using True g by blast
  next
    case False
    with Suc.prems have "greedy_group n r = Some g" by auto
    then show ?thesis by (rule Suc.IH)
  qed
qed

lemma greedy_group_complete:
  "r = g @ e \<Longrightarrow> g \<noteq> [] \<Longrightarrow> line_feed \<notin> set g \<Longrightarrow> md_tail e \<Longrightarrow> length g \<le> n \<Longrightarrow>
   greedy_group n r = Some g"
proof (induction n)
  case 0
  then show ?case by simp
next
  case (Suc n)
  show ?case
  proof (cases "line_feed \<notin> set (take (Suc n) r) \<and> md_tail (drop (Suc n) r)")
    case True
    have "take (Suc n) r @ drop (Suc n) r = r" by (rule append_take_drop_id)
    with Suc.prems(1) have q: "take (Suc n) r @ drop (Suc n) r = g @ e" by (simp only:)
    from True have t: "md_tail (drop (Suc n) r)" by (rule conjunct2)
    from q t Suc.prems(4) have "take (Suc n) r = g" by (rule md_split_unique)
    with True show ?thesis by simp
  next
    case False
    have "length g \<noteq> Suc n"
    proof
      assume l: "length g = Suc n"
      from Suc.prems(1) have "take (length g) r = g" "drop (length g) r = e" by simp_all
      with l have "take (Suc n) r = g" "drop (Suc n) r = e" by simp_all
      with False Suc.prems(3,4) show False by simp
    qed
    with Suc.prems have "length g \<le> n" by simp
    with Suc.prems have "greedy_group n r = Some g" by (intro Suc.IH) simp_all
    with False show ?thesis by auto
  qed
qed

lemma TRACK_FILE_RE_match_iff:
  "TRACK_FILE_RE_match name = Some (g1, g2) \<longleftrightarrow>
     (\<exists>d1 d2 sep e. name = d1 # d2 # sep # g2 @ e \<and> g1 = [d1, d2] \<and> is_digit d1 \<and> is_digit d2
        \<and> (sep = CHR ''_'' \<or> sep = CHR ''-'') \<and> g2 \<noteq> [] \<and> line_feed \<notin> set g2 \<and> md_tail e)"
proof
  assume "TRACK_FILE_RE_match name = Some (g1, g2)"
  then obtain d1 d2 sep r where n: "name = d1 # d2 # sep # r"
    and d: "is_digit d1" "is_digit d2" "sep = CHR ''_'' \<or> sep = CHR ''-''"
    and g: "greedy_group (length r) r = Some g2" and g1: "g1 = [d1, d2]"
    by (auto simp: TRACK_FILE_RE_match_def split: list.splits if_splits)
  from greedy_group_sound [OF g] obtain e where "r = g2 @ e" "md_tail e" "g2 \<noteq> []" "line_feed \<notin> set g2"
    by blast
  with n d g1 show "\<exists>d1 d2 sep e. name = d1 # d2 # sep # g2 @ e \<and> g1 = [d1, d2] \<and> is_digit d1 \<and> is_digit d2
        \<and> (sep = CHR ''_'' \<or> sep = CHR ''-'') \<and> g2 \<noteq> [] \<and> line_feed \<notin> set g2 \<and> md_tail e"
    by blast
next
  assume "\<exists>d1 d2 sep e. name = d1 # d2 # sep # g2 @ e \<and> g1 = [d1, d2] \<and> is_digit d1 \<and> is_digit d2
        \<and> (sep = CHR ''_'' \<or> sep = CHR ''-'') \<and> g2 \<noteq> [] \<and> line_feed \<notin> set g2 \<and> md_tail e"
  then obtain d1 d2 sep e where n: "name = d1 # d2 # sep # g2 @ e" and g1: "g1 = [d1, d2]"
    and d: "is_digit d1" "is_digit d2" "sep = CHR ''_'' \<or> sep = CHR ''-''"
    and g: "g2 \<noteq> []" "line_feed \<notin> set g2" "md_tail e"
    by blast
  have "greedy_group (length (g2 @ e)) (g2 @ e) = Some g2"
    using g by (intro greedy_group_complete) simp_all
  with n g1 d show "TRACK_FILE_RE_match name = Some (g1, g2)"
    by (simp add: TRACK_FILE_RE_match_def)
qed

lemma build_workspaces_selected:
  assumes r: "fst (build_workspaces_for_album lib spec base_dir template_root w) = Inr tracks"
  shows "map track_key tracks =
     (if path_exists (files (snd (bind_io (io_mkdir_p (workspace_album_dir spec base_dir))
                                    (\<lambda>u. io_mkdir_p (pull_album_dir spec base_dir)) w)))
            (base_dir @ import_dir spec)
      then selected_tracks (rglob_sorted
             (files (snd (bind_io (io_mkdir_p (workspace_album_dir spec base_dir))
                            (\<lambda>u. io_mkdir_p (pull_album_dir spec base_dir)) w)))
             (base_dir @ import_dir spec) ''*.md'')
      else [])"
proof -
  obtain r1 w2 where d: "bind_io (io_mkdir_p (workspace_album_dir spec base_dir))
                  (\<lambda>u. io_mkdir_p (pull_album_dir spec base_dir)) w = (r1, w2)" by force
  have b: "build_workspaces_for_album lib spec base_dir template_root w =
      bind_io (bind_io (io_mkdir_p (workspace_album_dir spec base_dir))
                  (\<lambda>u. io_mkdir_p (pull_album_dir spec base_dir)))
        (\<lambda>u. bind_io (io_test (\<lambda>fs. path_exists fs (base_dir @ import_dir spec))) (\<lambda>e.
           if \<not> e then
             bind_io (print (WarnImportDir (base_dir @ import_dir spec))) (\<lambda>u. ret [])
           else
             bind_io (io_read (\<lambda>fs. Inr (rglob_sorted fs (base_dir @ import_dir spec) ''*.md''))) (\<lambda>md_paths.
               build_loop (build_track lib spec base_dir template_root) md_paths []))) w"
    by (simp add: build_workspaces_for_album_def bind_io_def split: prod.splits sum.splits)
  show ?thesis
  proof (cases r1)
    case (Inl e)
    with r b d show ?thesis by (simp add: bind_io_def)
  next
    case (Inr u)
    show ?thesis
    proof (cases "path_exists (files w2) (base_dir @ import_dir spec)")
      case False
      with r b d Inr show ?thesis
        by (simp add: bind_io_def io_test_def print_def ret_def)
    next
      case True
      obtain r3 w3 where l: "build_loop (build_track lib spec base_dir template_root)
         (rglob_sorted (files w2) (base_dir @ import_dir spec) ''*.md'') [] w2 = (r3, w3)" by force
      with r b d Inr True have "r3 = Inr tracks"
        by (simp add: bind_io_def io_test_def io_read_def)
      with l build_loop_tracks [of lib spec base_dir template_root _ "[]" w2 tracks w3]
      have "map track_key tracks = selected_tracks (rglob_sorted (files w2) (base_dir @ import_dir spec) ''*.md'')"
        by (simp add: selected_tracks_def)
      with d True show ?thesis by simp
    qed
  qed
qed


lemma match_star:
  "match_tokens (Star # ts) s \<longleftrightarrow> (\<exists>pre suf. s = pre @ suf \<and> match_tokens ts suf)"
proof (induction s)
  case Nil
  show ?case by simp
next
  case (Cons c cs)
  show ?case
  proof
    assume "match_tokens (Star # ts) (c # cs)"
    then have "match_tokens ts (c # cs) \<or> match_tokens (Star # ts) cs" by simp
    then show "\<exists>pre suf. c # cs = pre @ suf \<and> match_tokens ts suf"
    proof
      assume "match_tokens ts (c # cs)"
      then have "c # cs = [] @ (c # cs) \<and> match_tokens ts (c # cs)" by simp
      then show ?thesis by blast
    next
      assume "match_tokens (Star # ts) cs"
      with Cons.IH obtain pre suf where "cs = pre @ suf" "match_tokens ts suf" by blast
      then have "c # cs = (c # pre) @ suf \<and> match_tokens ts suf" by simp
      then show ?thesis by blast
    qed
  next
    assume "\<exists>pre suf. c # cs = pre @ suf \<and> match_tokens ts suf"
    then obtain pre suf where e: "c # cs = pre @ suf" and m: "match_tokens ts suf" by blast
    show "match_tokens (Star # ts) (c # cs)"
    proof (cases pre)
      case Nil
      with e have "suf = c # cs" by simp
      with m have "match_tokens ts (c # cs)" by simp
      then show ?thesis by simp
    next
      case (Cons a pre')
      with e have "cs = pre' @ suf" by simp
      with m Cons.IH have "match_tokens (Star # ts) cs" by blast
      then show ?thesis by simp
    qed
  qed
qed

lemma match_three_literals: "match_tokens [Lit a, Lit b, Lit c] s \<longleftrightarrow> s = [a, b, c]"
proof (cases s)
  case Nil
  then show ?thesis by simp
next
  case s1: (Cons x1 r1)
  show ?thesis
  proof (cases r1)
    case Nil
    with s1 show ?thesis by simp
  next
    case s2: (Cons x2 r2)
    show ?thesis
    proof (cases r2)
      case Nil
      with s1 s2 show ?thesis by simp
    next
      case (Cons x3 r3)
      with s1 s2 show ?thesis by auto
    qed
  qed
qed

lemma glob_tokens_md: "glob_tokens ''*.md'' = [Star, Lit CHR ''.'', Lit CHR ''m'', Lit CHR ''d'']"
  by code_simp

lemma fnmatch_md: "fnmatch ''*.md'' name \<longleftrightarrow> py_endswith name ''.md''"
  by (simp add: fnmatch_def glob_tokens_md match_star match_three_literals py_endswith_def suffix_def)

lemma rglob_md:
  "rglob_sorted fs d ''*.md'' = filter (\<lambda>p. py_endswith (last p) ''.md'') (descendants fs d)"
  by (simp add: rglob_sorted_def fnmatch_md)

lemma md_tail_lower:
  assumes t: "md_tail e" and s: "suffix ''.md'' (xs @ e)"
  shows "e = ''.md''"
proof -
  from t have ne: "e \<noteq> []" by (auto simp: md_tail_iff)
  from s obtain zs where z: "xs @ e = zs @ ''.md''" by (auto simp: suffix_def)
  then have "last (xs @ e) = last (zs @ ''.md'')" by simp
  with ne have "last e = CHR ''d''" by simp
  with md_tail_last [OF t] have "length e \<noteq> 4" by (auto simp: line_feed_def)
  with md_tail_length [OF t] have "length e = length ''.md''" by simp
  with z show ?thesis by simp
qed

lemma listed_track_file_iff:
  "is_track_file name \<and> fnmatch ''*.md'' name \<longleftrightarrow>
     (\<exists>d1 d2 sep g. name = d1 # d2 # sep # g @ ''.md'' \<and> is_digit d1 \<and> is_digit d2
        \<and> (sep = CHR ''_'' \<or> sep = CHR ''-'') \<and> g \<noteq> [] \<and> line_feed \<notin> set g
        \<and> \<not> py_in ''-checkpoint'' name)"
proof
  assume a: "is_track_file name \<and> fnmatch ''*.md'' name"
  then obtain g1 g2 where m: "TRACK_FILE_RE_match name = Some (g1, g2)"
    and c: "\<not> py_in ''-checkpoint'' name"
    by (auto simp: is_track_file_def)
  from m [unfolded TRACK_FILE_RE_match_iff] obtain d1 d2 sep e where
    n: "name = d1 # d2 # sep # g2 @ e" and d: "is_digit d1" "is_digit d2" "sep = CHR ''_'' \<or> sep = CHR ''-''"
    and g: "g2 \<noteq> []" "line_feed \<notin> set g2" and t: "md_tail e" by blast
  from a have "suffix ''.md'' name" by (simp add: fnmatch_md py_endswith_def)
  with n have "suffix ''.md'' ((d1 # d2 # sep # g2) @ e)" by simp
  with t have "e = ''.md''" by (rule md_tail_lower)
  with n d g c show "\<exists>d1 d2 sep g. name = d1 # d2 # sep # g @ ''.md'' \<and> is_digit d1 \<and> is_digit d2
        \<and> (sep = CHR ''_'' \<or> sep = CHR ''-'') \<and> g \<noteq> [] \<and> line_feed \<notin> set g
        \<and> \<not> py_in ''-checkpoint'' name" by blast
next
  assume "\<exists>d1 d2 sep g. name = d1 # d2 # sep # g @ ''.md'' \<and> is_digit d1 \<and> is_digit d2
        \<and> (sep = CHR ''_'' \<or> sep = CHR ''-'') \<and> g \<noteq> [] \<and> line_feed \<notin> set g
        \<and> \<not> py_in ''-checkpoint'' name"
  then obtain d1 d2 sep g where n: "name = d1 # d2 # sep # g @ ''.md''"
    and d: "is_digit d1" "is_digit d2" "sep = CHR ''_'' \<or> sep = CHR ''-''"
    and g: "g \<noteq> []" "line_feed \<notin> set g" and c: "\<not> py_in ''-checkpoint'' name" by blast
  have t: "md_tail ''.md''" by (simp add: md_tail_def)
  from n d g t have "TRACK_FILE_RE_match name = Some ([d1, d2], g)"
    unfolding TRACK_FILE_RE_match_iff by blast
  with c have i: "is_track_file name" by (simp add: is_track_file_def)
  have "name = (d1 # d2 # sep # g) @ ''.md''" using n by simp
  then have "suffix ''.md'' name" unfolding suffix_def by (rule exI)
  with i show "is_track_file name \<and> fnmatch ''*.md'' name" by (simp add: fnmatch_md py_endswith_def)
qed

lemma build_workspaces_listed:
  assumes r: "fst (build_workspaces_for_album lib spec base_dir template_root w) = Inr tracks"
  shows "map track_key tracks =
     (if path_exists (files (snd (bind_io (io_mkdir_p (workspace_album_dir spec base_dir))
                                    (\<lambda>u. io_mkdir_p (pull_album_dir spec base_dir)) w)))
            (base_dir @ import_dir spec)
      then map (\<lambda>p. the (TRACK_FILE_RE_match (last p)))
             (filter (\<lambda>p. is_track_file (last p) \<and> py_endswith (last p) ''.md'')
                (descendants
                   (files (snd (bind_io (io_mkdir_p (workspace_album_dir spec base_dir))
                                  (\<lambda>u. io_mkdir_p (pull_album_dir spec base_dir)) w)))
                   (base_dir @ import_dir spec)))
      else [])"
  using build_workspaces_selected [OF r]
  by (simp add: rglob_md selected_tracks_def conj_commute)


text \<open>
  C2, as stated, fails for a file whose extension is not in lower case: the pattern is
  matched without regard to case, but the files it is matched against are those the
  recursive listing of \<^verbatim>\<open>*.md\<close> gives, and that listing distinguishes case. In an import
  directory whose only file is \<^verbatim>\<open>05_SONG.MD\<close> the name matches the pattern, with the groups
  \<^verbatim>\<open>05\<close> and \<^verbatim>\<open>SONG\<close>, and has no \<^verbatim>\<open>-checkpoint\<close> in it; yet the album builder returns no
  track, prints nothing and makes no workspace for it.
\<close>

theorem album_builder_counterexample:
  "lookup upper_case_imports [''_imports'', ''HAWK-ARS-00'', ''01_singles'', ''05_SONG.MD'']
      = Some (File ''lyrics of a song'')
   \<and> import_dir (hd ALBUM_SPECS) = [''_imports'', ''HAWK-ARS-00'', ''01_singles'']
   \<and> TRACK_FILE_RE_match ''05_SONG.MD'' = Some (''05'', ''SONG'')
   \<and> \<not> py_in ''-checkpoint'' ''05_SONG.MD''
   \<and> fst (build_workspaces_for_album example_lib (hd ALBUM_SPECS) [] [''_templates'', ''track'']
            \<lparr>files = upper_case_imports, out = []\<rparr>) = Inr []
   \<and> out (snd (build_workspaces_for_album example_lib (hd ALBUM_SPECS) [] [''_templates'', ''track'']
            \<lparr>files = upper_case_imports, out = []\<rparr>)) = []
   \<and> lookup (files (snd (build_workspaces_for_album example_lib (hd ALBUM_SPECS) [] [''_templates'', ''track'']
            \<lparr>files = upper_case_imports, out = []\<rparr>)))
        [''HAWK-ARS-01'', ''_workspace'', ''01_Singles'', ''05_song''] = None"
  by code_simp

text \<open>
  C2, amended. The album builder works on exactly the entries below the import directory
  whose name ends in \<^verbatim>\<open>.md\<close> in lower case, matches the pattern and has no \<^verbatim>\<open>-checkpoint\<close>
  in it. The pattern matches a name exactly when the name is two digits, an underscore or
  a hyphen, a non-empty group without a line feed, and \<^verbatim>\<open>.md\<close> in either case (with at most
  one line feed after it); the groups are the two digits and the group. For a path whose
  name does not match or has \<^verbatim>\<open>-checkpoint\<close> in it the body of the loop returns at once,
  without an error, a printed line or a change of the file system; for any other path it
  either raises or appends the record of that track. The listing of \<^verbatim>\<open>*.md\<close> holds the
  names that end in \<^verbatim>\<open>.md\<close> as written, so a name is both listed and selected exactly when
  it is two digits, a separator, a non-empty group without a line feed and \<^verbatim>\<open>.md\<close> in lower
  case, with no \<^verbatim>\<open>-checkpoint\<close> in it. The tracks returned by a run that does not raise are
  therefore, in the order of the sorted paths, those of the entries anywhere below the
  import directory that are of this form (none when the import directory is missing).
  The names of the specification behave as stated there, and \<^verbatim>\<open>05_SONG.MD\<close> matches the
  pattern but is not listed.
\<close>

theorem album_builder_selects_track_files:
  "(TRACK_FILE_RE_match name = Some (g1, g2) \<longleftrightarrow>
      (\<exists>d1 d2 sep e. name = d1 # d2 # sep # g2 @ e \<and> g1 = [d1, d2] \<and> is_digit d1 \<and> is_digit d2
         \<and> (sep = CHR ''_'' \<or> sep = CHR ''-'') \<and> g2 \<noteq> [] \<and> line_feed \<notin> set g2 \<and> md_tail e))
   \<and> (\<not> is_track_file (last md_path) \<longrightarrow>
         build_track lib spec base_dir template_root md_path w = (Inr None, w))
   \<and> (is_track_file (last md_path) \<longrightarrow>
         (\<forall>res. fst (build_track lib spec base_dir template_root md_path w) = Inr res \<longrightarrow>
            (\<exists>t. res = Some t \<and> track_key t = the (TRACK_FILE_RE_match (last md_path)))))
   \<and> (fst (build_workspaces_for_album lib spec base_dir template_root w) = Inr tracks \<longrightarrow>
         map track_key tracks =
           (if path_exists (files (snd (bind_io (io_mkdir_p (workspace_album_dir spec base_dir))
                                          (\<lambda>u. io_mkdir_p (pull_album_dir spec base_dir)) w)))
                  (base_dir @ import_dir spec)
            then map (\<lambda>p. the (TRACK_FILE_RE_match (last p)))
                   (filter (\<lambda>p. is_track_file (last p) \<and> py_endswith (last p) ''.md'')
                      (descendants
                         (files (snd (bind_io (io_mkdir_p (workspace_album_dir spec base_dir))
                                        (\<lambda>u. io_mkdir_p (pull_album_dir spec base_dir)) w)))
                         (base_dir @ import_dir spec)))
            else []))
   \<and> (fnmatch ''*.md'' name \<longleftrightarrow> py_endswith name ''.md'')
   \<and> (is_track_file name \<and> fnmatch ''*.md'' name \<longleftrightarrow>
        (\<exists>d1 d2 sep g. name = d1 # d2 # sep # g @ ''.md'' \<and> is_digit d1 \<and> is_digit d2
           \<and> (sep = CHR ''_'' \<or> sep = CHR ''-'') \<and> g \<noteq> [] \<and> line_feed \<notin> set g
           \<and> \<not> py_in ''-checkpoint'' name))
   \<and> TRACK_FILE_RE_match ''05_return_of_kings.md'' = Some (''05'', ''return_of_kings'')
   \<and> is_track_file ''05_return_of_kings.md''
   \<and> TRACK_FILE_RE_match ''checkpoint.md'' = None
   \<and> TRACK_FILE_RE_match ''notes.txt'' = None
   \<and> TRACK_FILE_RE_match ''05_foo-checkpoint.md'' \<noteq> None
   \<and> \<not> is_track_file ''05_foo-checkpoint.md''
   \<and> is_track_file ''05_SONG.MD''
   \<and> \<not> fnmatch ''*.md'' ''05_SONG.MD''"
proof -
  have p: "is_track_file (last md_path) \<longrightarrow>
         (\<forall>res. fst (build_track lib spec base_dir template_root md_path w) = Inr res \<longrightarrow>
            (\<exists>t. res = Some t \<and> track_key t = the (TRACK_FILE_RE_match (last md_path))))"
  proof (intro impI allI)
    fix res
    assume t: "is_track_file (last md_path)"
      and r: "fst (build_track lib spec base_dir template_root md_path w) = Inr res"
    from t obtain g1 g2 where m: "TRACK_FILE_RE_match (last md_path) = Some (g1, g2)"
      and c: "\<not> py_in ''-checkpoint'' (last md_path)"
      by (auto simp: is_track_file_def)
    from r obtain w' where "build_track lib spec base_dir template_root md_path w = (Inr res, w')"
      by (cases "build_track lib spec base_dir template_root md_path w") simp
    from build_track_process [OF m c this] m
    show "\<exists>t. res = Some t \<and> track_key t = the (TRACK_FILE_RE_match (last md_path))"
      by (auto simp: track_key_def)
  qed
  have e1: "TRACK_FILE_RE_match ''05_return_of_kings.md'' = Some (''05'', ''return_of_kings'')"
    by code_simp
  have e2: "is_track_file ''05_return_of_kings.md''" by code_simp
  have e3: "TRACK_FILE_RE_match ''checkpoint.md'' = None" by code_simp
  have e4: "TRACK_FILE_RE_match ''notes.txt'' = None" by code_simp
  have e5: "TRACK_FILE_RE_match ''05_foo-checkpoint.md'' \<noteq> None" by code_simp
  have e6: "\<not> is_track_file ''05_foo-checkpoint.md''" by code_simp
  have e7: "is_track_file ''05_SONG.MD''" by code_simp
  have e8: "\<not> fnmatch ''*.md'' ''05_SONG.MD''" by code_simp
  have s: "\<not> is_track_file (last md_path) \<longrightarrow>
         build_track lib spec base_dir template_root md_path w = (Inr None, w)"
    using build_track_skip [of md_path lib spec base_dir template_root w] by (rule impI)
  have l: "fst (build_workspaces_for_album lib spec base_dir template_root w) = Inr tracks \<longrightarrow>
         map track_key tracks =
           (if path_exists (files (snd (bind_io (io_mkdir_p (workspace_album_dir spec base_dir))
                                          (\<lambda>u. io_mkdir_p (pull_album_dir spec base_dir)) w)))
                  (base_dir @ import_dir spec)
            then map (\<lambda>p. the (TRACK_FILE_RE_match (last p)))
                   (filter (\<lambda>p. is_track_file (last p) \<and> py_endswith (last p) ''.md'')
                      (descendants
                         (files (snd (bind_io (io_mkdir_p (workspace_album_dir spec base_dir))
                                        (\<lambda>u. io_mkdir_p (pull_album_dir spec base_dir)) w)))
                         (base_dir @ import_dir spec)))
            else [])"
    using build_workspaces_listed [of lib spec base_dir template_root w tracks] by (rule impI)
  show ?thesis
    using TRACK_FILE_RE_match_iff [of name g1 g2] s p l fnmatch_md [of name]
      listed_track_file_iff [of name] e1 e2 e3 e4 e5 e6 e7 e8
    apply -
    apply ((rule conjI, assumption)+)
    apply assumption
    done
qed

theorem album_builder_selects_track_files_witness:
  "\<not> is_track_file (last [''_imports'', ''HAWK-ARS-00'', ''01_singles'', ''05_foo-checkpoint.md''])
   \<and> build_track example_lib (hd ALBUM_SPECS) [] [''_templates'', ''track'']
        [''_imports'', ''HAWK-ARS-00'', ''01_singles'', ''05_foo-checkpoint.md'']
        \<lparr>files = example_imports, out = []\<rparr>
      = (Inr None, \<lparr>files = example_imports, out = []\<rparr>)
   \<and> is_track_file (last [''_imports'', ''HAWK-ARS-00'', ''01_singles'', ''05_return_of_kings.md''])
   \<and> fst (build_workspaces_for_album example_lib (hd ALBUM_SPECS) [] [''_templates'', ''track'']
         \<lparr>files = example_imports, out = []\<rparr>) =
       Inr [\<lparr>track_number = ''05'', raw_slug = ''return_of_kings'',
          canonical_slug = ''return-of-kings'',
          workspace_dir = [''HAWK-ARS-01'', ''_workspace'', ''01_Singles'', ''05_return-of-kings''],
          lyrics_path = [''HAWK-ARS-01'', ''_workspace'', ''01_Singles'', ''05_return-of-kings'',
                         ''data'', ''lyrics.md'']\<rparr>]
   \<and> map track_key
        [\<lparr>track_number = ''05'', raw_slug = ''return_of_kings'',
          canonical_slug = ''return-of-kings'',
          workspace_dir = [''HAWK-ARS-01'', ''_workspace'', ''01_Singles'', ''05_return-of-kings''],
          lyrics_path = [''HAWK-ARS-01'', ''_workspace'', ''01_Singles'', ''05_return-of-kings'',
                         ''data'', ''lyrics.md'']\<rparr>]
      = (if path_exists (files (snd (bind_io (io_mkdir_p (workspace_album_dir (hd ALBUM_SPECS) []))
                                          (\<lambda>u. io_mkdir_p (pull_album_dir (hd ALBUM_SPECS) []))
                                          \<lparr>files = example_imports, out = ([] :: build_line list)\<rparr>)))
                  ([] @ import_dir (hd ALBUM_SPECS))
            then map (\<lambda>p. the (TRACK_FILE_RE_match (last p)))
                   (filter (\<lambda>p. is_track_file (last p) \<and> py_endswith (last p) ''.md'')
                      (descendants
                         (files (snd (bind_io (io_mkdir_p (workspace_album_dir (hd ALBUM_SPECS) []))
                                        (\<lambda>u. io_mkdir_p (pull_album_dir (hd ALBUM_SPECS) []))
                                        \<lparr>files = example_imports, out = ([] :: build_line list)\<rparr>)))
                         ([] @ import_dir (hd ALBUM_SPECS))))
            else [])
   \<and> map (\<lambda>p. the (TRACK_FILE_RE_match (last p)))
         (filter (\<lambda>p. is_track_file (last p) \<and> py_endswith (last p) ''.md'')
            (descendants
               (files (snd (bind_io (io_mkdir_p (workspace_album_dir (hd ALBUM_SPECS) []))
                              (\<lambda>u. io_mkdir_p (pull_album_dir (hd ALBUM_SPECS) []))
                              \<lparr>files = example_imports, out = ([] :: build_line list)\<rparr>)))
               ([] @ import_dir (hd ALBUM_SPECS))))
      = [(''05'', ''return_of_kings'')]"
proof -
  have h1: "\<not> is_track_file (last [''_imports'', ''HAWK-ARS-00'', ''01_singles'', ''05_foo-checkpoint.md''])"
    by code_simp
  have h2: "is_track_file (last [''_imports'', ''HAWK-ARS-00'', ''01_singles'', ''05_return_of_kings.md''])"
    by code_simp
  have h3: "fst (build_workspaces_for_album example_lib (hd ALBUM_SPECS) [] [''_templates'', ''track'']
         \<lparr>files = example_imports, out = []\<rparr>) =
       Inr [\<lparr>track_number = ''05'', raw_slug = ''return_of_kings'',
          canonical_slug = ''return-of-kings'',
          workspace_dir = [''HAWK-ARS-01'', ''_workspace'', ''01_Singles'', ''05_return-of-kings''],
          lyrics_path = [''HAWK-ARS-01'', ''_workspace'', ''01_Singles'', ''05_return-of-kings'',
                         ''data'', ''lyrics.md'']\<rparr>]"
    by code_simp
  have h4: "map (\<lambda>p. the (TRACK_FILE_RE_match (last p)))
         (filter (\<lambda>p. is_track_file (last p) \<and> py_endswith (last p) ''.md'')
            (descendants
               (files (snd (bind_io (io_mkdir_p (workspace_album_dir (hd ALBUM_SPECS) []))
                              (\<lambda>u. io_mkdir_p (pull_album_dir (hd ALBUM_SPECS) []))
                              \<lparr>files = example_imports, out = ([] :: build_line list)\<rparr>)))
               ([] @ import_dir (hd ALBUM_SPECS))))
      = [(''05'', ''return_of_kings'')]"
    by code_simp
  note t = album_builder_selects_track_files
    [of _ _ _ "[''_imports'', ''HAWK-ARS-00'', ''01_singles'', ''05_foo-checkpoint.md'']"
        example_lib "hd ALBUM_SPECS" "[]" "[''_templates'', ''track'']"
        "\<lparr>files = example_imports, out = []\<rparr>"]
  from t [THEN conjunct2, THEN conjunct1, THEN mp, OF h1]
  have h5: "build_track example_lib (hd ALBUM_SPECS) [] [''_templates'', ''track'']
        [''_imports'', ''HAWK-ARS-00'', ''01_singles'', ''05_foo-checkpoint.md'']
        \<lparr>files = example_imports, out = []\<rparr>
      = (Inr None, \<lparr>files = example_imports, out = []\<rparr>)" .
  note h6 = t [THEN conjunct2, THEN conjunct2, THEN conjunct2, THEN conjunct1, THEN mp, OF h3]
  from h1 h5 h2 h3 h6 h4 show ?thesis by (intro conjI)
qed

subsection \<open>The diff report\<close>

lemma foldl_append_line: "foldl (\<lambda>r t. r @ [f t]) r0 xs = r0 @ map f xs"
  by (induction xs arbitrary: r0) simp_all

lemma append_section_listing: "append_section report header ts = report @ listing header ts"
  by (simp add: append_section_def listing_def foldl_append_line)

lemma append_track_check_findings:
  "append_track_check fs wd report t = report @ track_findings fs wd t"
  by (cases "map_of wd t") (simp_all add: append_track_check_def track_findings_def Let_def)

lemma foldl_track_check:
  "foldl (append_track_check fs wd) r ts = r @ concat (map (track_findings fs wd) ts)"
  by (induction ts arbitrary: r) (simp_all add: append_track_check_findings)

lemma diff_report_findings:
  "diff_report fs import_set workspace_dict pullbucket_set =
     (let work_set = fset_of_list (map fst workspace_dict);
          findings =
            listing (cross_mark @ '' Missing in WORKSPACE:'') (import_set |-| work_set)
            @ listing (cross_mark @ '' Missing in PULL-BUCKET:'') (import_set |-| pullbucket_set)
            @ listing (warning_sign @ '' Extra tracks in WORKSPACE (not in imports):'') (work_set |-| import_set)
            @ listing (warning_sign @ '' Extra tracks in PULL-BUCKET (not in imports):'') (pullbucket_set |-| import_set)
            @ concat (map (track_findings fs workspace_dict) (sorted_list_of_fset import_set))
      in if findings = []
         then [check_mark @ '' No differences found '' @ em_dash @ '' album is clean.'' @ [CHR 0x0A]]
         else findings)"
  by (simp add: diff_report_def Let_def append_section_listing foldl_track_check)

lemma listing_items:
  "ts \<noteq> {||} \<Longrightarrow>
     listing header ts = header # map (\<lambda>t. ''   - '' @ t) (sorted_list_of_fset ts) @ [[]]
     \<and> sorted (sorted_list_of_fset ts) \<and> distinct (sorted_list_of_fset ts)
     \<and> set (sorted_list_of_fset ts) = fset ts"
  by (simp add: listing_def sorted_list_of_fset.rep_eq)

lemma list_tracks_lyrics:
  assumes l: "list_tracks fs base = Inr wd" and m: "map_of wd t = Some ws"
  shows "path_exists fs (ws @ [''data'', ''lyrics.md''])"
proof -
  from m have "(t, ws) \<in> set wd" by (rule map_of_SomeD)
  with l show ?thesis
    by (auto simp: list_tracks_def split: if_splits sum.splits)
qed

lemma track_findings_scanned:
  assumes l: "list_tracks fs base = Inr wd"
  shows "track_findings fs wd t =
     (case map_of wd t of
        None \<Rightarrow> []
      | Some ws \<Rightarrow>
          if path_exists fs (ws @ [''data'', ''metadata.json'']) \<and> path_exists fs (ws @ [t @ ''.ipynb''])
          then []
          else [warning_sign @ '' Incomplete WORKSPACE for '' @ t @ '':'']
               @ (if path_exists fs (ws @ [''data'', ''metadata.json'']) then [] else [''   - missing metadata.json''])
               @ (if path_exists fs (ws @ [t @ ''.ipynb'']) then [] else [''   - missing '' @ t @ ''.ipynb''])
               @ [[]])"
proof (cases "map_of wd t")
  case None
  then show ?thesis by (simp add: track_findings_def)
next
  case (Some ws)
  with l have "path_exists fs (ws @ [''data'', ''lyrics.md''])" by (rule list_tracks_lyrics)
  with Some show ?thesis by (simp add: track_findings_def)
qed

lemma no_missing_lyrics:
  assumes l: "list_tracks fs base = Inr wd"
  shows "''   - missing lyrics.md'' \<notin> set (track_findings fs wd t)"
proof -
  have a: "warning_sign @ '' Incomplete WORKSPACE for '' @ t @ '':'' \<noteq> ''   - missing lyrics.md''"
    by (simp add: warning_sign_def)
  have b: "''   - missing '' @ t @ ''.ipynb'' \<noteq> ''   - missing lyrics.md''"
  proof
    assume "''   - missing '' @ t @ ''.ipynb'' = ''   - missing lyrics.md''"
    then have "last (''   - missing '' @ t @ ''.ipynb'') = last ''   - missing lyrics.md''" by simp
    then show False by simp
  qed
  from a b show ?thesis
    by (cases "map_of wd t") (auto simp: track_findings_scanned [OF l])
qed


lemma example_report:
  "diff_report fs {|''01_a'', ''02_b''|} [(''01_a'', ws)] {|''01_a'', ''02_b'', ''03_c''|} =
     [cross_mark @ '' Missing in WORKSPACE:'', ''   - 02_b'', [],
      warning_sign @ '' Extra tracks in PULL-BUCKET (not in imports):'', ''   - 03_c'', []]
     @ track_findings fs [(''01_a'', ws)] ''01_a''"
proof -
  have w: "fset_of_list (map fst [(''01_a'', ws)]) = {|''01_a''|}" by simp
  have l1: "listing (cross_mark @ '' Missing in WORKSPACE:'') ({|''01_a'', ''02_b''|} |-| {|''01_a''|})
      = [cross_mark @ '' Missing in WORKSPACE:'', ''   - 02_b'', []]" by code_simp
  have l2: "listing (cross_mark @ '' Missing in PULL-BUCKET:'')
      ({|''01_a'', ''02_b''|} |-| {|''01_a'', ''02_b'', ''03_c''|}) = []" by code_simp
  have l3: "listing (warning_sign @ '' Extra tracks in WORKSPACE (not in imports):'')
      ({|''01_a''|} |-| {|''01_a'', ''02_b''|}) = []" by code_simp
  have l4: "listing (warning_sign @ '' Extra tracks in PULL-BUCKET (not in imports):'')
      ({|''01_a'', ''02_b'', ''03_c''|} |-| {|''01_a'', ''02_b''|})
      = [warning_sign @ '' Extra tracks in PULL-BUCKET (not in imports):'', ''   - 03_c'', []]" by code_simp
  have s: "sorted_list_of_fset {|''01_a'', ''02_b''|} = [''01_a'', ''02_b'']" by code_simp
  have t: "track_findings fs [(''01_a'', ws)] ''02_b'' = []" by (simp add: track_findings_def)
  show ?thesis
    unfolding diff_report_findings Let_def w l1 l2 l3 l4 s by (simp add: t)
qed

lemma track_findings_empty:
  "map_of wd t = Some ws \<Longrightarrow>
   track_findings fs wd t = [] \<longleftrightarrow>
     path_exists fs (ws @ [''data'', ''lyrics.md''])
     \<and> path_exists fs (ws @ [''data'', ''metadata.json''])
     \<and> path_exists fs (ws @ [t @ ''.ipynb''])"
  by (simp add: track_findings_def)


text \<open>
  C4, as stated, fails: for the import, workspace and pull-bucket sets of the example the
  report has more than the two findings when the workspace of \<^verbatim>\<open>01_a\<close> lacks its
  metadata or its notebook. The three scans of the tree \<open>diff_tree_incomplete\<close> give
  exactly the sets of the example, and the report ends with an incomplete-workspace
  finding for \<^verbatim>\<open>01_a\<close>.
\<close>

theorem diff_example_counterexample:
  "load_import_tracks diff_tree_incomplete [''_imports'', ''S'', ''A''] = Inr {|''01_a'', ''02_b''|}
   \<and> list_tracks diff_tree_incomplete [''S'', ''_workspace'', ''A''] =
       Inr [(''01_a'', [''S'', ''_workspace'', ''A'', ''01_a''])]
   \<and> list_pullbucket_tracks diff_tree_incomplete [''S'', ''_pull-bucket'', ''A''] =
       Inr {|''01_a'', ''02_b'', ''03_c''|}
   \<and> diff_report diff_tree_incomplete {|''01_a'', ''02_b''|}
        [(''01_a'', [''S'', ''_workspace'', ''A'', ''01_a''])] {|''01_a'', ''02_b'', ''03_c''|} =
       [cross_mark @ '' Missing in WORKSPACE:'', ''   - 02_b'', [],
        warning_sign @ '' Extra tracks in PULL-BUCKET (not in imports):'', ''   - 03_c'', [],
        warning_sign @ '' Incomplete WORKSPACE for 01_a:'',
        ''   - missing metadata.json'', ''   - missing 01_a.ipynb'', []]
   \<and> diff_report diff_tree_incomplete {|''01_a'', ''02_b''|}
        [(''01_a'', [''S'', ''_workspace'', ''A'', ''01_a''])] {|''01_a'', ''02_b'', ''03_c''|} \<noteq>
       [cross_mark @ '' Missing in WORKSPACE:'', ''   - 02_b'', [],
        warning_sign @ '' Extra tracks in PULL-BUCKET (not in imports):'', ''   - 03_c'', []]"
  by code_simp

text \<open>
  C4, amended. The report is the four listings, in the order missing in workspace
  (import minus workspace), missing in pull-bucket (import minus pull-bucket), extra in
  workspace (workspace minus import), extra in pull-bucket (pull-bucket minus import),
  followed by the file check of every import track in sorted order, or the one line
  saying that the album is clean when all of that is empty. A listing is empty for the
  empty set and else the header, one line for each track of the set in sorted order
  without repetition, and an empty line. For the sets of the example the report is the
  listing of \<^verbatim>\<open>02_b\<close> as missing in the workspace, the listing of \<^verbatim>\<open>03_c\<close> as extra in the
  pull-bucket, and the file check of \<^verbatim>\<open>01_a\<close>, which reports nothing exactly when the
  workspace directory of \<^verbatim>\<open>01_a\<close> holds \<^verbatim>\<open>data/lyrics.md\<close>, \<^verbatim>\<open>data/metadata.json\<close> and
  \<^verbatim>\<open>01_a.ipynb\<close>.
\<close>

theorem diff_is_set_arithmetic:
  "diff_report fs import_set workspace_dict pullbucket_set =
     (let work_set = fset_of_list (map fst workspace_dict);
          findings =
            listing (cross_mark @ '' Missing in WORKSPACE:'') (import_set |-| work_set)
            @ listing (cross_mark @ '' Missing in PULL-BUCKET:'') (import_set |-| pullbucket_set)
            @ listing (warning_sign @ '' Extra tracks in WORKSPACE (not in imports):'') (work_set |-| import_set)
            @ listing (warning_sign @ '' Extra tracks in PULL-BUCKET (not in imports):'') (pullbucket_set |-| import_set)
            @ concat (map (track_findings fs workspace_dict) (sorted_list_of_fset import_set))
      in if findings = []
         then [check_mark @ '' No differences found '' @ em_dash @ '' album is clean.'' @ [CHR 0x0A]]
         else findings)
   \<and> listing header {||} = []
   \<and> (ts \<noteq> {||} \<longrightarrow>
        listing header ts = header # map (\<lambda>t. ''   - '' @ t) (sorted_list_of_fset ts) @ [[]]
        \<and> sorted (sorted_list_of_fset ts) \<and> distinct (sorted_list_of_fset ts)
        \<and> set (sorted_list_of_fset ts) = fset ts)
   \<and> diff_report fs {|''01_a'', ''02_b''|} [(''01_a'', ws)] {|''01_a'', ''02_b'', ''03_c''|} =
        [cross_mark @ '' Missing in WORKSPACE:'', ''   - 02_b'', [],
         warning_sign @ '' Extra tracks in PULL-BUCKET (not in imports):'', ''   - 03_c'', []]
        @ track_findings fs [(''01_a'', ws)] ''01_a''
   \<and> (track_findings fs [(''01_a'', ws)] ''01_a'' = [] \<longleftrightarrow>
        path_exists fs (ws @ [''data'', ''lyrics.md''])
        \<and> path_exists fs (ws @ [''data'', ''metadata.json''])
        \<and> path_exists fs (ws @ [''01_a'' @ ''.ipynb'']))"
proof -
  have e: "listing header {||} = []" by (simp add: listing_def)
  have i: "ts \<noteq> {||} \<longrightarrow>
        listing header ts = header # map (\<lambda>t. ''   - '' @ t) (sorted_list_of_fset ts) @ [[]]
        \<and> sorted (sorted_list_of_fset ts) \<and> distinct (sorted_list_of_fset ts)
        \<and> set (sorted_list_of_fset ts) = fset ts"
    using listing_items [of ts header] by (rule impI)
  have m: "map_of [(''01_a'', ws)] ''01_a'' = Some ws" by simp
  show ?thesis
    using diff_report_findings [of fs import_set workspace_dict pullbucket_set] e i
      example_report [of fs ws] track_findings_empty [OF m, of fs]
    apply -
    apply ((rule conjI, assumption)+)
    apply assumption
    done
qed

theorem diff_is_set_arithmetic_witness:
  "path_exists diff_tree_complete ([''S'', ''_workspace'', ''A'', ''01_a''] @ [''data'', ''lyrics.md''])
   \<and> path_exists diff_tree_complete ([''S'', ''_workspace'', ''A'', ''01_a''] @ [''data'', ''metadata.json''])
   \<and> path_exists diff_tree_complete ([''S'', ''_workspace'', ''A'', ''01_a''] @ [''01_a'' @ ''.ipynb''])
   \<and> {|''02_b''|} \<noteq> {||}
   \<and> listing ''h'' {|''02_b''|} = [''h'', ''   - 02_b'', []]
   \<and> diff_report diff_tree_complete {|''01_a'', ''02_b''|}
        [(''01_a'', [''S'', ''_workspace'', ''A'', ''01_a''])] {|''01_a'', ''02_b'', ''03_c''|} =
       [cross_mark @ '' Missing in WORKSPACE:'', ''   - 02_b'', [],
        warning_sign @ '' Extra tracks in PULL-BUCKET (not in imports):'', ''   - 03_c'', []]"
proof -
  have x: "path_exists diff_tree_complete ([''S'', ''_workspace'', ''A'', ''01_a''] @ [''data'', ''lyrics.md''])"
    "path_exists diff_tree_complete ([''S'', ''_workspace'', ''A'', ''01_a''] @ [''data'', ''metadata.json''])"
    "path_exists diff_tree_complete ([''S'', ''_workspace'', ''A'', ''01_a''] @ [''01_a'' @ ''.ipynb''])"
    by code_simp+
  have n: "{|''02_b''|} \<noteq> ({||} :: string fset)" by simp
  have s: "sorted_list_of_fset {|''02_b''|} = [''02_b'']" by code_simp
  note t = diff_is_set_arithmetic [where fs = diff_tree_complete
      and ws = "[''S'', ''_workspace'', ''A'', ''01_a'']" and ts = "{|''02_b''|}" and header = "''h''"]
  note li = t [THEN conjunct2, THEN conjunct2, THEN conjunct1, THEN mp, OF n]
  note ex = t [THEN conjunct2, THEN conjunct2, THEN conjunct2, THEN conjunct1]
  note em = t [THEN conjunct2, THEN conjunct2, THEN conjunct2, THEN conjunct2]
  from li s have l: "listing ''h'' {|''02_b''|} = [''h'', ''   - 02_b'', []]" by simp
  from em x have f: "track_findings diff_tree_complete
      [(''01_a'', [''S'', ''_workspace'', ''A'', ''01_a''])] ''01_a'' = []" by simp
  note ex
  with f have r: "diff_report diff_tree_complete {|''01_a'', ''02_b''|}
        [(''01_a'', [''S'', ''_workspace'', ''A'', ''01_a''])] {|''01_a'', ''02_b'', ''03_c''|} =
       [cross_mark @ '' Missing in WORKSPACE:'', ''   - 02_b'', [],
        warning_sign @ '' Extra tracks in PULL-BUCKET (not in imports):'', ''   - 03_c'', []]"
    by simp
  from x n l r show ?thesis by (intro conjI)
qed

text \<open>
  C10. With the workspace dictionary that the scan \<^verbatim>\<open>list_tracks\<close> returns for the same
  file system, the file check of a track never appends the line for a missing
  \<^verbatim>\<open>lyrics.md\<close>: what it appends to the report is nothing, or the header of the track,
  the line for a missing \<^verbatim>\<open>metadata.json\<close>, the line for a missing notebook, or both,
  and an empty line.
\<close>

theorem diff_never_reports_missing_lyrics:
  assumes "list_tracks fs workspace_root = Inr workspace_dict"
  shows "\<exists>lines. append_track_check fs workspace_dict report t = report @ lines
           \<and> ''   - missing lyrics.md'' \<notin> set lines
           \<and> set lines \<subseteq> {warning_sign @ '' Incomplete WORKSPACE for '' @ t @ '':'',
                          ''   - missing metadata.json'', ''   - missing '' @ t @ ''.ipynb'', []}"
proof -
  have a: "append_track_check fs workspace_dict report t = report @ track_findings fs workspace_dict t"
    by (rule append_track_check_findings)
  have b: "''   - missing lyrics.md'' \<notin> set (track_findings fs workspace_dict t)"
    using assms by (rule no_missing_lyrics)
  have c: "set (track_findings fs workspace_dict t)
             \<subseteq> {warning_sign @ '' Incomplete WORKSPACE for '' @ t @ '':'',
                          ''   - missing metadata.json'', ''   - missing '' @ t @ ''.ipynb'', []}"
    by (cases "map_of workspace_dict t") (auto simp: track_findings_scanned [OF assms])
  from a b c show ?thesis by blast
qed

theorem diff_never_reports_missing_lyrics_witness:
  "list_tracks diff_tree_incomplete [''S'', ''_workspace'', ''A''] =
       Inr [(''01_a'', [''S'', ''_workspace'', ''A'', ''01_a''])]
   \<and> append_track_check diff_tree_incomplete [(''01_a'', [''S'', ''_workspace'', ''A'', ''01_a''])] [] ''01_a'' =
       [warning_sign @ '' Incomplete WORKSPACE for 01_a:'',
        ''   - missing metadata.json'', ''   - missing 01_a.ipynb'', []]
   \<and> ''   - missing lyrics.md'' \<notin> set (append_track_check diff_tree_incomplete
         [(''01_a'', [''S'', ''_workspace'', ''A'', ''01_a''])] [] ''01_a'')"
proof -
  have h: "list_tracks diff_tree_incomplete [''S'', ''_workspace'', ''A''] =
       Inr [(''01_a'', [''S'', ''_workspace'', ''A'', ''01_a''])]"
    by code_simp
  have v: "append_track_check diff_tree_incomplete [(''01_a'', [''S'', ''_workspace'', ''A'', ''01_a''])] [] ''01_a'' =
       [warning_sign @ '' Incomplete WORKSPACE for 01_a:'',
        ''   - missing metadata.json'', ''   - missing 01_a.ipynb'', []]"
    by code_simp
  from diff_never_reports_missing_lyrics [OF h, of "[]" "''01_a''"]
  have "''   - missing lyrics.md'' \<notin> set (append_track_check diff_tree_incomplete
         [(''01_a'', [''S'', ''_workspace'', ''A'', ''01_a''])] [] ''01_a'')"
    by auto
  with h v show ?thesis by (intro conjI)
qed

subsection \<open>The sync tool's choice of an import file\<close>
















subsection \<open>Well-formed trees: when directories can be made and files copied\<close>

lemma no_file_on_iff:
  "no_file_on fs p \<longleftrightarrow> (\<forall>q. prefix q p \<longrightarrow> (\<forall>b. lookup fs q \<noteq> Some (File b)))"
  by (auto simp: no_file_on_def list_all_iff split: option.splits node.splits)

lemma walk_snoc:
  "walk fs pre (xs @ [x]) =
     (case walk fs pre xs of
        Some e \<Rightarrow> Some e
      | None \<Rightarrow> (case lookup fs (pre @ xs @ [x]) of
                   None \<Rightarrow> Some FileNotFoundError
                 | Some (File b) \<Rightarrow> Some NotADirectoryError
                 | Some Dir \<Rightarrow> None))"
proof (induction xs arbitrary: pre)
  case Nil
  show ?case by (simp split: option.splits node.splits)
next
  case (Cons a xs)
  show ?case
    using Cons.IH [of "pre @ [a]"] by (simp split: option.splits node.splits)
qed

lemma dir_error_snoc:
  "dir_error fs (xs @ [x]) =
     (case dir_error fs xs of
        Some e \<Rightarrow> Some e
      | None \<Rightarrow> (case lookup fs (xs @ [x]) of
                   None \<Rightarrow> Some FileNotFoundError
                 | Some (File b) \<Rightarrow> Some NotADirectoryError
                 | Some Dir \<Rightarrow> None))"
  by (simp add: dir_error_def walk_snoc cong: option.case_cong)

lemma dir_error_Nil: "dir_error fs [] = None"
  by (simp add: dir_error_def)

lemma wf_parent: "wf_fs fs \<Longrightarrow> lookup fs p \<noteq> None \<Longrightarrow> p \<noteq> [] \<and> is_dir fs (butlast p)"
proof -
  assume w: "wf_fs fs" and l: "lookup fs p \<noteq> None"
  from l have "p \<in> fst ` set fs" by (simp add: lookup_def map_of_eq_None_iff)
  with w show ?thesis by (auto simp: wf_fs_def)
qed

lemma wf_dir_error: "wf_fs fs \<Longrightarrow> is_dir fs d \<Longrightarrow> dir_error fs d = None"
proof (induction d rule: rev_induct)
  case Nil
  show ?case by (rule dir_error_Nil)
next
  case (snoc x xs)
  from snoc.prems(2) have l: "lookup fs (xs @ [x]) = Some Dir" by (simp add: is_dir_def)
  then have "lookup fs (xs @ [x]) \<noteq> None" by simp
  with snoc.prems(1) have "is_dir fs (butlast (xs @ [x]))" using wf_parent by blast
  then have "is_dir fs xs" by simp
  with snoc have "dir_error fs xs = None" by simp
  with l show ?case by (simp add: dir_error_snoc)
qed

lemma dir_error_is_dir: "dir_error fs d = None \<Longrightarrow> is_dir fs d"
proof (cases d rule: rev_cases)
  case Nil
  then show ?thesis by (simp add: is_dir_def)
next
  case (snoc xs x)
  assume "dir_error fs d = None"
  with snoc show ?thesis
    by (auto simp: dir_error_snoc is_dir_def split: option.splits node.splits)
qed

lemma no_file_on_prefix: "no_file_on fs p \<Longrightarrow> prefix q p \<Longrightarrow> no_file_on fs q"
  unfolding no_file_on_iff by (blast intro: prefix_order.trans)

lemma no_file_dir_error:
  "no_file_on fs d \<Longrightarrow> dir_error fs d = None \<or> dir_error fs d = Some FileNotFoundError"
proof (induction d rule: rev_induct)
  case Nil
  show ?case by (simp add: dir_error_Nil)
next
  case (snoc x xs)
  have "prefix xs (xs @ [x])" by simp
  with snoc.prems have "no_file_on fs xs" by (rule no_file_on_prefix)
  with snoc.IH have i: "dir_error fs xs = None \<or> dir_error fs xs = Some FileNotFoundError" by simp
  from snoc.prems have "\<forall>b. lookup fs (xs @ [x]) \<noteq> Some (File b)"
    by (simp add: no_file_on_iff)
  with i show ?case
    by (auto simp: dir_error_snoc split: option.splits node.splits)
qed

lemma keys_fs_update: "fst ` set (fs_update p n fs) = insert p (fst ` set fs)"
  by (auto simp: fs_update_def)

lemma wf_fs_update:
  assumes w: "wf_fs fs" and p: "p \<noteq> []" and d: "is_dir fs (butlast p)"
    and n: "n = Dir \<or> lookup fs p \<noteq> Some Dir"
  shows "wf_fs (fs_update p n fs)"
  unfolding wf_fs_def
proof
  fix q
  assume "q \<in> set (map fst (fs_update p n fs))"
  then have q: "q = p \<or> q \<in> fst ` set fs" using keys_fs_update [of p n fs] by auto
  have par: "q \<noteq> [] \<and> is_dir fs (butlast q)"
  proof (cases "q = p")
    case True
    with p d show ?thesis by simp
  next
    case False
    with q have "q \<in> fst ` set fs" by simp
    with w show ?thesis by (auto simp: wf_fs_def)
  qed
  have "is_dir (fs_update p n fs) (butlast q)"
  proof (cases "butlast q = p")
    case False
    with par show ?thesis by (simp add: is_dir_def lookup_fs_update)
  next
    case True
    with par p have "lookup fs p = Some Dir" by (simp add: is_dir_def)
    with n have "n = Dir" by simp
    with True show ?thesis by (simp add: is_dir_def lookup_fs_update)
  qed
  with par show "q \<noteq> [] \<and> is_dir (fs_update p n fs) (butlast q)" by simp
qed

lemma os_mkdir_wf:
  assumes w: "wf_fs fs" and nf: "no_file_on fs p"
  shows "(\<exists>fs'. os_mkdir fs p = Inr fs' \<and> wf_fs fs' \<and> is_dir fs' p \<and> is_dir fs (butlast p))
         \<or> (os_mkdir fs p = Inl FileExistsError \<and> is_dir fs p)
         \<or> (os_mkdir fs p = Inl FileNotFoundError \<and> p \<noteq> [])"
proof (cases "p = []")
  case True
  then show ?thesis by (simp add: os_mkdir_def is_dir_def)
next
  case False
  have "prefix (butlast p) p" by (rule prefixeq_butlast)
  with nf have "no_file_on fs (butlast p)" by (rule no_file_on_prefix)
  then have de: "dir_error fs (butlast p) = None \<or> dir_error fs (butlast p) = Some FileNotFoundError"
    by (rule no_file_dir_error)
  from nf have nfp: "\<forall>b. lookup fs p \<noteq> Some (File b)" by (simp add: no_file_on_iff)
  show ?thesis
  proof (cases "dir_error fs (butlast p)")
    case (Some e)
    with de have "e = FileNotFoundError" by simp
    with Some False show ?thesis by (simp add: os_mkdir_def)
  next
    case None
    then have d: "is_dir fs (butlast p)" by (rule dir_error_is_dir)
    show ?thesis
    proof (cases "lookup fs p")
      case n: None
      from w False d have "wf_fs (fs_update p Dir fs)" by (rule wf_fs_update) simp
      with None n False d show ?thesis
        by (simp add: os_mkdir_def is_dir_def lookup_fs_update)
    next
      case (Some nd)
      with nfp have "nd = Dir" by (cases nd) auto
      with Some None False show ?thesis by (simp add: os_mkdir_def is_dir_def)
    qed
  qed
qed

lemma adds_dirs_no_file:
  assumes a: "adds_dirs p fs fs'" and n: "no_file_on fs r"
  shows "no_file_on fs' r"
  unfolding no_file_on_iff
proof (intro allI impI)
  fix q b
  assume q: "prefix q r"
  show "lookup fs' q \<noteq> Some (File b)"
  proof
    assume f: "lookup fs' q = Some (File b)"
    from n q have nf: "lookup fs q \<noteq> Some (File b)" by (simp add: no_file_on_iff)
    with f have "lookup fs' q \<noteq> lookup fs q" by simp
    with a have "lookup fs' q = Some Dir" using adds_dirs_at by blast
    with f show False by simp
  qed
qed

lemma mkdir_exist_ok_wf:
  assumes w: "wf_fs fs" and nf: "no_file_on fs p" and d: "is_dir fs (butlast p)"
  shows "fst (mkdir_exist_ok fs p) = None \<and> wf_fs (snd (mkdir_exist_ok fs p))
         \<and> is_dir (snd (mkdir_exist_ok fs p)) p"
proof -
  from w d have de: "dir_error fs (butlast p) = None" by (rule wf_dir_error)
  from os_mkdir_wf [OF w nf] show ?thesis
  proof (elim disjE exE conjE)
    fix fs'
    assume "os_mkdir fs p = Inr fs'" "wf_fs fs'" "is_dir fs' p"
    then show ?thesis by (simp add: mkdir_exist_ok_def)
  next
    assume "os_mkdir fs p = Inl FileExistsError" "is_dir fs p"
    with w show ?thesis by (simp add: mkdir_exist_ok_def)
  next
    assume "os_mkdir fs p = Inl FileNotFoundError" "p \<noteq> []"
    with de show ?thesis by (simp add: os_mkdir_def split: if_splits)
  qed
qed

lemma mkdir_p_ok:
  "wf_fs fs \<Longrightarrow> no_file_on fs p \<Longrightarrow>
   fst (mkdir_p fs p) = None \<and> wf_fs (snd (mkdir_p fs p)) \<and> is_dir (snd (mkdir_p fs p)) p"
proof (induction fs p rule: mkdir_p.induct)
  case (1 fs p)
  from os_mkdir_wf [OF "1.prems"] show ?case
  proof (elim disjE exE conjE)
    fix fs'
    assume "os_mkdir fs p = Inr fs'" "wf_fs fs'" "is_dir fs' p"
    then show ?thesis by (simp add: mkdir_p.simps [of fs p])
  next
    assume "os_mkdir fs p = Inl FileExistsError" "is_dir fs p"
    with "1.prems" show ?thesis by (simp add: mkdir_p.simps [of fs p])
  next
    assume o: "os_mkdir fs p = Inl FileNotFoundError" and ne: "p \<noteq> []"
    then obtain n ns where p: "p = n # ns" by (cases p) auto
    have "prefix (butlast p) p" by (rule prefixeq_butlast)
    with "1.prems"(2) have nb: "no_file_on fs (butlast p)" by (rule no_file_on_prefix)
    obtain r fs1 where m: "mkdir_p fs (butlast (n # ns)) = (r, fs1)" by force
    from "1.IH" [OF o refl p "1.prems"(1)] nb p m
    have i: "r = None" "wf_fs fs1" "is_dir fs1 (butlast p)" by simp_all
    have "adds_dirs (butlast p) fs (snd (mkdir_p fs (butlast p)))" by (rule mkdir_p_adds)
    with m p have "adds_dirs (butlast p) fs fs1" by simp
    then have "no_file_on fs1 p" using "1.prems"(2) by (rule adds_dirs_no_file)
    with i have k: "fst (mkdir_exist_ok fs1 p) = None \<and> wf_fs (snd (mkdir_exist_ok fs1 p))
         \<and> is_dir (snd (mkdir_exist_ok fs1 p)) p"
      by (intro mkdir_exist_ok_wf)
    have "mkdir_p fs p = mkdir_exist_ok fs1 p"
      using o m i(1) unfolding p by (simp add: mkdir_p.simps [of fs "n # ns"])
    with k show ?thesis by simp
  qed
qed

lemma io_mkdir_p_ok:
  assumes "wf_fs (files w)" and "no_file_on (files w) p"
  shows "\<exists>fs'. io_mkdir_p p w = (Inr (), w\<lparr>files := fs'\<rparr>) \<and> wf_fs fs' \<and> is_dir fs' p
           \<and> adds_dirs p (files w) fs'"
proof -
  obtain r fs' where m: "mkdir_p (files w) p = (r, fs')" by force
  from mkdir_p_ok [OF assms] m have "r = None" "wf_fs fs'" "is_dir fs' p" by simp_all
  moreover from mkdir_p_adds [of p "files w"] m have "adds_dirs p (files w) fs'" by simp
  ultimately have "io_mkdir_p p w = (Inr (), w\<lparr>files := fs'\<rparr>) \<and> wf_fs fs' \<and> is_dir fs' p
           \<and> adds_dirs p (files w) fs'"
    using m by (simp add: io_mkdir_p_def)
  then show ?thesis by (rule exI)
qed

lemma io_mkdir_p_adds:
  "adds_dirs p (files w) (files (snd (io_mkdir_p p w))) \<and> out (snd (io_mkdir_p p w)) = out w"
proof -
  obtain r fs' where m: "mkdir_p (files w) p = (r, fs')" by force
  from mkdir_p_adds [of p "files w"] m have "adds_dirs p (files w) fs'" by simp
  with m show ?thesis by (cases r) (simp_all add: io_mkdir_p_def)
qed

lemma read_bytes_ok: "wf_fs fs \<Longrightarrow> lookup fs p = Some (File b) \<Longrightarrow> read_bytes fs p = Inr b"
proof -
  assume w: "wf_fs fs" and l: "lookup fs p = Some (File b)"
  then have "lookup fs p \<noteq> None" by simp
  with w have p: "p \<noteq> []" "is_dir fs (butlast p)" using wf_parent by blast+
  with w have "dir_error fs (butlast p) = None" by (simp add: wf_dir_error)
  with p l show ?thesis by (simp add: read_bytes_def)
qed

lemma write_bytes_ok:
  "wf_fs fs \<Longrightarrow> p \<noteq> [] \<Longrightarrow> is_dir fs (butlast p) \<Longrightarrow> lookup fs p \<noteq> Some Dir \<Longrightarrow>
   write_bytes fs p b = Inr (fs_update p (File b) fs)"
  by (cases "lookup fs p") (auto simp: write_bytes_def wf_dir_error split: node.splits)



lemma adds_dirs_same:
  "adds_dirs p fs fs' \<Longrightarrow> \<not> prefix q p \<Longrightarrow> lookup fs' q = lookup fs q"
  using adds_dirs_at [of p fs fs' q] by (cases "lookup fs' q = lookup fs q") simp_all











subsection \<open>A missing import directory\<close>

lemma only_dirs_added_at:
  "only_dirs_added fs fs' \<Longrightarrow> lookup fs' q \<noteq> lookup fs q \<Longrightarrow>
     lookup fs q = None \<and> lookup fs' q = Some Dir"
  unfolding only_dirs_added_def by (drule spec [of _ q]) simp

lemma only_dirs_added_refl: "only_dirs_added fs fs"
  by (simp add: only_dirs_added_def)

lemma adds_dirs_only: "adds_dirs p fs fs' \<Longrightarrow> only_dirs_added fs fs'"
  unfolding only_dirs_added_def
proof (intro allI impI)
  fix q
  assume "adds_dirs p fs fs'" and "lookup fs' q \<noteq> lookup fs q"
  then show "lookup fs q = None \<and> lookup fs' q = Some Dir" using adds_dirs_at by blast
qed

lemma only_dirs_added_trans:
  assumes a: "only_dirs_added a b" and b: "only_dirs_added b c"
  shows "only_dirs_added a c"
  unfolding only_dirs_added_def
proof (intro allI impI)
  fix q
  assume d: "lookup c q \<noteq> lookup a q"
  show "lookup a q = None \<and> lookup c q = Some Dir"
  proof (cases "lookup b q = lookup a q")
    case True
    with d have "lookup c q \<noteq> lookup b q" by simp
    with b have "lookup b q = None \<and> lookup c q = Some Dir" by (rule only_dirs_added_at)
    with True show ?thesis by simp
  next
    case False
    with a have x: "lookup a q = None \<and> lookup b q = Some Dir" by (rule only_dirs_added_at)
    show ?thesis
    proof (cases "lookup c q = lookup b q")
      case True
      with x show ?thesis by simp
    next
      case False
      with b have "lookup b q = None \<and> lookup c q = Some Dir" by (rule only_dirs_added_at)
      with x show ?thesis by simp
    qed
  qed
qed

lemma album_spec_paths:
  assumes "spec \<in> set ALBUM_SPECS"
  shows "\<not> prefix (base_dir @ import_dir spec) (workspace_album_dir spec base_dir)"
    and "\<not> prefix (base_dir @ import_dir spec) (pull_album_dir spec base_dir)"
  using assms by (auto simp: ALBUM_SPECS_def workspace_album_dir_def pull_album_dir_def)

lemma album_dirs_made:
  assumes w: "wf_fs (files w)"
    and n1: "no_file_on (files w) (workspace_album_dir spec base_dir)"
    and n2: "no_file_on (files w) (pull_album_dir spec base_dir)"
  shows "\<exists>fs2. bind_io (io_mkdir_p (workspace_album_dir spec base_dir))
                  (\<lambda>u. io_mkdir_p (pull_album_dir spec base_dir)) w = (Inr (), w\<lparr>files := fs2\<rparr>)
           \<and> wf_fs fs2 \<and> is_dir fs2 (pull_album_dir spec base_dir) \<and> only_dirs_added (files w) fs2
           \<and> (\<forall>q. \<not> prefix q (workspace_album_dir spec base_dir) \<and> \<not> prefix q (pull_album_dir spec base_dir)
                 \<longrightarrow> lookup fs2 q = lookup (files w) q)"
proof -
  let ?ws = "workspace_album_dir spec base_dir"
  let ?pb = "pull_album_dir spec base_dir"
  from io_mkdir_p_ok [OF w n1] obtain fs1 where
    m1: "io_mkdir_p ?ws w = (Inr (), w\<lparr>files := fs1\<rparr>)" and w1: "wf_fs fs1"
    and a1: "adds_dirs ?ws (files w) fs1" by blast
  from a1 n2 have n2': "no_file_on fs1 ?pb" by (rule adds_dirs_no_file)
  from w1 n2' have "wf_fs (files (w\<lparr>files := fs1\<rparr>))" "no_file_on (files (w\<lparr>files := fs1\<rparr>)) ?pb"
    by simp_all
  from io_mkdir_p_ok [OF this] obtain fs2 where
    m2: "io_mkdir_p ?pb (w\<lparr>files := fs1\<rparr>) = (Inr (), w\<lparr>files := fs2\<rparr>)" and w2: "wf_fs fs2"
    and d2: "is_dir fs2 ?pb" and a2: "adds_dirs ?pb fs1 fs2" by auto
  from a1 a2 have o: "only_dirs_added (files w) fs2"
    by (blast intro: only_dirs_added_trans adds_dirs_only)
  have s: "\<forall>q. \<not> prefix q ?ws \<and> \<not> prefix q ?pb \<longrightarrow> lookup fs2 q = lookup (files w) q"
  proof (intro allI impI)
    fix q
    assume "\<not> prefix q ?ws \<and> \<not> prefix q ?pb"
    then show "lookup fs2 q = lookup (files w) q"
      using adds_dirs_same [OF a1, of q] adds_dirs_same [OF a2, of q] by simp
  qed
  from m1 m2 have "bind_io (io_mkdir_p ?ws) (\<lambda>u. io_mkdir_p ?pb) w = (Inr (), w\<lparr>files := fs2\<rparr>)"
    by (simp add: bind_io_def)
  with w2 d2 o s show ?thesis by blast
qed

lemma build_workspaces_bind:
  "build_workspaces_for_album lib spec base_dir template_root w =
      bind_io (bind_io (io_mkdir_p (workspace_album_dir spec base_dir))
                  (\<lambda>u. io_mkdir_p (pull_album_dir spec base_dir)))
        (\<lambda>u. bind_io (io_test (\<lambda>fs. path_exists fs (base_dir @ import_dir spec))) (\<lambda>e.
           if \<not> e then
             bind_io (print (WarnImportDir (base_dir @ import_dir spec))) (\<lambda>u. ret [])
           else
             bind_io (io_read (\<lambda>fs. Inr (rglob_sorted fs (base_dir @ import_dir spec) ''*.md''))) (\<lambda>md_paths.
               build_loop (build_track lib spec base_dir template_root) md_paths []))) w"
  by (simp add: build_workspaces_for_album_def bind_io_def split: prod.splits sum.splits)

lemma mkdir_p_existing: "wf_fs fs \<Longrightarrow> is_dir fs p \<Longrightarrow> mkdir_p fs p = (None, fs)"
proof (cases "p = []")
  case True
  then show ?thesis by (simp add: mkdir_p.simps [of fs "[]"] os_mkdir_def is_dir_def)
next
  case False
  assume w: "wf_fs fs" and d: "is_dir fs p"
  with False have l: "lookup fs p = Some Dir" by (simp add: is_dir_def)
  then have "lookup fs p \<noteq> None" by simp
  with w have "is_dir fs (butlast p)" using wf_parent by blast
  with w have "dir_error fs (butlast p) = None" by (rule wf_dir_error)
  with False l d show ?thesis by (simp add: mkdir_p.simps [of fs p] os_mkdir_def)
qed

lemma missing_import_build:
  assumes s: "spec \<in> set ALBUM_SPECS" and w: "wf_fs (files w)"
    and n1: "no_file_on (files w) (workspace_album_dir spec base_dir)"
    and n2: "no_file_on (files w) (pull_album_dir spec base_dir)"
    and a: "\<not> path_exists (files w) (base_dir @ import_dir spec)"
  shows "\<exists>fs2. build_workspaces_for_album lib spec base_dir template_root w =
           (Inr [], w\<lparr>files := fs2, out := out w @ [WarnImportDir (base_dir @ import_dir spec)]\<rparr>)
         \<and> wf_fs fs2 \<and> is_dir fs2 (pull_album_dir spec base_dir) \<and> only_dirs_added (files w) fs2"
proof -
  let ?ws = "workspace_album_dir spec base_dir"
  let ?pb = "pull_album_dir spec base_dir"
  let ?im = "base_dir @ import_dir spec"
  from album_dirs_made [OF w n1 n2] obtain fs2 where
    d: "bind_io (io_mkdir_p ?ws) (\<lambda>u. io_mkdir_p ?pb) w = (Inr (), w\<lparr>files := fs2\<rparr>)"
    and w2: "wf_fs fs2" and d2: "is_dir fs2 ?pb" and o: "only_dirs_added (files w) fs2"
    and sm: "\<forall>q. \<not> prefix q ?ws \<and> \<not> prefix q ?pb \<longrightarrow> lookup fs2 q = lookup (files w) q"
    by blast
  from sm album_spec_paths [OF s, of base_dir] have "lookup fs2 ?im = lookup (files w) ?im" by simp
  with a have a2: "\<not> path_exists fs2 ?im" by (simp add: path_exists_def)
  from d a2 have b: "build_workspaces_for_album lib spec base_dir template_root w =
           (Inr [], w\<lparr>files := fs2, out := out w @ [WarnImportDir ?im]\<rparr>)"
    by (simp add: build_workspaces_bind bind_io_def io_test_def print_def ret_def)
  with w2 d2 o show ?thesis by blast
qed

lemma missing_import_main:
  assumes s: "spec \<in> set ALBUM_SPECS" and w: "wf_fs (files w)"
    and n1: "no_file_on (files w) (workspace_album_dir spec base_dir)"
    and n2: "no_file_on (files w) (pull_album_dir spec base_dir)"
    and a: "\<not> path_exists (files w) (base_dir @ import_dir spec)"
  shows "fst (main_album lib base_dir spec w) = Inr ()
     \<and> out (snd (main_album lib base_dir spec w)) =
         out w @ [AlbumLine (sku spec) (workspace_album spec), WarnImportDir (base_dir @ import_dir spec)]
     \<and> only_dirs_added (files w) (files (snd (main_album lib base_dir spec w)))"
proof -
  let ?wa = "w\<lparr>out := out w @ [AlbumLine (sku spec) (workspace_album spec)]\<rparr>"
  have "wf_fs (files ?wa)" "no_file_on (files ?wa) (workspace_album_dir spec base_dir)"
    "no_file_on (files ?wa) (pull_album_dir spec base_dir)"
    "\<not> path_exists (files ?wa) (base_dir @ import_dir spec)"
    using w n1 n2 a by simp_all
  from missing_import_build [OF s this, of lib "base_dir @ [''_templates'', ''track'']"]
  obtain fs2 where
    b: "build_workspaces_for_album lib spec base_dir (base_dir @ [''_templates'', ''track'']) ?wa =
           (Inr [], ?wa\<lparr>files := fs2, out := out ?wa @ [WarnImportDir (base_dir @ import_dir spec)]\<rparr>)"
    and w2: "wf_fs fs2" and d2: "is_dir fs2 (pull_album_dir spec base_dir)"
    and o: "only_dirs_added (files w) fs2" by auto
  from w2 d2 have m: "mkdir_p fs2 (pull_album_dir spec base_dir) = (None, fs2)" by (rule mkdir_p_existing)
  have "main_album lib base_dir spec w =
      (Inr (), ?wa\<lparr>files := fs2, out := out ?wa @ [WarnImportDir (base_dir @ import_dir spec)]\<rparr>)"
    using b m
    by (simp add: main_album_def bind_io_def print_def build_pull_bucket_for_album_def io_mkdir_p_def)
  with o show ?thesis by simp
qed


text \<open>
  C9. For an album of \<^verbatim>\<open>ALBUM_SPECS\<close> whose import directory does not exist, in a
  well-formed tree where no regular file is in the way of the album's workspace and
  pull-bucket directories (so that they can be made): the album builder returns the empty
  track list, having printed the warning and added nothing but directories; \<^verbatim>\<open>main\<close>'s
  step for the album returns without an exception, having printed the album line and
  the warning; and the loop of \<^verbatim>\<open>main\<close> goes on with the remaining albums from the
  state that step leaves.
\<close>

theorem missing_import_dir_is_not_fatal:
  "spec \<in> set ALBUM_SPECS \<and> wf_fs (files w)
   \<and> no_file_on (files w) (workspace_album_dir spec base_dir)
   \<and> no_file_on (files w) (pull_album_dir spec base_dir)
   \<and> \<not> path_exists (files w) (base_dir @ import_dir spec) \<longrightarrow>
     fst (build_workspaces_for_album lib spec base_dir template_root w) = Inr []
     \<and> out (snd (build_workspaces_for_album lib spec base_dir template_root w)) =
         out w @ [WarnImportDir (base_dir @ import_dir spec)]
     \<and> (\<forall>q. lookup (files (snd (build_workspaces_for_album lib spec base_dir template_root w))) q
              \<noteq> lookup (files w) q \<longrightarrow>
            lookup (files w) q = None
            \<and> lookup (files (snd (build_workspaces_for_album lib spec base_dir template_root w))) q = Some Dir)
     \<and> fst (main_album lib base_dir spec w) = Inr ()
     \<and> out (snd (main_album lib base_dir spec w)) =
         out w @ [AlbumLine (sku spec) (workspace_album spec), WarnImportDir (base_dir @ import_dir spec)]
     \<and> for_each (main_album lib base_dir) (spec # rest) w =
         for_each (main_album lib base_dir) rest (snd (main_album lib base_dir spec w))"
proof
  assume h: "spec \<in> set ALBUM_SPECS \<and> wf_fs (files w)
   \<and> no_file_on (files w) (workspace_album_dir spec base_dir)
   \<and> no_file_on (files w) (pull_album_dir spec base_dir)
   \<and> \<not> path_exists (files w) (base_dir @ import_dir spec)"
  then have s: "spec \<in> set ALBUM_SPECS" and w: "wf_fs (files w)"
    and n1: "no_file_on (files w) (workspace_album_dir spec base_dir)"
    and n2: "no_file_on (files w) (pull_album_dir spec base_dir)"
    and a: "\<not> path_exists (files w) (base_dir @ import_dir spec)" by simp_all
  from missing_import_build [OF s w n1 n2 a, of lib template_root] obtain fs2 where
    b: "build_workspaces_for_album lib spec base_dir template_root w =
           (Inr [], w\<lparr>files := fs2, out := out w @ [WarnImportDir (base_dir @ import_dir spec)]\<rparr>)"
    and o: "only_dirs_added (files w) fs2" by blast
  from b have b1: "fst (build_workspaces_for_album lib spec base_dir template_root w) = Inr []"
    and b2: "out (snd (build_workspaces_for_album lib spec base_dir template_root w)) =
         out w @ [WarnImportDir (base_dir @ import_dir spec)]"
    and b3: "files (snd (build_workspaces_for_album lib spec base_dir template_root w)) = fs2"
    by simp_all
  from o b3 have b4: "\<forall>q. lookup (files (snd (build_workspaces_for_album lib spec base_dir template_root w))) q
              \<noteq> lookup (files w) q \<longrightarrow>
            lookup (files w) q = None
            \<and> lookup (files (snd (build_workspaces_for_album lib spec base_dir template_root w))) q = Some Dir"
    by (simp add: only_dirs_added_def)
  note m = missing_import_main [OF s w n1 n2 a, of lib]
  from m have m1: "fst (main_album lib base_dir spec w) = Inr ()" by (rule conjunct1)
  from m have m2: "out (snd (main_album lib base_dir spec w)) =
         out w @ [AlbumLine (sku spec) (workspace_album spec), WarnImportDir (base_dir @ import_dir spec)]"
    by (elim conjE)
  from m1 have m3: "for_each (main_album lib base_dir) (spec # rest) w =
         for_each (main_album lib base_dir) rest (snd (main_album lib base_dir spec w))"
    by (cases "main_album lib base_dir spec w") simp
  from b1 b2 b4 m1 m2 m3
  show "fst (build_workspaces_for_album lib spec base_dir template_root w) = Inr []
     \<and> out (snd (build_workspaces_for_album lib spec base_dir template_root w)) =
         out w @ [WarnImportDir (base_dir @ import_dir spec)]
     \<and> (\<forall>q. lookup (files (snd (build_workspaces_for_album lib spec base_dir template_root w))) q
              \<noteq> lookup (files w) q \<longrightarrow>
            lookup (files w) q = None
            \<and> lookup (files (snd (build_workspaces_for_album lib spec base_dir template_root w))) q = Some Dir)
     \<and> fst (main_album lib base_dir spec w) = Inr ()
     \<and> out (snd (main_album lib base_dir spec w)) =
         out w @ [AlbumLine (sku spec) (workspace_album spec), WarnImportDir (base_dir @ import_dir spec)]
     \<and> for_each (main_album lib base_dir) (spec # rest) w =
         for_each (main_album lib base_dir) rest (snd (main_album lib base_dir spec w))"
    apply -
    apply ((rule conjI, assumption)+)
    apply assumption
    done
qed

theorem missing_import_dir_is_not_fatal_witness:
  "hd ALBUM_SPECS \<in> set ALBUM_SPECS \<and> wf_fs notebook_tree_absent
   \<and> no_file_on notebook_tree_absent (workspace_album_dir (hd ALBUM_SPECS) [''repo''])
   \<and> no_file_on notebook_tree_absent (pull_album_dir (hd ALBUM_SPECS) [''repo''])
   \<and> \<not> path_exists notebook_tree_absent ([''repo''] @ import_dir (hd ALBUM_SPECS))
   \<and> fst (build_workspaces_for_album example_lib (hd ALBUM_SPECS) [''repo''] [''repo'', ''_templates'', ''track'']
            \<lparr>files = notebook_tree_absent, out = []\<rparr>) = Inr []
   \<and> out (snd (main_album example_lib [''repo''] (hd ALBUM_SPECS) \<lparr>files = notebook_tree_absent, out = []\<rparr>))
       = [AlbumLine ''HAWK-ARS-01'' ''01_Singles'',
          WarnImportDir [''repo'', ''_imports'', ''HAWK-ARS-00'', ''01_singles'']]
   \<and> fst (for_each (main_album example_lib [''repo'']) ALBUM_SPECS \<lparr>files = notebook_tree_absent, out = []\<rparr>)
       = Inr ()"
proof -
  have h: "hd ALBUM_SPECS \<in> set ALBUM_SPECS
     \<and> wf_fs (files \<lparr>files = notebook_tree_absent, out = ([] :: build_line list)\<rparr>)
     \<and> no_file_on (files \<lparr>files = notebook_tree_absent, out = ([] :: build_line list)\<rparr>)
         (workspace_album_dir (hd ALBUM_SPECS) [''repo''])
     \<and> no_file_on (files \<lparr>files = notebook_tree_absent, out = ([] :: build_line list)\<rparr>)
         (pull_album_dir (hd ALBUM_SPECS) [''repo''])
     \<and> \<not> path_exists (files \<lparr>files = notebook_tree_absent, out = ([] :: build_line list)\<rparr>)
         ([''repo''] @ import_dir (hd ALBUM_SPECS))"
    by code_simp
  note t = missing_import_dir_is_not_fatal [where spec = "hd ALBUM_SPECS"
      and w = "\<lparr>files = notebook_tree_absent, out = []\<rparr>" and base_dir = "[''repo'']"
      and lib = example_lib and template_root = "[''repo'', ''_templates'', ''track'']", THEN mp, OF h]
  from t have r1: "fst (build_workspaces_for_album example_lib (hd ALBUM_SPECS) [''repo'']
            [''repo'', ''_templates'', ''track''] \<lparr>files = notebook_tree_absent, out = []\<rparr>) = Inr []"
    by (rule conjunct1)
  have v: "sku (hd ALBUM_SPECS) = ''HAWK-ARS-01'' \<and> workspace_album (hd ALBUM_SPECS) = ''01_Singles''
      \<and> [''repo''] @ import_dir (hd ALBUM_SPECS) = [''repo'', ''_imports'', ''HAWK-ARS-00'', ''01_singles'']"
    by code_simp
  from t [THEN conjunct2, THEN conjunct2, THEN conjunct2, THEN conjunct2, THEN conjunct1]
  have "out (snd (main_album example_lib [''repo''] (hd ALBUM_SPECS) \<lparr>files = notebook_tree_absent, out = []\<rparr>))
       = out \<lparr>files = notebook_tree_absent, out = ([] :: build_line list)\<rparr>
         @ [AlbumLine (sku (hd ALBUM_SPECS)) (workspace_album (hd ALBUM_SPECS)),
            WarnImportDir ([''repo''] @ import_dir (hd ALBUM_SPECS))]" .
  with v have r2: "out (snd (main_album example_lib [''repo''] (hd ALBUM_SPECS) \<lparr>files = notebook_tree_absent, out = []\<rparr>))
       = [AlbumLine ''HAWK-ARS-01'' ''01_Singles'',
          WarnImportDir [''repo'', ''_imports'', ''HAWK-ARS-00'', ''01_singles'']]"
    by simp
  have r3: "fst (for_each (main_album example_lib [''repo'']) ALBUM_SPECS \<lparr>files = notebook_tree_absent, out = []\<rparr>)
       = Inr ()"
    by code_simp
  from h r1 r2 r3 show ?thesis by simp
qed

subsection \<open>From the workspace to the pull-bucket\<close>

lemma utf8_decode_strict: "utf8_decode ig bs = Some t \<Longrightarrow> \<not> ig \<Longrightarrow> t = bs"
proof (induction ig bs arbitrary: t rule: utf8_decode.induct)
  case (1 ignore)
  then show ?case by simp
next
  case (2 ignore b r)
  show ?case
  proof (cases "utf8_head (b # r)")
    case None
    with "2.prems" show ?thesis by simp
  next
    case (Some m)
    with "2.prems" obtain t' where d: "utf8_decode ignore (drop m r) = Some t'" and t: "t = b # take m r @ t'"
      by auto
    from "2.IH"(2) [OF Some d "2.prems"(2)] have "t' = drop m r" .
    with t show ?thesis by simp
  qed
qed

lemma utf8_decode_strict_id: "utf8_decode False bs = Some t \<Longrightarrow> t = bs"
  using utf8_decode_strict [of False bs t] by simp

lemma universal_newlines_id: "CHR 0x0D \<notin> set bs \<Longrightarrow> universal_newlines bs = bs"
  by (induction bs) auto

lemma read_text_Inr:
  "read_text False fs p = Inr t \<Longrightarrow>
     \<exists>T. lookup fs p = Some (File T) \<and> utf8_decode False T = Some T \<and> t = universal_newlines T"
proof -
  assume r: "read_text False fs p = Inr t"
  then obtain T where b: "read_bytes fs p = Inr T" by (auto simp: read_text_def split: sum.splits)
  with r obtain t' where d: "utf8_decode False T = Some t'" and t: "t = universal_newlines t'"
    by (auto simp: read_text_def split: option.splits)
  from d have "t' = T" by (rule utf8_decode_strict_id)
  with b d t show ?thesis by (auto dest: read_bytes_File)
qed

lemma write_bytes_Inr:
  "write_bytes fs p b = Inr fs' \<Longrightarrow> \<forall>q. lookup fs' q = (if q = p then Some (File b) else lookup fs q)"
  by (auto simp: write_bytes_def lookup_fs_update split: if_splits option.splits node.splits)

lemma pull_paths_differ: "pull_json_path spec base_dir t \<noteq> pull_md_path spec base_dir t"
proof
  assume "pull_json_path spec base_dir t = pull_md_path spec base_dir t"
  then have "track_number t @ ''_'' @ canonical_slug t @ ''.json'' = track_number t @ ''_'' @ canonical_slug t @ ''.md''"
    by (simp add: pull_json_path_def pull_md_path_def)
  then show False by simp
qed

lemma pull_track_Inr:
  assumes r: "fst (pull_track lib spec base_dir t w) = Inr ()"
  shows "\<exists>T. lookup (files w) (lyrics_path t) = Some (File T) \<and> utf8_decode False T = Some T
           \<and> lookup (files (snd (pull_track lib spec base_dir t w))) (pull_md_path spec base_dir t)
               = Some (File (universal_newlines T))
           \<and> (\<forall>q. q \<noteq> pull_md_path spec base_dir t \<longrightarrow> q \<noteq> pull_json_path spec base_dir t \<longrightarrow>
                  lookup (files (snd (pull_track lib spec base_dir t w))) q = lookup (files w) q)"
proof -
  let ?md = "pull_md_path spec base_dir t"
  let ?js = "pull_json_path spec base_dir t"
  obtain rt where rt: "read_text False (files w) (lyrics_path t) = rt" by simp
  show ?thesis
  proof (cases rt)
    case (Inl e)
    with r rt show ?thesis by (simp add: pull_track_def Let_def bind_io_def io_read_def)
  next
    case (Inr lyrics)
    with rt have rd: "read_text False (files w) (lyrics_path t) = Inr lyrics" by simp
    from read_text_Inr [OF rd] obtain T where
      T: "lookup (files w) (lyrics_path t) = Some (File T)" "utf8_decode False T = Some T"
         "lyrics = universal_newlines T" by blast
    show ?thesis
    proof (cases "write_bytes (files w) ?md lyrics")
      case (Inl e)
      with r rd show ?thesis
        by (simp add: pull_track_def Let_def bind_io_def io_read_def io_update_def write_text_def
              pull_md_path_def)
    next
      case f2: (Inr fs2)
      from write_bytes_Inr [OF f2] have l2: "lookup fs2 ?md = Some (File lyrics)" by simp
      show ?thesis
      proof (cases "py_int (track_number t)")
        case None
        with r rd f2 show ?thesis
          by (simp add: pull_track_def Let_def bind_io_def io_read_def io_update_def write_text_def
                pull_md_path_def)
      next
        case (Some n)
        show ?thesis
        proof (cases "write_bytes fs2 ?js (json_dumps lib (pull_metadata lib spec base_dir t n))")
          case (Inl e)
          with r rd f2 Some show ?thesis
            by (simp add: pull_track_def Let_def bind_io_def io_read_def io_update_def write_text_def
                  pull_md_path_def pull_json_path_def)
        next
          case f3: (Inr fs3)
          from write_bytes_Inr [OF f3] pull_paths_differ [of spec base_dir t] l2
          have l3: "lookup fs3 ?md = Some (File lyrics)" by simp
          have fr: "\<forall>q. q \<noteq> ?md \<longrightarrow> q \<noteq> ?js \<longrightarrow> lookup fs3 q = lookup (files w) q"
            using write_bytes_Inr [OF f3] write_bytes_Inr [OF f2] by simp
          have "files (snd (pull_track lib spec base_dir t w)) = fs3"
            using rd f2 Some f3
            by (simp add: pull_track_def Let_def bind_io_def io_read_def io_update_def write_text_def
                  pull_md_path_def pull_json_path_def print_def)
          with l3 T fr show ?thesis by simp
        qed
      qed
    qed
  qed
qed

lemma pull_track_total:
  assumes w: "wf_fs (files w)" and d: "is_dir (files w) (pull_album_dir spec base_dir)"
    and l: "lookup (files w) (lyrics_path t) = Some (File T)" and v: "utf8_decode False T = Some T"
    and m: "lookup (files w) (pull_md_path spec base_dir t) \<noteq> Some Dir"
    and j: "lookup (files w) (pull_json_path spec base_dir t) \<noteq> Some Dir"
    and n: "py_int (track_number t) = Some n"
  shows "fst (pull_track lib spec base_dir t w) = Inr ()"
proof -
  let ?md = "pull_md_path spec base_dir t"
  let ?js = "pull_json_path spec base_dir t"
  let ?lyrics = "universal_newlines T"
  have bm: "butlast ?md = pull_album_dir spec base_dir" "?md \<noteq> []"
    and bj: "butlast ?js = pull_album_dir spec base_dir" "?js \<noteq> []"
    by (simp_all add: pull_md_path_def pull_json_path_def butlast_append)
  from w l have "read_bytes (files w) (lyrics_path t) = Inr T" by (rule read_bytes_ok)
  with v have rd: "read_text False (files w) (lyrics_path t) = Inr ?lyrics"
    by (simp add: read_text_def)
  from w bm d m have f2: "write_bytes (files w) ?md ?lyrics = Inr (fs_update ?md (File ?lyrics) (files w))"
    by (intro write_bytes_ok) simp_all
  let ?fs2 = "fs_update ?md (File ?lyrics) (files w)"
  from w bm d m have w2: "wf_fs ?fs2" by (intro wf_fs_update) simp_all
  have dne: "pull_album_dir spec base_dir \<noteq> ?md" by (simp add: pull_md_path_def)
  with d have d2: "is_dir ?fs2 (pull_album_dir spec base_dir)"
    by (simp add: is_dir_def lookup_fs_update)
  from j pull_paths_differ [of spec base_dir t] have j2: "lookup ?fs2 ?js \<noteq> Some Dir"
    by (simp add: lookup_fs_update)
  from w2 bj d2 j2 have f3: "write_bytes ?fs2 ?js (json_dumps lib (pull_metadata lib spec base_dir t n))
      = Inr (fs_update ?js (File (json_dumps lib (pull_metadata lib spec base_dir t n))) ?fs2)"
    by (intro write_bytes_ok) simp_all
  from rd f2 n f3 show ?thesis
    by (simp add: pull_track_def Let_def bind_io_def io_read_def io_update_def write_text_def
          pull_md_path_def pull_json_path_def print_def)
qed

lemma pull_track_decode_error:
  assumes w: "wf_fs (files w)" and l: "lookup (files w) (lyrics_path t) = Some (File T)"
    and v: "utf8_decode False T = None"
  shows "pull_track lib spec base_dir t w = (Inl UnicodeDecodeError, w)"
proof -
  from w l have "read_bytes (files w) (lyrics_path t) = Inr T" by (rule read_bytes_ok)
  with v have "read_text False (files w) (lyrics_path t) = Inl UnicodeDecodeError"
    by (simp add: read_text_def)
  then show ?thesis by (simp add: pull_track_def Let_def bind_io_def io_read_def)
qed

lemma universal_newlines_no_cr: "CHR 0x0D \<notin> set (universal_newlines bs)"
  by (induction bs rule: universal_newlines.induct) (auto split: list.splits)

lemma universal_newlines_id_iff: "universal_newlines T = T \<longleftrightarrow> CHR 0x0D \<notin> set T"
proof
  assume "universal_newlines T = T"
  with universal_newlines_no_cr [of T] show "CHR 0x0D \<notin> set T" by simp
next
  assume "CHR 0x0D \<notin> set T"
  then show "universal_newlines T = T" by (rule universal_newlines_id)
qed

lemma lyrics_not_pulled:
  assumes "builder_record spec base_dir t"
  shows "lyrics_path t \<noteq> pull_md_path spec base_dir t'" "lyrics_path t \<noteq> pull_json_path spec base_dir t'"
  using assms
  by (simp_all add: builder_record_def pull_md_path_def pull_json_path_def workspace_album_dir_def
        pull_album_dir_def)

lemma json_not_md: "pull_json_path spec base_dir t \<noteq> pull_md_path spec base_dir t'"
proof
  assume "pull_json_path spec base_dir t = pull_md_path spec base_dir t'"
  then have "track_number t @ ''_'' @ canonical_slug t @ ''.json''
      = track_number t' @ ''_'' @ canonical_slug t' @ ''.md''"
    by (simp add: pull_json_path_def pull_md_path_def)
  then have "last (track_number t @ ''_'' @ canonical_slug t @ ''.json'')
      = last (track_number t' @ ''_'' @ canonical_slug t' @ ''.md'')" by (rule arg_cong)
  then show False by simp
qed

lemma same_md_same_lyrics:
  assumes a: "builder_record spec base_dir t" and b: "builder_record spec base_dir t'"
    and e: "pull_md_path spec base_dir t = pull_md_path spec base_dir t'"
  shows "lyrics_path t = lyrics_path t'"
proof -
  from e have "(track_number t @ ''_'' @ canonical_slug t) @ ''.md''
      = (track_number t' @ ''_'' @ canonical_slug t') @ ''.md''"
    by (simp add: pull_md_path_def)
  then have "track_number t @ ''_'' @ canonical_slug t = track_number t' @ ''_'' @ canonical_slug t'"
    by (simp only: append_same_eq)
  with a b show ?thesis by (simp add: builder_record_def)
qed

lemma for_each_Cons_Inr:
  assumes "fst (for_each body (x # xs) w) = Inr ()"
  shows "fst (body x w) = Inr () \<and> fst (for_each body xs (snd (body x w))) = Inr ()
         \<and> snd (for_each body (x # xs) w) = snd (for_each body xs (snd (body x w)))"
proof (cases "body x w")
  case (Pair r w1)
  with assms show ?thesis by (cases r) simp_all
qed

lemma pull_loop_frame:
  assumes "fst (for_each (pull_track lib spec base_dir) tracks w) = Inr ()"
    and "\<forall>t \<in> set tracks. builder_record spec base_dir t"
  shows "lookup (files (snd (for_each (pull_track lib spec base_dir) tracks w))) q = lookup (files w) q
     \<or> (\<exists>t \<in> set tracks. q = pull_json_path spec base_dir t)
     \<or> (\<exists>t \<in> set tracks. \<exists>T. q = pull_md_path spec base_dir t
           \<and> lookup (files w) (lyrics_path t) = Some (File T)
           \<and> lookup (files (snd (for_each (pull_track lib spec base_dir) tracks w))) q
                = Some (File (universal_newlines T)))"
  using assms
proof (induction tracks arbitrary: w)
  case Nil
  show ?case by simp
next
  case (Cons a rest)
  let ?w1 = "snd (pull_track lib spec base_dir a w)"
  let ?fin = "files (snd (for_each (pull_track lib spec base_dir) rest ?w1))"
  from for_each_Cons_Inr [OF Cons.prems(1)] have
    b: "fst (pull_track lib spec base_dir a w) = Inr ()"
    and l: "fst (for_each (pull_track lib spec base_dir) rest ?w1) = Inr ()"
    and s: "snd (for_each (pull_track lib spec base_dir) (a # rest) w)
             = snd (for_each (pull_track lib spec base_dir) rest ?w1)" by simp_all
  from Cons.prems(2) have ra: "builder_record spec base_dir a"
    and rr: "\<forall>t \<in> set rest. builder_record spec base_dir t" by simp_all
  from pull_track_Inr [OF b] obtain T where
    T: "lookup (files w) (lyrics_path a) = Some (File T)"
    and m: "lookup (files ?w1) (pull_md_path spec base_dir a) = Some (File (universal_newlines T))"
    and fr: "\<forall>q. q \<noteq> pull_md_path spec base_dir a \<longrightarrow> q \<noteq> pull_json_path spec base_dir a \<longrightarrow>
                  lookup (files ?w1) q = lookup (files w) q" by blast
  have keep: "lookup (files ?w1) (lyrics_path t) = lookup (files w) (lyrics_path t)"
    if "builder_record spec base_dir t" for t
    using fr lyrics_not_pulled [OF that, of a] by simp
  from Cons.IH [OF l rr] have
    "lookup ?fin q = lookup (files ?w1) q
     \<or> (\<exists>t \<in> set rest. q = pull_json_path spec base_dir t)
     \<or> (\<exists>t \<in> set rest. \<exists>T. q = pull_md_path spec base_dir t
           \<and> lookup (files ?w1) (lyrics_path t) = Some (File T)
           \<and> lookup ?fin q = Some (File (universal_newlines T)))" .
  then show ?case
  proof (elim disjE bexE exE conjE)
    assume u: "lookup ?fin q = lookup (files ?w1) q"
    show ?thesis
    proof (cases "q = pull_md_path spec base_dir a")
      case True
      with u m T s have "a \<in> set (a # rest) \<and> q = pull_md_path spec base_dir a
           \<and> lookup (files w) (lyrics_path a) = Some (File T)
           \<and> lookup (files (snd (for_each (pull_track lib spec base_dir) (a # rest) w))) q
                = Some (File (universal_newlines T))" by simp
      then show ?thesis by blast
    next
      case False
      show ?thesis
      proof (cases "q = pull_json_path spec base_dir a")
        case True
        then have "a \<in> set (a # rest) \<and> q = pull_json_path spec base_dir a" by simp
        then show ?thesis by blast
      next
        case nj: False
        from fr False nj have "lookup (files ?w1) q = lookup (files w) q" by simp
        with u s show ?thesis by simp
      qed
    qed
  next
    fix t
    assume "t \<in> set rest" "q = pull_json_path spec base_dir t"
    then have "t \<in> set (a # rest) \<and> q = pull_json_path spec base_dir t" by simp
    then show ?thesis by blast
  next
    fix t T'
    assume t: "t \<in> set rest" and q: "q = pull_md_path spec base_dir t"
      and l1: "lookup (files ?w1) (lyrics_path t) = Some (File T')"
      and f: "lookup ?fin q = Some (File (universal_newlines T'))"
    from t rr have "builder_record spec base_dir t" by simp
    from keep [OF this] l1 have "lookup (files w) (lyrics_path t) = Some (File T')" by simp
    with t q f s have "t \<in> set (a # rest) \<and> q = pull_md_path spec base_dir t
           \<and> lookup (files w) (lyrics_path t) = Some (File T')
           \<and> lookup (files (snd (for_each (pull_track lib spec base_dir) (a # rest) w))) q
                = Some (File (universal_newlines T'))" by simp
    then show ?thesis by blast
  qed
qed

lemma pull_loop_keeps_lyrics:
  assumes r: "fst (for_each (pull_track lib spec base_dir) tracks w) = Inr ()"
    and rs: "\<forall>t \<in> set tracks. builder_record spec base_dir t"
    and t: "builder_record spec base_dir t"
  shows "lookup (files (snd (for_each (pull_track lib spec base_dir) tracks w))) (lyrics_path t)
           = lookup (files w) (lyrics_path t)"
  using pull_loop_frame [OF r rs, of "lyrics_path t"] lyrics_not_pulled [OF t]
  by blast

lemma pull_loop_result:
  assumes "fst (for_each (pull_track lib spec base_dir) tracks w) = Inr ()"
    and "\<forall>t \<in> set tracks. builder_record spec base_dir t"
    and "t \<in> set tracks"
  shows "\<exists>T. lookup (files w) (lyrics_path t) = Some (File T) \<and> utf8_decode False T = Some T
           \<and> lookup (files (snd (for_each (pull_track lib spec base_dir) tracks w)))
                (pull_md_path spec base_dir t) = Some (File (universal_newlines T))"
  using assms
proof (induction tracks arbitrary: w)
  case Nil
  then show ?case by simp
next
  case (Cons a rest)
  let ?w1 = "snd (pull_track lib spec base_dir a w)"
  let ?fin = "files (snd (for_each (pull_track lib spec base_dir) rest ?w1))"
  from for_each_Cons_Inr [OF Cons.prems(1)] have
    b: "fst (pull_track lib spec base_dir a w) = Inr ()"
    and l: "fst (for_each (pull_track lib spec base_dir) rest ?w1) = Inr ()"
    and s: "snd (for_each (pull_track lib spec base_dir) (a # rest) w)
             = snd (for_each (pull_track lib spec base_dir) rest ?w1)" by simp_all
  from Cons.prems(2) have ra: "builder_record spec base_dir a"
    and rr: "\<forall>t \<in> set rest. builder_record spec base_dir t" by simp_all
  from pull_track_Inr [OF b] obtain T where
    T: "lookup (files w) (lyrics_path a) = Some (File T)" and v: "utf8_decode False T = Some T"
    and m: "lookup (files ?w1) (pull_md_path spec base_dir a) = Some (File (universal_newlines T))"
    and fr: "\<forall>q. q \<noteq> pull_md_path spec base_dir a \<longrightarrow> q \<noteq> pull_json_path spec base_dir a \<longrightarrow>
                  lookup (files ?w1) q = lookup (files w) q" by blast
  have keep: "lookup (files ?w1) (lyrics_path t) = lookup (files w) (lyrics_path t)"
    if "builder_record spec base_dir t" for t
    using fr lyrics_not_pulled [OF that, of a] by simp
  show ?case
  proof (cases "t \<in> set rest")
    case True
    from Cons.IH [OF l rr True] obtain T' where
      "lookup (files ?w1) (lyrics_path t) = Some (File T')" "utf8_decode False T' = Some T'"
      "lookup ?fin (pull_md_path spec base_dir t) = Some (File (universal_newlines T'))" by blast
    moreover from True rr have "builder_record spec base_dir t" by simp
    ultimately show ?thesis using keep s by simp
  next
    case False
    with Cons.prems(3) have ta: "t = a" by simp
    from pull_loop_frame [OF l rr, of "pull_md_path spec base_dir a"]
    have "lookup ?fin (pull_md_path spec base_dir a) = Some (File (universal_newlines T))"
    proof (elim disjE bexE exE conjE)
      assume "lookup ?fin (pull_md_path spec base_dir a) = lookup (files ?w1) (pull_md_path spec base_dir a)"
      with m show ?thesis by simp
    next
      fix t'
      assume "pull_md_path spec base_dir a = pull_json_path spec base_dir t'"
      with json_not_md [of spec base_dir t' a] show ?thesis by simp
    next
      fix t' T'
      assume t': "t' \<in> set rest" and e: "pull_md_path spec base_dir a = pull_md_path spec base_dir t'"
        and l1: "lookup (files ?w1) (lyrics_path t') = Some (File T')"
        and f: "lookup ?fin (pull_md_path spec base_dir a) = Some (File (universal_newlines T'))"
      from t' rr have rt: "builder_record spec base_dir t'" by simp
      from ra rt e have "lyrics_path a = lyrics_path t'" by (rule same_md_same_lyrics)
      with keep [OF rt] l1 T have "T' = T" by simp
      with f show ?thesis by simp
    qed
    with T v s ta show ?thesis by simp
  qed
qed

lemma build_track_record:
  assumes r: "build_track lib spec base_dir template_root md_path w = (Inr (Some t), w')"
  shows "builder_record spec base_dir t"
proof (cases "py_in ''-checkpoint'' (last md_path)")
  case True
  with r show ?thesis by (simp add: build_track_def ret_def)
next
  case False
  show ?thesis
  proof (cases "TRACK_FILE_RE_match (last md_path)")
    case None
    with r False show ?thesis by (simp add: build_track_def ret_def)
  next
    case (Some g)
    obtain g1 g2 where g: "g = (g1, g2)" by (cases g)
    from r False Some g show ?thesis
      unfolding build_track_def Let_def
      apply simp
      apply (elim bind_io_InrE)
      apply (cases "py_int g1")
       apply simp
      apply simp
      apply (elim bind_io_InrE)
      apply (simp add: ret_def)
      apply (auto simp: builder_record_def)
      done
  qed
qed

lemma build_loop_records:
  "build_loop (build_track lib spec base_dir template_root) mds acc w = (Inr tracks, w') \<Longrightarrow>
   \<forall>t \<in> set acc. builder_record spec base_dir t \<Longrightarrow>
   \<forall>t \<in> set tracks. builder_record spec base_dir t"
proof (induction mds arbitrary: acc w)
  case Nil
  then show ?case by simp
next
  case (Cons md mds)
  obtain r w1 where b: "build_track lib spec base_dir template_root md w = (r, w1)" by force
  show ?case
  proof (cases r)
    case (Inl e)
    with Cons.prems b show ?thesis by simp
  next
    case (Inr res)
    show ?thesis
    proof (cases res)
      case None
      with Cons.prems b Inr have
        "build_loop (build_track lib spec base_dir template_root) mds acc w1 = (Inr tracks, w')" by simp
      from Cons.IH [OF this Cons.prems(2)] show ?thesis .
    next
      case (Some t)
      with b Inr have "builder_record spec base_dir t" using build_track_record by blast
      with Cons.prems(2) have a: "\<forall>t \<in> set (acc @ [t]). builder_record spec base_dir t" by simp
      from Cons.prems b Inr Some have
        "build_loop (build_track lib spec base_dir template_root) mds (acc @ [t]) w1 = (Inr tracks, w')"
        by simp
      from Cons.IH [OF this a] show ?thesis .
    qed
  qed
qed

lemma build_workspaces_records:
  assumes r: "fst (build_workspaces_for_album lib spec base_dir template_root w) = Inr tracks"
  shows "\<forall>t \<in> set tracks. builder_record spec base_dir t"
proof -
  obtain r1 w1 where m1: "io_mkdir_p (workspace_album_dir spec base_dir) w = (r1, w1)" by force
  obtain r2 w2 where m2: "io_mkdir_p (pull_album_dir spec base_dir) w1 = (r2, w2)" by force
  show ?thesis
  proof (cases r1)
    case (Inl e)
    with r m1 show ?thesis by (simp add: build_workspaces_for_album_def bind_io_def)
  next
    case i1: (Inr u1)
    show ?thesis
    proof (cases r2)
      case (Inl e)
      with r m1 m2 i1 show ?thesis by (simp add: build_workspaces_for_album_def bind_io_def)
    next
      case i2: (Inr u2)
      show ?thesis
      proof (cases "path_exists (files w2) (base_dir @ import_dir spec)")
        case False
        with r m1 m2 i1 i2 have "tracks = []"
          by (simp add: build_workspaces_for_album_def bind_io_def io_test_def print_def ret_def)
        then show ?thesis by simp
      next
        case True
        obtain r3 w3 where l: "build_loop (build_track lib spec base_dir template_root)
           (rglob_sorted (files w2) (base_dir @ import_dir spec) ''*.md'') [] w2 = (r3, w3)" by force
        with r m1 m2 i1 i2 True have "r3 = Inr tracks"
          by (simp add: build_workspaces_for_album_def bind_io_def io_test_def io_read_def)
        with l build_loop_records [of lib spec base_dir template_root _ "[]" w2 tracks w3]
        show ?thesis by simp
      qed
    qed
  qed
qed

lemma build_pull_bucket_result:
  assumes r: "fst (build_pull_bucket_for_album lib spec base_dir tracks w) = Inr ()"
    and rs: "\<forall>t \<in> set tracks. builder_record spec base_dir t"
    and t: "t \<in> set tracks"
  shows "\<exists>T. lookup (files w) (lyrics_path t) = Some (File T) \<and> utf8_decode False T = Some T
           \<and> lookup (files (snd (build_pull_bucket_for_album lib spec base_dir tracks w)))
                (pull_md_path spec base_dir t) = Some (File (universal_newlines T))
           \<and> lookup (files (snd (build_pull_bucket_for_album lib spec base_dir tracks w)))
                (lyrics_path t) = Some (File T)"
proof -
  let ?pd = "pull_album_dir spec base_dir"
  obtain r1 w1 where m: "io_mkdir_p ?pd w = (r1, w1)" by force
  from io_mkdir_p_adds [of ?pd w] m have ad: "adds_dirs ?pd (files w) (files w1)" by simp
  show ?thesis
  proof (cases r1)
    case (Inl e)
    with r m show ?thesis by (simp add: build_pull_bucket_for_album_def bind_io_def)
  next
    case (Inr u)
    with m have e: "build_pull_bucket_for_album lib spec base_dir tracks w
        = for_each (pull_track lib spec base_dir) tracks w1"
      by (simp add: build_pull_bucket_for_album_def bind_io_def)
    with r have l: "fst (for_each (pull_track lib spec base_dir) tracks w1) = Inr ()" by simp
    from t rs have rt: "builder_record spec base_dir t" by simp
    from pull_loop_result [OF l rs t] obtain T where
      T: "lookup (files w1) (lyrics_path t) = Some (File T)" and v: "utf8_decode False T = Some T"
      and f: "lookup (files (snd (for_each (pull_track lib spec base_dir) tracks w1)))
                (pull_md_path spec base_dir t) = Some (File (universal_newlines T))" by blast
    have "lookup (files w) (lyrics_path t) = Some (File T)"
    proof (cases "lookup (files w1) (lyrics_path t) = lookup (files w) (lyrics_path t)")
      case True
      with T show ?thesis by simp
    next
      case False
      with ad have "lookup (files w1) (lyrics_path t) = Some Dir" using adds_dirs_at by blast
      with T show ?thesis by simp
    qed
    moreover from pull_loop_keeps_lyrics [OF l rs rt] T
    have "lookup (files (snd (for_each (pull_track lib spec base_dir) tracks w1))) (lyrics_path t)
            = Some (File T)" by simp
    ultimately show ?thesis using v f e by simp
  qed
qed

text \<open>
  C7, as stated, fails: the lyrics are read and written as text, not as bytes. Reading
  turns every CR LF and every lone CR into a line feed, and it raises on bytes that are
  not UTF-8. Take the record the album builder returns for \<^verbatim>\<open>05_return_of_kings.md\<close> and
  let the workspace lyrics be replaced on disk, before the pull-bucket is built, by the
  four bytes of \<^verbatim>\<open>a\<close>, CR, LF, \<^verbatim>\<open>b\<close>: the pull-bucket file then holds the three bytes of
  \<^verbatim>\<open>a\<close>, LF, \<^verbatim>\<open>b\<close>. Let them be replaced by the byte FF: the run stops with
  \<^verbatim>\<open>UnicodeDecodeError\<close> and there is no pull-bucket file.
\<close>

theorem pull_bucket_counterexample:
  "fst (build_workspaces_for_album example_lib (hd ALBUM_SPECS) [] [''_templates'', ''track'']
          \<lparr>files = example_imports, out = []\<rparr>) = Inr [kings_track]
   \<and> lookup edited_workspace (lyrics_path kings_track)
       = Some (File [CHR ''a'', CHR 0x0D, CHR 0x0A, CHR ''b''])
   \<and> fst (build_pull_bucket_for_album example_lib (hd ALBUM_SPECS) [] [kings_track]
            \<lparr>files = edited_workspace, out = []\<rparr>) = Inr ()
   \<and> lookup (files (snd (build_pull_bucket_for_album example_lib (hd ALBUM_SPECS) [] [kings_track]
                           \<lparr>files = edited_workspace, out = []\<rparr>)))
        [''HAWK-ARS-01'', ''_pull-bucket'', ''01_Singles'', ''05_return-of-kings.md'']
       = Some (File [CHR ''a'', CHR 0x0A, CHR ''b''])
   \<and> lookup damaged_workspace (lyrics_path kings_track) = Some (File [CHR 0xFF])
   \<and> fst (build_pull_bucket_for_album example_lib (hd ALBUM_SPECS) [] [kings_track]
            \<lparr>files = damaged_workspace, out = []\<rparr>) = Inl UnicodeDecodeError
   \<and> lookup (files (snd (build_pull_bucket_for_album example_lib (hd ALBUM_SPECS) [] [kings_track]
                           \<lparr>files = damaged_workspace, out = []\<rparr>)))
        [''HAWK-ARS-01'', ''_pull-bucket'', ''01_Singles'', ''05_return-of-kings.md''] = None"
  by code_simp

text \<open>
  C7, amended. Every record the album builder returns has the shape \<open>builder_record\<close>.
  When the pull-bucket builder is run on such records and returns, then for each of
  them the workspace lyrics file held, when the run began, bytes \<open>T\<close> that are well-formed
  UTF-8, it still holds them at the end, and the pull-bucket file named after the track
  number and the canonical slug holds \<open>T\<close> with every CR LF and every lone CR turned into
  a line feed; this is \<open>T\<close> itself exactly when \<open>T\<close> has no carriage return. So the text
  comes from the file as it is on disk when the pull-bucket is built, whatever the album
  builder had written there. For one track: if the bytes are not well-formed UTF-8 the
  step raises \<^verbatim>\<open>UnicodeDecodeError\<close> and changes nothing; if they are, the tree is
  well-formed, the pull-bucket directory of the album exists, neither of the two files
  to be written is a directory and the track number is a number, the step returns and
  the pull-bucket file holds the converted text.
\<close>

theorem pull_bucket_round_trip:
  "(fst (build_workspaces_for_album lib spec base_dir template_root w0) = Inr tracks \<longrightarrow>
      (\<forall>t \<in> set tracks. builder_record spec base_dir t))
   \<and> ((\<forall>t \<in> set tracks. builder_record spec base_dir t)
        \<and> fst (build_pull_bucket_for_album lib spec base_dir tracks w) = Inr () \<longrightarrow>
      (\<forall>t \<in> set tracks. \<exists>T.
          lookup (files w) (lyrics_path t) = Some (File T) \<and> utf8_decode False T = Some T
          \<and> lookup (files (snd (build_pull_bucket_for_album lib spec base_dir tracks w)))
               (pull_md_path spec base_dir t) = Some (File (universal_newlines T))
          \<and> lookup (files (snd (build_pull_bucket_for_album lib spec base_dir tracks w)))
               (lyrics_path t) = Some (File T)))
   \<and> (universal_newlines T = T \<longleftrightarrow> CHR 0x0D \<notin> set T)
   \<and> (wf_fs (files w) \<and> lookup (files w) (lyrics_path t) = Some (File T)
        \<and> utf8_decode False T = None \<longrightarrow>
      pull_track lib spec base_dir t w = (Inl UnicodeDecodeError, w))
   \<and> (wf_fs (files w) \<and> is_dir (files w) (pull_album_dir spec base_dir)
        \<and> lookup (files w) (lyrics_path t) = Some (File T) \<and> utf8_decode False T = Some T
        \<and> lookup (files w) (pull_md_path spec base_dir t) \<noteq> Some Dir
        \<and> lookup (files w) (pull_json_path spec base_dir t) \<noteq> Some Dir
        \<and> py_int (track_number t) \<noteq> None \<longrightarrow>
      fst (pull_track lib spec base_dir t w) = Inr ()
      \<and> lookup (files (snd (pull_track lib spec base_dir t w))) (pull_md_path spec base_dir t)
           = Some (File (universal_newlines T)))"
proof -
  have a: "fst (build_workspaces_for_album lib spec base_dir template_root w0) = Inr tracks \<longrightarrow>
      (\<forall>t \<in> set tracks. builder_record spec base_dir t)"
    using build_workspaces_records [of lib spec base_dir template_root w0 tracks] by (rule impI)
  have b: "(\<forall>t \<in> set tracks. builder_record spec base_dir t)
        \<and> fst (build_pull_bucket_for_album lib spec base_dir tracks w) = Inr () \<longrightarrow>
      (\<forall>t \<in> set tracks. \<exists>T.
          lookup (files w) (lyrics_path t) = Some (File T) \<and> utf8_decode False T = Some T
          \<and> lookup (files (snd (build_pull_bucket_for_album lib spec base_dir tracks w)))
               (pull_md_path spec base_dir t) = Some (File (universal_newlines T))
          \<and> lookup (files (snd (build_pull_bucket_for_album lib spec base_dir tracks w)))
               (lyrics_path t) = Some (File T))"
  proof (intro impI ballI)
    fix t
    assume h: "(\<forall>t \<in> set tracks. builder_record spec base_dir t)
        \<and> fst (build_pull_bucket_for_album lib spec base_dir tracks w) = Inr ()"
      and t: "t \<in> set tracks"
    from h have h1: "\<forall>t \<in> set tracks. builder_record spec base_dir t"
      and h2: "fst (build_pull_bucket_for_album lib spec base_dir tracks w) = Inr ()" by simp_all
    from h2 h1 t show "\<exists>T.
          lookup (files w) (lyrics_path t) = Some (File T) \<and> utf8_decode False T = Some T
          \<and> lookup (files (snd (build_pull_bucket_for_album lib spec base_dir tracks w)))
               (pull_md_path spec base_dir t) = Some (File (universal_newlines T))
          \<and> lookup (files (snd (build_pull_bucket_for_album lib spec base_dir tracks w)))
               (lyrics_path t) = Some (File T)"
      by (rule build_pull_bucket_result)
  qed
  have c: "universal_newlines T = T \<longleftrightarrow> CHR 0x0D \<notin> set T" by (rule universal_newlines_id_iff)
  have d: "wf_fs (files w) \<and> lookup (files w) (lyrics_path t) = Some (File T)
        \<and> utf8_decode False T = None \<longrightarrow>
      pull_track lib spec base_dir t w = (Inl UnicodeDecodeError, w)"
  proof
    assume h: "wf_fs (files w) \<and> lookup (files w) (lyrics_path t) = Some (File T)
        \<and> utf8_decode False T = None"
    then have "wf_fs (files w)" "lookup (files w) (lyrics_path t) = Some (File T)"
      "utf8_decode False T = None" by simp_all
    then show "pull_track lib spec base_dir t w = (Inl UnicodeDecodeError, w)"
      by (rule pull_track_decode_error)
  qed
  have e: "wf_fs (files w) \<and> is_dir (files w) (pull_album_dir spec base_dir)
        \<and> lookup (files w) (lyrics_path t) = Some (File T) \<and> utf8_decode False T = Some T
        \<and> lookup (files w) (pull_md_path spec base_dir t) \<noteq> Some Dir
        \<and> lookup (files w) (pull_json_path spec base_dir t) \<noteq> Some Dir
        \<and> py_int (track_number t) \<noteq> None \<longrightarrow>
      fst (pull_track lib spec base_dir t w) = Inr ()
      \<and> lookup (files (snd (pull_track lib spec base_dir t w))) (pull_md_path spec base_dir t)
           = Some (File (universal_newlines T))"
  proof
    assume h: "wf_fs (files w) \<and> is_dir (files w) (pull_album_dir spec base_dir)
        \<and> lookup (files w) (lyrics_path t) = Some (File T) \<and> utf8_decode False T = Some T
        \<and> lookup (files w) (pull_md_path spec base_dir t) \<noteq> Some Dir
        \<and> lookup (files w) (pull_json_path spec base_dir t) \<noteq> Some Dir
        \<and> py_int (track_number t) \<noteq> None"
    then obtain n where n: "py_int (track_number t) = Some n" by auto
    from h have h1: "wf_fs (files w)" and h2: "is_dir (files w) (pull_album_dir spec base_dir)"
      and h3: "lookup (files w) (lyrics_path t) = Some (File T)" and h4: "utf8_decode False T = Some T"
      and h5: "lookup (files w) (pull_md_path spec base_dir t) \<noteq> Some Dir"
      and h6: "lookup (files w) (pull_json_path spec base_dir t) \<noteq> Some Dir" by simp_all
    from h1 h2 h3 h4 h5 h6 n have r: "fst (pull_track lib spec base_dir t w) = Inr ()"
      by (rule pull_track_total)
    from pull_track_Inr [OF r] h3 have
      "lookup (files (snd (pull_track lib spec base_dir t w))) (pull_md_path spec base_dir t)
           = Some (File (universal_newlines T))" by auto
    with r show "fst (pull_track lib spec base_dir t w) = Inr ()
      \<and> lookup (files (snd (pull_track lib spec base_dir t w))) (pull_md_path spec base_dir t)
           = Some (File (universal_newlines T))" by simp
  qed
  from a b c d e show ?thesis
    apply -
    apply ((rule conjI, assumption)+)
    apply assumption
    done
qed

theorem pull_bucket_round_trip_witness:
  "fst (build_workspaces_for_album example_lib (hd ALBUM_SPECS) [] [''_templates'', ''track'']
          \<lparr>files = example_imports, out = []\<rparr>) = Inr [kings_track]
   \<and> builder_record (hd ALBUM_SPECS) [] kings_track
   \<and> fst (build_pull_bucket_for_album example_lib (hd ALBUM_SPECS) [] [kings_track]
            \<lparr>files = built_workspace, out = []\<rparr>) = Inr ()
   \<and> lookup built_workspace (lyrics_path kings_track) = Some (File ''lyrics of kings'')
   \<and> lookup (files (snd (build_pull_bucket_for_album example_lib (hd ALBUM_SPECS) [] [kings_track]
                           \<lparr>files = built_workspace, out = []\<rparr>)))
        (pull_md_path (hd ALBUM_SPECS) [] kings_track) = Some (File ''lyrics of kings'')
   \<and> pull_md_path (hd ALBUM_SPECS) [] kings_track
       = [''HAWK-ARS-01'', ''_pull-bucket'', ''01_Singles'', ''05_return-of-kings.md'']
   \<and> wf_fs damaged_workspace
   \<and> lookup damaged_workspace (lyrics_path kings_track) = Some (File [CHR 0xFF])
   \<and> pull_track example_lib (hd ALBUM_SPECS) [] kings_track \<lparr>files = damaged_workspace, out = []\<rparr>
       = (Inl UnicodeDecodeError, \<lparr>files = damaged_workspace, out = []\<rparr>)
   \<and> wf_fs edited_workspace
   \<and> lookup edited_workspace (lyrics_path kings_track)
       = Some (File [CHR ''a'', CHR 0x0D, CHR 0x0A, CHR ''b''])
   \<and> fst (pull_track example_lib (hd ALBUM_SPECS) [] kings_track \<lparr>files = edited_workspace, out = []\<rparr>)
       = Inr ()
   \<and> lookup (files (snd (pull_track example_lib (hd ALBUM_SPECS) [] kings_track
                           \<lparr>files = edited_workspace, out = []\<rparr>)))
        (pull_md_path (hd ALBUM_SPECS) [] kings_track) = Some (File [CHR ''a'', CHR 0x0A, CHR ''b''])"
proof -
  let ?spec = "hd ALBUM_SPECS"
  let ?start = "\<lparr>files = example_imports, out = ([] :: build_line list)\<rparr>"
  let ?built = "\<lparr>files = built_workspace, out = ([] :: build_line list)\<rparr>"
  let ?damaged = "\<lparr>files = damaged_workspace, out = ([] :: build_line list)\<rparr>"
  let ?edited = "\<lparr>files = edited_workspace, out = ([] :: build_line list)\<rparr>"
  have h1: "fst (build_workspaces_for_album example_lib ?spec [] [''_templates'', ''track''] ?start)
              = Inr [kings_track]" by code_simp
  have h2: "fst (build_pull_bucket_for_album example_lib ?spec [] [kings_track] ?built) = Inr ()"
    by code_simp
  have h3: "lookup built_workspace (lyrics_path kings_track) = Some (File ''lyrics of kings'')"
    by code_simp
  have h4: "CHR 0x0D \<notin> set ''lyrics of kings''" by code_simp
  have h5: "pull_md_path ?spec [] kings_track
       = [''HAWK-ARS-01'', ''_pull-bucket'', ''01_Singles'', ''05_return-of-kings.md'']" by code_simp
  have d1: "wf_fs (files ?damaged) \<and> lookup (files ?damaged) (lyrics_path kings_track) = Some (File [CHR 0xFF])
        \<and> utf8_decode False [CHR 0xFF] = None" by code_simp
  have e1: "wf_fs (files ?edited) \<and> is_dir (files ?edited) (pull_album_dir ?spec [])
        \<and> lookup (files ?edited) (lyrics_path kings_track) = Some (File [CHR ''a'', CHR 0x0D, CHR 0x0A, CHR ''b''])
        \<and> utf8_decode False [CHR ''a'', CHR 0x0D, CHR 0x0A, CHR ''b'']
            = Some [CHR ''a'', CHR 0x0D, CHR 0x0A, CHR ''b'']
        \<and> lookup (files ?edited) (pull_md_path ?spec [] kings_track) \<noteq> Some Dir
        \<and> lookup (files ?edited) (pull_json_path ?spec [] kings_track) \<noteq> Some Dir
        \<and> py_int (track_number kings_track) \<noteq> None" by code_simp
  have e2: "universal_newlines [CHR ''a'', CHR 0x0D, CHR 0x0A, CHR ''b''] = [CHR ''a'', CHR 0x0A, CHR ''b'']"
    by code_simp
  note t = pull_bucket_round_trip [where lib = example_lib and spec = ?spec and base_dir = "[]"
      and template_root = "[''_templates'', ''track'']" and ?w0.0 = ?start and tracks = "[kings_track]"]
  from t [THEN conjunct1, THEN mp, OF h1]
  have r1: "\<forall>t \<in> set [kings_track]. builder_record ?spec [] t" .
  then have r2: "builder_record ?spec [] kings_track" by simp
  from r1 h2 have "(\<forall>t \<in> set [kings_track]. builder_record ?spec [] t)
      \<and> fst (build_pull_bucket_for_album example_lib ?spec [] [kings_track] ?built) = Inr ()" by (rule conjI)
  from t [where w = ?built, THEN conjunct2, THEN conjunct1, THEN mp, OF this]
  have "\<exists>T. lookup (files ?built) (lyrics_path kings_track) = Some (File T) \<and> utf8_decode False T = Some T
          \<and> lookup (files (snd (build_pull_bucket_for_album example_lib ?spec [] [kings_track] ?built)))
               (pull_md_path ?spec [] kings_track) = Some (File (universal_newlines T))
          \<and> lookup (files (snd (build_pull_bucket_for_album example_lib ?spec [] [kings_track] ?built)))
               (lyrics_path kings_track) = Some (File T)" by simp
  with h3 have r3: "lookup (files (snd (build_pull_bucket_for_album example_lib ?spec [] [kings_track] ?built)))
               (pull_md_path ?spec [] kings_track) = Some (File (universal_newlines ''lyrics of kings''))"
    by auto
  from t [where T = "''lyrics of kings''", THEN conjunct2, THEN conjunct2, THEN conjunct1] h4
  have "universal_newlines ''lyrics of kings'' = ''lyrics of kings''" by simp
  with r3 have r4: "lookup (files (snd (build_pull_bucket_for_album example_lib ?spec [] [kings_track] ?built)))
               (pull_md_path ?spec [] kings_track) = Some (File ''lyrics of kings'')" by simp
  from t [where w = ?damaged and t = kings_track and T = "[CHR 0xFF]",
      THEN conjunct2, THEN conjunct2, THEN conjunct2, THEN conjunct1, THEN mp, OF d1]
  have r5: "pull_track example_lib ?spec [] kings_track ?damaged = (Inl UnicodeDecodeError, ?damaged)" .
  from t [where w = ?edited and t = kings_track and T = "[CHR ''a'', CHR 0x0D, CHR 0x0A, CHR ''b'']",
      THEN conjunct2, THEN conjunct2, THEN conjunct2, THEN conjunct2, THEN mp, OF e1]
  have r6: "fst (pull_track example_lib ?spec [] kings_track ?edited) = Inr ()
      \<and> lookup (files (snd (pull_track example_lib ?spec [] kings_track ?edited))) (pull_md_path ?spec [] kings_track)
           = Some (File (universal_newlines [CHR ''a'', CHR 0x0D, CHR 0x0A, CHR ''b'']))" .
  from d1 have d2: "wf_fs damaged_workspace"
    "lookup damaged_workspace (lyrics_path kings_track) = Some (File [CHR 0xFF])" by simp_all
  from e1 have e3: "wf_fs edited_workspace"
    "lookup edited_workspace (lyrics_path kings_track) = Some (File [CHR ''a'', CHR 0x0D, CHR 0x0A, CHR ''b''])"
    by simp_all
  from r6 e2 have r7: "fst (pull_track example_lib ?spec [] kings_track ?edited) = Inr ()"
    "lookup (files (snd (pull_track example_lib ?spec [] kings_track ?edited))) (pull_md_path ?spec [] kings_track)
           = Some (File [CHR ''a'', CHR 0x0A, CHR ''b''])" by simp_all
  from h1 r2 h2 h3 r4 h5 d2 r5 e3 r7 show ?thesis by (intro conjI)
qed

end
